(* ===== verification/Prelude.thy ===== *)
theory Prelude
  imports Main "HOL-Library.Sublist" "HOL-Library.Word" "HOL-Library.Code_Target_Nat"
begin

text \<open>
  What every component of the relay model shares: the collections of simplification rules the
  component proofs use, exceptions as values, and the pieces of the JavaScript language and its
  standard library that the sources use everywhere (indexing that yields \<open>undefined\<close>,
  \<open>Number.prototype.toString\<close>, \<open>Array.prototype.join\<close>, the decoding of
  hexadecimal strings by \<open>Buffer.from\<close>).

  A JavaScript string is a list of UTF-16 code units; the model's strings are HOL strings, so the
  code units of the model are the Latin-1 ones (below 256). \<open>length\<close> counts code units, as
  \<open>String.prototype.length\<close> does.
\<close>

section \<open>Collections\<close>

named_theorems effect_simps \<open>how operations act on the fields of a state\<close>
named_theorems reply_simps \<open>the messages an operation emits\<close>
named_theorems inv_intros \<open>preservation of invariants\<close>

section \<open>Exceptions as values\<close>

text \<open>
  A thrown value is either an instance of \<open>Error\<close>, with its \<open>name\<close> and \<open>message\<close>, or
  some other value (\<open>throw\<close> takes any value).
\<close>

datatype exn = Err (exn_name: string) (exn_message: string) | NonErr

type_synonym 'a result = "exn + 'a"

definition is_error_instance :: "exn \<Rightarrow> bool" where
  "is_error_instance x = (case x of Err _ _ \<Rightarrow> True | NonErr \<Rightarrow> False)"

abbreviation type_error :: "string \<Rightarrow> exn" where
  "type_error m \<equiv> Err ''TypeError'' m"

abbreviation plain_error :: "string \<Rightarrow> exn" where
  "plain_error m \<equiv> Err ''Error'' m"

lemma is_error_instance_simps [simp]:
  "is_error_instance (Err n m)" "\<not> is_error_instance NonErr"
  by (simp_all add: is_error_instance_def)

section \<open>Asynchronous code\<close>

text \<open>
  A call that works on a world and is awaited: it is rejected with an exception or fulfilled with a
  value, and it leaves the world changed either way. \<open>await m f\<close> goes on with \<open>f\<close> only when \<open>m\<close> is
  fulfilled; \<open>catching m h\<close> is \<open>try { m } catch (x) { h x }\<close>.
\<close>

type_synonym ('w, 'a) task = "'w \<Rightarrow> 'a result \<times> 'w"

definition returning :: "'a \<Rightarrow> ('w, 'a) task" where
  "returning a w = (Inr a, w)"

definition throwing :: "exn \<Rightarrow> ('w, 'a) task" where
  "throwing x w = (Inl x, w)"

definition await :: "('w, 'a) task \<Rightarrow> ('a \<Rightarrow> ('w, 'b) task) \<Rightarrow> ('w, 'b) task" where
  "await m f w = (case m w of (Inl x, w1) \<Rightarrow> (Inl x, w1) | (Inr a, w1) \<Rightarrow> f a w1)"

definition catching :: "('w, 'a) task \<Rightarrow> (exn \<Rightarrow> ('w, 'a) task) \<Rightarrow> ('w, 'a) task" where
  "catching m h w = (case m w of (Inl x, w1) \<Rightarrow> h x w1 | (Inr a, w1) \<Rightarrow> (Inr a, w1))"

definition reading :: "('w \<Rightarrow> 'a) \<Rightarrow> ('w, 'a) task" where
  "reading g w = (Inr (g w), w)"

lemma task_simps [simp]:
  "returning a w = (Inr a, w)" "throwing x w = (Inl x, w)" "reading g w = (Inr (g w), w)"
  by (simp_all add: returning_def throwing_def reading_def)

lemma await_simps:
  "m w = (Inr a, w1) \<Longrightarrow> await m f w = f a w1" "m w = (Inl x, w1) \<Longrightarrow> await m f w = (Inl x, w1)"
  by (simp_all add: await_def)

lemma await_step [simp]:
  "await (returning a) f w = f a w" "await (throwing x) f w = (Inl x, w)" "await (reading g) f w = f (g w) w"
  by (simp_all add: await_def)

lemma await_Inr:
  "await m f w = (Inr b, w') \<longleftrightarrow> (\<exists>a w1. m w = (Inr a, w1) \<and> f a w1 = (Inr b, w'))"
  by (auto simp: await_def split: prod.splits sum.splits)

lemma await_Inl:
  "await m f w = (Inl x, w') \<longleftrightarrow>
     m w = (Inl x, w') \<or> (\<exists>a w1. m w = (Inr a, w1) \<and> f a w1 = (Inl x, w'))"
  by (auto simp: await_def split: prod.splits sum.splits)

text \<open>
  \<open>triple p m q e\<close>: started where \<open>p\<close> holds, \<open>m\<close> ends with \<open>q\<close> of its value and the world when it is
  fulfilled and with \<open>e\<close> of its exception and the world when it is rejected.
\<close>

definition triple ::
    "('w \<Rightarrow> bool) \<Rightarrow> ('w, 'a) task \<Rightarrow> ('a \<Rightarrow> 'w \<Rightarrow> bool) \<Rightarrow> (exn \<Rightarrow> 'w \<Rightarrow> bool) \<Rightarrow> bool" where
  "triple p m q e \<longleftrightarrow>
     (\<forall>w. p w \<longrightarrow> (case m w of (Inl x, w') \<Rightarrow> e x w' | (Inr a, w') \<Rightarrow> q a w'))"

lemma tripleI:
  "(\<And>w a w'. p w \<Longrightarrow> m w = (Inr a, w') \<Longrightarrow> q a w') \<Longrightarrow>
   (\<And>w x w'. p w \<Longrightarrow> m w = (Inl x, w') \<Longrightarrow> e x w') \<Longrightarrow> triple p m q e"
  unfolding triple_def by (auto split: prod.splits sum.splits)

lemma triple_Inr: "triple p m q e \<Longrightarrow> p w \<Longrightarrow> m w = (Inr a, w') \<Longrightarrow> q a w'"
  unfolding triple_def by fastforce

lemma triple_Inl: "triple p m q e \<Longrightarrow> p w \<Longrightarrow> m w = (Inl x, w') \<Longrightarrow> e x w'"
  unfolding triple_def by fastforce

lemma triple_run:
  "triple p m q e \<Longrightarrow> p w \<Longrightarrow> m w = (r, w') \<Longrightarrow> (case r of Inl x \<Rightarrow> e x w' | Inr a \<Rightarrow> q a w')"
  unfolding triple_def by (cases r) fastforce+

lemma triple_await:
  "triple p m r e \<Longrightarrow> (\<And>a. triple (r a) (f a) q e) \<Longrightarrow> triple p (await m f) q e"
  unfolding triple_def await_def by (fastforce split: prod.splits sum.splits)

lemma triple_catching:
  "triple p m q e' \<Longrightarrow> (\<And>x. triple (e' x) (h x) q e) \<Longrightarrow> triple p (catching m h) q e"
  unfolding triple_def catching_def by (fastforce split: prod.splits sum.splits)

lemma triple_returning: "(\<And>w. p w \<Longrightarrow> q a w) \<Longrightarrow> triple p (returning a) q e"
  by (simp add: triple_def)

lemma triple_throwing: "(\<And>w. p w \<Longrightarrow> e x w) \<Longrightarrow> triple p (throwing x) q e"
  by (simp add: triple_def)

lemma triple_reading: "(\<And>w. p w \<Longrightarrow> q (g w) w) \<Longrightarrow> triple p (reading g) q e"
  by (simp add: triple_def)

lemma triple_weaken:
  "triple p' m q' e' \<Longrightarrow> (\<And>w. p w \<Longrightarrow> p' w) \<Longrightarrow> (\<And>a w. q' a w \<Longrightarrow> q a w) \<Longrightarrow>
   (\<And>x w. e' x w \<Longrightarrow> e x w) \<Longrightarrow> triple p m q e"
  unfolding triple_def by (fastforce split: prod.splits sum.splits)

text \<open>A task keeps a predicate of the world whichever way it ends.\<close>

definition keeps :: "('w \<Rightarrow> bool) \<Rightarrow> ('w, 'a) task \<Rightarrow> bool" where
  "keeps p m \<longleftrightarrow> triple p m (\<lambda>_. p) (\<lambda>_. p)"

lemma keepsI: "(\<And>w r w'. p w \<Longrightarrow> m w = (r, w') \<Longrightarrow> p w') \<Longrightarrow> keeps p m"
  unfolding keeps_def by (rule tripleI)

lemma keepsD: "keeps p m \<Longrightarrow> p w \<Longrightarrow> m w = (r, w') \<Longrightarrow> p w'"
  unfolding keeps_def by (cases r) (auto dest: triple_Inl triple_Inr)

lemma keeps_snd: "keeps p m \<Longrightarrow> p w \<Longrightarrow> p (snd (m w))"
  by (rule keepsD [OF _ _ surjective_pairing])

lemma keeps_basic [inv_intros]:
  "keeps p (returning a)" "keeps p (throwing x)" "keeps p (reading g)"
  unfolding keeps_def by (simp_all add: triple_def)

lemma keeps_await [inv_intros]:
  "keeps p m \<Longrightarrow> (\<And>a. keeps p (f a)) \<Longrightarrow> keeps p (await m f)"
  unfolding keeps_def by (rule triple_await)

lemma keeps_await_value:
  assumes "keeps p m" and "\<And>w a w'. m w = (Inr a, w') \<Longrightarrow> keeps p (f a)"
  shows "keeps p (await m f)"
proof (rule keepsI)
  fix w r w' assume w: "p w" and run: "await m f w = (r, w')"
  obtain q w1 where q: "m w = (q, w1)" by (metis prod.collapse)
  show "p w'"
  proof (cases q)
    case (Inl x)
    then show ?thesis using keepsD [OF assms(1) w q] run q by (simp add: await_def)
  next
    case (Inr a)
    then show ?thesis using keepsD [OF assms(2) keepsD [OF assms(1) w q]] run q by (simp add: await_def)
  qed
qed

lemma keeps_catching [inv_intros]:
  "keeps p m \<Longrightarrow> (\<And>x. keeps p (h x)) \<Longrightarrow> keeps p (catching m h)"
  unfolding keeps_def by (rule triple_catching)

lemma keeps_if [inv_intros]: "keeps p m \<Longrightarrow> keeps p n \<Longrightarrow> keeps p (if b then m else n)"
  by simp

text \<open>A task leaves a view of the world alone.\<close>

definition frames :: "('w \<Rightarrow> 'v) \<Rightarrow> ('w, 'a) task \<Rightarrow> bool" where
  "frames f m \<longleftrightarrow> (\<forall>w. f (snd (m w)) = f w)"

lemma framesD: "frames f m \<Longrightarrow> m w = (r, w') \<Longrightarrow> f w' = f w"
  unfolding frames_def by (metis snd_conv)

lemma frames_keeps: "frames f m \<Longrightarrow> (\<And>w w'. f w' = f w \<Longrightarrow> p w \<Longrightarrow> p w') \<Longrightarrow> keeps p m"
  by (rule keepsI) (metis framesD)

lemma frames_basic [inv_intros]:
  "frames f (returning a)" "frames f (throwing x)" "frames f (reading g)"
  by (simp_all add: frames_def)

lemma frames_await [inv_intros]:
  "frames f m \<Longrightarrow> (\<And>a. frames f (g a)) \<Longrightarrow> frames f (await m g)"
  unfolding frames_def await_def by (auto split: prod.splits sum.splits) (metis snd_conv)+

lemma frames_catching [inv_intros]:
  "frames f m \<Longrightarrow> (\<And>x. frames f (h x)) \<Longrightarrow> frames f (catching m h)"
  unfolding frames_def catching_def by (auto split: prod.splits sum.splits) (metis snd_conv)+

lemma cases_intros [inv_intros]:
  "keeps p m \<Longrightarrow> (\<And>a. keeps p (g a)) \<Longrightarrow> keeps p (case x of None \<Rightarrow> m | Some a \<Rightarrow> g a)"
  "frames f m \<Longrightarrow> (\<And>a. frames f (g a)) \<Longrightarrow> frames f (case x of None \<Rightarrow> m | Some a \<Rightarrow> g a)"
  by (cases x; simp)+

section \<open>Values that are made once\<close>

text \<open>
  A module-level variable that is filled on the first call and returned from then on. \<open>ask e\<close> is the
  function called in the circumstances \<open>e\<close>, over the state that holds the variable; \<open>usable\<close> are the
  circumstances in which what it makes counts as a value.
\<close>

fun ask_all :: "('e \<Rightarrow> ('c, 'a) task) \<Rightarrow> 'e list \<Rightarrow> 'c \<Rightarrow> 'a result list \<times> 'c" where
  "ask_all ask [] c = ([], c)"
| "ask_all ask (e # es) c =
     (case ask e c of (r, c1) \<Rightarrow> case ask_all ask es c1 of (rs, c2) \<Rightarrow> (r # rs, c2))"

locale kept_value =
  fixes kept :: "'c \<Rightarrow> 'a option"
    and usable :: "'e \<Rightarrow> bool"
    and ask :: "'e \<Rightarrow> ('c, 'a) task"
  assumes first_answer: "usable e \<Longrightarrow> ask e c = (Inr a, c') \<Longrightarrow> kept c' = Some a"
    and next_answers: "kept c = Some a \<Longrightarrow> ask e c = (Inr a, c)"
begin

lemma kept_answers: "kept c = Some a \<Longrightarrow> ask_all ask es c = (replicate (length es) (Inr a), c)"
  by (induction es) (simp_all add: next_answers)

lemma asked_again: "usable e \<Longrightarrow> ask e c = (Inr a, c') \<Longrightarrow> ask e' c' = (Inr a, c')"
  by (rule next_answers [OF first_answer])

text \<open>Whoever asks, and however often it failed before: all who get an answer get the same one.\<close>

lemma one_answer:
  "list_all usable es \<Longrightarrow> ask_all ask es c = (rs, c') \<Longrightarrow> Inr a \<in> set rs \<Longrightarrow> Inr b \<in> set rs \<Longrightarrow> a = b"
proof (induction es arbitrary: c rs)
  case (Cons e es)
  obtain r c1 rs1 where e: "ask e c = (r, c1)" "ask_all ask es c1 = (rs1, c')" "rs = r # rs1"
    using Cons.prems(2) by (auto split: prod.splits)
  show ?case
  proof (cases r)
    case (Inr v)
    then have "kept c1 = Some v" using first_answer [of e c v c1] Cons.prems(1) e(1) by simp
    from kept_answers [OF this, of es] e(2) have "set rs1 \<subseteq> {Inr v}" by (auto simp: in_set_replicate)
    with e(3) Inr Cons.prems(3,4) show ?thesis by auto
  qed (use Cons e in auto)
qed simp

end

section \<open>The process environment\<close>

text \<open>An environment is an association list; \<open>process.env.X\<close> is undefined when it is not there.\<close>

type_synonym process_env = "(string \<times> string) list"

text \<open>\<open>process.env.X\<close> as a condition: unset and empty count as false.\<close>

definition truthy_env :: "process_env \<Rightarrow> string \<Rightarrow> string option" where
  "truthy_env env x = (case map_of env x of None \<Rightarrow> None | Some s \<Rightarrow> if s = [] then None else Some s)"

section \<open>Arrays and strings\<close>

text \<open>Indexing: out of range is \<open>undefined\<close>, here \<open>None\<close>.\<close>

fun js_nth :: "'a list \<Rightarrow> nat \<Rightarrow> 'a option" where
  "js_nth [] _ = None"
| "js_nth (x # _) 0 = Some x"
| "js_nth (_ # xs) (Suc n) = js_nth xs n"

lemma js_nth_eq: "js_nth xs n = (if n < length xs then Some (xs ! n) else None)"
  by (induction xs n rule: js_nth.induct) auto

lemma js_nth_Some_iff: "js_nth xs n = Some x \<longleftrightarrow> n < length xs \<and> xs ! n = x"
  by (simp add: js_nth_eq)

lemma js_nth_numeral [simp]:
  "js_nth (x # xs) 1 = js_nth xs 0" "js_nth (x # xs) 2 = js_nth xs 1"
  by (simp_all add: numeral_2_eq_2)

text \<open>\<open>s.startsWith(p)\<close>.\<close>

abbreviation starts_with :: "string \<Rightarrow> string \<Rightarrow> bool" where
  "starts_with s p \<equiv> prefix p s"

text \<open>\<open>xs.join(sep)\<close>.\<close>

fun join :: "string \<Rightarrow> string list \<Rightarrow> string" where
  "join sep [] = []"
| "join sep [x] = x"
| "join sep (x # y # xs) = x @ sep @ join sep (y # xs)"

text \<open>\<open>xs.some(p)\<close>, \<open>xs.includes(x)\<close>, \<open>xs.find(p)\<close> are \<^const>\<open>list_ex\<close>,
  \<^const>\<open>List.member\<close> and \<^const>\<open>List.find\<close>.\<close>

lemma find_None_iff_none: "List.find P xs = None \<longleftrightarrow> (\<forall>x \<in> set xs. \<not> P x)"
  by (induction xs) auto

lemma find_Some_D: "List.find P xs = Some x \<Longrightarrow> x \<in> set xs \<and> P x"
  by (metis find_Some_iff nth_mem)

lemma find_Some_split:
  "List.find P xs = Some x \<longleftrightarrow>
     (\<exists>us vs. xs = us @ x # vs \<and> P x \<and> (\<forall>u \<in> set us. \<not> P u))"
proof
  show "List.find P xs = Some x \<Longrightarrow> \<exists>us vs. xs = us @ x # vs \<and> P x \<and> (\<forall>u \<in> set us. \<not> P u)"
  proof (induction xs)
    case (Cons y ys)
    show ?case
    proof (cases "P y")
      case True
      then have "y # ys = [] @ x # ys \<and> P x \<and> (\<forall>u \<in> set []. \<not> P u)" using Cons.prems by simp
      then show ?thesis by blast
    next
      case False
      then obtain us vs where "ys = us @ x # vs" "P x" "\<forall>u \<in> set us. \<not> P u"
        using Cons by auto
      then have "y # ys = (y # us) @ x # vs \<and> P x \<and> (\<forall>u \<in> set (y # us). \<not> P u)" using False by simp
      then show ?thesis by blast
    qed
  qed simp
next
  assume "\<exists>us vs. xs = us @ x # vs \<and> P x \<and> (\<forall>u \<in> set us. \<not> P u)"
  then obtain us vs where "xs = us @ x # vs" "P x" "\<forall>u \<in> set us. \<not> P u" by auto
  then show "List.find P xs = Some x" by (induction us arbitrary: xs) auto
qed

section \<open>Characters\<close>

definition char_code :: "char \<Rightarrow> nat" where
  "char_code c = of_char c"

definition is_digit :: "char \<Rightarrow> bool" where
  "is_digit c \<longleftrightarrow> 48 \<le> char_code c \<and> char_code c \<le> 57"

definition digit_val :: "char \<Rightarrow> nat" where
  "digit_val c = char_code c - 48"

definition digit_char :: "nat \<Rightarrow> char" where
  "digit_char d = char_of (48 + d)"

lemma char_code_less [simp]: "char_code c < 256"
  by (simp add: char_code_def)

lemma char_code_char_of: "n < 256 \<Longrightarrow> char_code (char_of n) = n"
  by (simp add: char_code_def of_char_of)

lemma char_code_inj: "char_code a = char_code b \<longleftrightarrow> a = b"
  by (simp add: char_code_def)

lemma digit_char_simps [simp]:
  "d < 10 \<Longrightarrow> is_digit (digit_char d)"
  "d < 10 \<Longrightarrow> digit_val (digit_char d) = d"
  by (simp_all add: is_digit_def digit_val_def digit_char_def char_code_char_of)

section \<open>Decimal output\<close>

text \<open>
  \<open>Number.prototype.toString\<close> and \<open>BigInt.prototype.toString\<close> of an integer: decimal digits,
  no leading zero. (A number of magnitude \<open>10^21\<close> or more would print with an exponent; the
  safe integers of the relay's messages and settings are far below.)
\<close>

fun nat_to_string :: "nat \<Rightarrow> string" where
  "nat_to_string n =
     (if n < 10 then [digit_char n] else nat_to_string (n div 10) @ [digit_char (n mod 10)])"

declare nat_to_string.simps [simp del]

definition int_to_string :: "int \<Rightarrow> string" where
  "int_to_string i = (if i < 0 then CHR ''-'' # nat_to_string (nat (- i)) else nat_to_string (nat i))"

definition dec_value :: "string \<Rightarrow> nat" where
  "dec_value ds = foldl (\<lambda>n c. 10 * n + digit_val c) 0 ds"

lemma dec_value_snoc [simp]: "dec_value (ds @ [c]) = 10 * dec_value ds + digit_val c"
  by (simp add: dec_value_def)

lemma dec_value_Nil [simp]: "dec_value [] = 0"
  by (simp add: dec_value_def)

lemma nat_to_string_digits: "list_all is_digit (nat_to_string n)"
proof (induction n rule: nat_to_string.induct)
  case (1 n)
  then show ?case by (subst nat_to_string.simps) auto
qed

lemma nat_to_string_nonempty [simp]: "nat_to_string n \<noteq> []"
  by (subst nat_to_string.simps) simp

lemma dec_value_nat_to_string [simp]: "dec_value (nat_to_string n) = n"
proof (induction n rule: nat_to_string.induct)
  case (1 n)
  show ?case
  proof (cases "n < 10")
    case True
    then show ?thesis
      using dec_value_snoc [of "[]" "digit_char n"] by (subst nat_to_string.simps) simp
  next
    case False
    with "1.IH" show ?thesis by (subst nat_to_string.simps) simp
  qed
qed

lemma nat_to_string_inj: "nat_to_string m = nat_to_string n \<longleftrightarrow> m = n"
  by (metis dec_value_nat_to_string)

lemma is_digit_not:
  "\<not> is_digit (CHR ''-'')" "\<not> is_digit (CHR '','')" "\<not> is_digit (CHR '':'')"
  "\<not> is_digit (CHR '']'')" "\<not> is_digit (CHR 0x22)"
  by (simp_all add: is_digit_def char_code_def)

lemma nat_to_string_hd_digit: "nat_to_string n = c # cs \<Longrightarrow> is_digit c"
  using nat_to_string_digits [of n] by (cases "nat_to_string n") auto

lemma int_to_string_inj: "int_to_string i = int_to_string j \<longleftrightarrow> i = j"
proof
  assume eq: "int_to_string i = int_to_string j"
  have neg: "CHR ''-'' # s \<noteq> nat_to_string n" for s n
    using nat_to_string_hd_digit [of n "CHR ''-''" s] is_digit_not(1) by metis
  show "i = j"
    using eq neg neg [symmetric]
    by (auto simp: int_to_string_def nat_to_string_inj split: if_splits)
qed simp

end
