(* ===== verification/Nostr_Types.thy ===== *)
theory Nostr_Types
  imports Prelude
begin

text \<open>
  The data of the relay: events and their tags (\<open>src/@types/event.ts\<close>, \<open>base.ts\<close>), the
  enumerations of \<open>src/constants/base.ts\<close>, subscription filters (\<open>subscription.ts\<close>), the
  messages exchanged with clients (\<open>messages.ts\<close>, \<open>src/utils/messages.ts\<close>) and the settings the
  modelled code reads (\<open>settings.ts\<close>). An optional property is an \<open>option\<close>; integers of the
  protocol and the settings are \<^typ>\<open>int\<close>, as are the \<open>bigint\<close> balances and amounts.
\<close>

section \<open>Events\<close>

type_synonym tag = "string list"

text \<open>
  The last three fields are the properties the relay attaches under the symbols
  \<open>ContextMetadataKey\<close> (the client's address), \<open>EventExpirationTimeMetadataKey\<close> and
  \<open>EventDeduplicationMetadataKey\<close>; \<open>JSON.stringify\<close> does not print them.
\<close>

record nostr_event =
  ev_id :: string
  ev_pubkey :: string
  ev_created_at :: int
  ev_kind :: int
  ev_tags :: "tag list"
  ev_sig :: string
  ev_content :: string
  ev_context :: "string option"
  ev_expiration :: "int option"
  ev_dedup :: "string list option"

datatype event_kinds =
    SET_METADATA | TEXT_NOTE | RECOMMEND_SERVER | CONTACT_LIST | ENCRYPTED_DIRECT_MESSAGE
  | DELETE | REPOST | REACTION | CHANNEL_CREATION | CHANNEL_METADATA | CHANNEL_MESSAGE
  | CHANNEL_HIDE_MESSAGE | CHANNEL_MUTE_USER | CHANNEL_RESERVED_FIRST | CHANNEL_RESERVED_LAST
  | RELAY_INVITE | INVOICE_UPDATE | ZAP_REQUEST | ZAP_RECEIPT | REPLACEABLE_FIRST
  | REPLACEABLE_LAST | EPHEMERAL_FIRST | AUTH_KIND | EPHEMERAL_LAST
  | PARAMETERIZED_REPLACEABLE_FIRST | PARAMETERIZED_REPLACEABLE_LAST | USER_APPLICATION_FIRST

fun kind_number :: "event_kinds \<Rightarrow> int" where
  "kind_number SET_METADATA = 0"
| "kind_number TEXT_NOTE = 1"
| "kind_number RECOMMEND_SERVER = 2"
| "kind_number CONTACT_LIST = 3"
| "kind_number ENCRYPTED_DIRECT_MESSAGE = 4"
| "kind_number DELETE = 5"
| "kind_number REPOST = 6"
| "kind_number REACTION = 7"
| "kind_number CHANNEL_CREATION = 40"
| "kind_number CHANNEL_METADATA = 41"
| "kind_number CHANNEL_MESSAGE = 42"
| "kind_number CHANNEL_HIDE_MESSAGE = 43"
| "kind_number CHANNEL_MUTE_USER = 44"
| "kind_number CHANNEL_RESERVED_FIRST = 45"
| "kind_number CHANNEL_RESERVED_LAST = 49"
| "kind_number RELAY_INVITE = 50"
| "kind_number INVOICE_UPDATE = 402"
| "kind_number ZAP_REQUEST = 9734"
| "kind_number ZAP_RECEIPT = 9735"
| "kind_number REPLACEABLE_FIRST = 10000"
| "kind_number REPLACEABLE_LAST = 19999"
| "kind_number EPHEMERAL_FIRST = 20000"
| "kind_number AUTH_KIND = 22242"
| "kind_number EPHEMERAL_LAST = 29999"
| "kind_number PARAMETERIZED_REPLACEABLE_FIRST = 30000"
| "kind_number PARAMETERIZED_REPLACEABLE_LAST = 39999"
| "kind_number USER_APPLICATION_FIRST = 40000"

datatype event_tags =
  EventTag | PubkeyTag | DeduplicationTag | ExpirationTag | InvoiceTag | RelayTag | ChallengeTag

fun tag_name :: "event_tags \<Rightarrow> string" where
  "tag_name EventTag = ''e''"
| "tag_name PubkeyTag = ''p''"
| "tag_name DeduplicationTag = ''d''"
| "tag_name ExpirationTag = ''expiration''"
| "tag_name InvoiceTag = ''bolt11''"
| "tag_name RelayTag = ''relay''"
| "tag_name ChallengeTag = ''challenge''"

section \<open>Subscription filters\<close>

text \<open>
  \<open>f_entries\<close> holds the entries of the filter object under its other keys (the index signature
  \<open>[key: `#${string}`]: string[]\<close>), in insertion order; \<open>None\<close> stands for a value that is not an
  array.
\<close>

record subscription_filter =
  f_ids :: "string list option"
  f_kinds :: "int list option"
  f_since :: "int option"
  f_until :: "int option"
  f_authors :: "string list option"
  f_limit :: "int option"
  f_entries :: "(string \<times> string list option) list"

definition empty_filter :: subscription_filter where
  "empty_filter = \<lparr>f_ids = None, f_kinds = None, f_since = None, f_until = None,
     f_authors = None, f_limit = None, f_entries = []\<rparr>"

section \<open>Messages\<close>

datatype incoming_body =
    InEvent nostr_event
  | InReq string "subscription_filter list"
  | InAuth nostr_event
  | InClose string
  | InUnknown string

text \<open>\<open>msg_context\<close> is the \<open>ContextMetadataKey\<close> property (the client's remote address).\<close>

record incoming_message =
  msg_body :: incoming_body
  msg_context :: "string option"

datatype outgoing_message =
    OutEvent string nostr_event
  | OutAuth string
  | OutEose string
  | OutNotice string
  | OutOk string bool string

definition createNoticeMessage :: "string \<Rightarrow> outgoing_message" where
  "createNoticeMessage notice = OutNotice notice"

definition createOutgoingEventMessage :: "string \<Rightarrow> nostr_event \<Rightarrow> outgoing_message" where
  "createOutgoingEventMessage subscriptionId e = OutEvent subscriptionId e"

definition createEndOfStoredEventsNoticeMessage :: "string \<Rightarrow> outgoing_message" where
  "createEndOfStoredEventsNoticeMessage subscriptionId = OutEose subscriptionId"

definition createCommandResult :: "string \<Rightarrow> bool \<Rightarrow> string \<Rightarrow> outgoing_message" where
  "createCommandResult eventId successful message = OutOk eventId successful message"

definition createAuthMessage :: "string \<Rightarrow> outgoing_message" where
  "createAuthMessage challenge = OutAuth challenge"

lemmas message_constructors [reply_simps] =
  createNoticeMessage_def createOutgoingEventMessage_def
  createEndOfStoredEventsNoticeMessage_def createCommandResult_def createAuthMessage_def

text \<open>Messages the relay sends to the relays it mirrors; the secret is printed only when it is
  not empty.\<close>

datatype relayed_message =
    RelayReq string "subscription_filter list"
  | RelayEvent nostr_event
  | RelayEventSecret nostr_event string

definition createSubscriptionMessage ::
    "string \<Rightarrow> subscription_filter list \<Rightarrow> relayed_message" where
  "createSubscriptionMessage subscriptionId filters = RelayReq subscriptionId filters"

definition createRelayedEventMessage :: "nostr_event \<Rightarrow> string option \<Rightarrow> relayed_message" where
  "createRelayedEventMessage e secret =
     (case secret of
        None \<Rightarrow> RelayEvent e
      | Some s \<Rightarrow> if s = [] then RelayEvent e else RelayEventSecret e s)"

section \<open>Settings\<close>

text \<open>\<open>EventKinds | EventKindsRange\<close>: a kind or an inclusive range of kinds.\<close>

datatype kind_item = Kind int | KindRange int int

record content_limits =
  cl_kinds :: "kind_item list option"
  cl_maxLength :: "int option"

text \<open>\<open>content?: ContentLimits | ContentLimits[]\<close>.\<close>

datatype content_setting = ContentLimit content_limits | ContentLimitList "content_limits list"

record created_at_limits =
  ca_maxNegativeDelta :: "int option"
  ca_maxPositiveDelta :: "int option"

record pubkey_limits =
  pl_minBalance :: "int option"
  pl_minLeadingZeroBits :: "int option"
  pl_whitelist :: "string list option"
  pl_blacklist :: "string list option"

record kind_limits =
  kl_whitelist :: "kind_item list option"
  kl_blacklist :: "kind_item list option"

record rate_limit =
  rl_period :: int
  rl_rate :: int

record event_rate_limit = rate_limit +
  rl_kinds :: "kind_item list option"

record event_whitelists =
  ew_pubkeys :: "string list option"
  ew_ipAddresses :: "string list option"

text \<open>\<open>el_eventId\<close> is \<open>eventId?: { minLeadingZeroBits?: number }\<close>.\<close>

record event_limits =
  el_eventId :: "int option option"
  el_pubkey :: "pubkey_limits option"
  el_kind :: "kind_limits option"
  el_createdAt :: "created_at_limits option"
  el_content :: "content_setting option"
  el_rateLimits :: "event_rate_limit list option"
  el_whitelists :: "event_whitelists option"

definition empty_event_limits :: event_limits where
  "empty_event_limits = \<lparr>el_eventId = None, el_pubkey = None, el_kind = None, el_createdAt = None,
     el_content = None, el_rateLimits = None, el_whitelists = None\<rparr>"

record client_subscription_limits =
  cs_maxSubscriptions :: "int option"
  cs_maxFilters :: "int option"
  cs_maxFilterValues :: "int option"
  cs_maxLimit :: "int option"
  cs_minPrefixLength :: "int option"
  cs_maxSubscriptionIdLength :: "int option"

text \<open>\<open>RateLimit[]\<close> with an address white list: the message, connection, invoice and
  admission-check limits.\<close>

record address_limits =
  al_rateLimits :: "rate_limit list option"
  al_ipWhitelist :: "string list option"

text \<open>\<open>lm_client_subscription\<close> is \<open>client?.subscription\<close>.\<close>

record relay_limits =
  lm_invoice :: "address_limits option"
  lm_admissionCheck :: "address_limits option"
  lm_connection :: "address_limits option"
  lm_client_subscription :: "client_subscription_limits option"
  lm_event :: "event_limits option"
  lm_message :: "address_limits option"

record fee_whitelists =
  fw_pubkeys :: "string list option"
  fw_event_kinds :: "kind_item list option"

record fee_schedule =
  fs_enabled :: bool
  fs_amount :: int
  fs_whitelists :: "fee_whitelists option"

text \<open>\<open>pay_admission\<close> and \<open>pay_publication\<close> are the properties of \<open>feeSchedules\<close>.\<close>

record payments_settings =
  pay_enabled :: bool
  pay_processor :: string
  pay_admission :: "fee_schedule list option"
  pay_publication :: "fee_schedule list option"

text \<open>
  \<open>nw_remote_ip_header\<close> is the deprecated property: \<open>None\<close> when the key is absent, \<open>Some None\<close> when
  it has no value; \<open>nw_max_payload_size\<close> is the other deprecated one, when it is a string.
\<close>

record network_settings =
  nw_maxPayloadSize :: "int option"
  nw_max_payload_size :: "string option"
  nw_remoteIpHeader :: "string option"
  nw_remote_ip_header :: "string option option"

text \<open>\<open>mi_limits\<close> is \<open>limits?: { event?: EventLimits }\<close>.\<close>

record mirror =
  mi_address :: string
  mi_filters :: "subscription_filter list option"
  mi_secret :: "string option"
  mi_limits :: "event_limits option option"
  mi_skipAdmissionCheck :: "bool option"

text \<open>
  \<open>st_requireAdmission\<close> is \<open>authorization?.requireAdmission\<close>, \<open>st_zebedee_ipWhitelist\<close> is
  \<open>paymentsProcessors?.zebedee?.ipWhitelist\<close>, \<open>st_mirrors\<close> is \<open>mirroring?.static\<close>, \<open>st_workers\<close>
  is \<open>workers?.count\<close>.
\<close>

record relay_settings =
  st_authentication_enabled :: bool
  st_requireAdmission :: bool
  st_relay_url :: string
  st_name :: string
  st_description :: string
  st_pubkey :: string
  st_contact :: string
  st_payments :: "payments_settings option"
  st_zebedee_ipWhitelist :: "string list option"
  st_network :: network_settings
  st_workers :: "nat option"
  st_mirrors :: "mirror list option"
  st_limits :: "relay_limits option"

definition plain_settings :: relay_settings where
  "plain_settings = \<lparr>st_authentication_enabled = False, st_requireAdmission = False,
     st_relay_url = ''wss://relay.example'', st_name = ''relay'',
     st_description = ''a relay'', st_pubkey = ''npub1relay'', st_contact = ''mailto:operator@relay.example'',
     st_payments = None,
     st_zebedee_ipWhitelist = None,
     st_network = \<lparr>nw_maxPayloadSize = Some 524288, nw_max_payload_size = None, nw_remoteIpHeader = None, nw_remote_ip_header = None\<rparr>,
     st_workers = None, st_mirrors = None, st_limits = None\<rparr>"

text \<open>\<open>settings().limits?.event ?? {}\<close>, the expression several components read.\<close>

definition event_limits_of :: "relay_settings \<Rightarrow> event_limits" where
  "event_limits_of st =
     (case st_limits st of
        None \<Rightarrow> empty_event_limits
      | Some l \<Rightarrow> (case lm_event l of None \<Rightarrow> empty_event_limits | Some el \<Rightarrow> el))"

section \<open>Users\<close>

record user =
  usr_pubkey :: string
  usr_isAdmitted :: bool
  usr_balance :: int
  usr_tosAcceptedAt :: "int option"
  usr_createdAt :: int
  usr_updatedAt :: int

end
