(* ===== verification/Buffers.thy ===== *)
theory Buffers
  imports Nostr_Types
begin

text \<open>
  Node's \<open>Buffer\<close> as the relay uses it: \<open>Buffer.from(s, 'hex')\<close> and \<open>b.toString('hex')\<close>
  (\<open>toBuffer\<close> and \<open>fromBuffer\<close> of \<open>src/utils/transform.ts\<close>), and the proof-of-work measure of
  \<open>src/utils/proof-of-work.ts\<close>. A byte is an \<open>8 word\<close>.
\<close>

section \<open>Hexadecimal strings\<close>

type_synonym buffer = "8 word list"

definition hex_val :: "char \<Rightarrow> nat option" where
  "hex_val c =
     (let n = char_code c in
      if 48 \<le> n \<and> n \<le> 57 then Some (n - 48)
      else if 97 \<le> n \<and> n \<le> 102 then Some (n - 87)
      else if 65 \<le> n \<and> n \<le> 70 then Some (n - 55)
      else None)"

text \<open>Decoding stops at the first pair that is not hexadecimal; an odd last digit is dropped.\<close>

fun toBuffer :: "string \<Rightarrow> buffer" where
  "toBuffer (a # b # s) =
     (case hex_val a of
        None \<Rightarrow> []
      | Some x \<Rightarrow>
          (case hex_val b of
             None \<Rightarrow> []
           | Some y \<Rightarrow> word_of_nat (16 * x + y) # toBuffer s))"
| "toBuffer _ = []"

definition hex_char :: "nat \<Rightarrow> char" where
  "hex_char d = (if d < 10 then char_of (48 + d) else char_of (87 + d))"

fun fromBuffer :: "buffer \<Rightarrow> string" where
  "fromBuffer [] = []"
| "fromBuffer (w # ws) = hex_char (unat w div 16) # hex_char (unat w mod 16) # fromBuffer ws"

definition is_lower_hex_char :: "char \<Rightarrow> bool" where
  "is_lower_hex_char c \<longleftrightarrow>
     (48 \<le> char_code c \<and> char_code c \<le> 57) \<or> (97 \<le> char_code c \<and> char_code c \<le> 102)"

text \<open>\<open>/^[0-9a-f]{n}$/\<close>.\<close>

definition is_lower_hex :: "nat \<Rightarrow> string \<Rightarrow> bool" where
  "is_lower_hex n s \<longleftrightarrow> length s = n \<and> list_all is_lower_hex_char s"

lemma hex_val_less: "hex_val c = Some x \<Longrightarrow> x < 16"
  by (auto simp: hex_val_def Let_def split: if_splits)

lemma hex_val_lower: "is_lower_hex_char c \<Longrightarrow> \<exists>x < 16. hex_val c = Some x \<and> hex_char x = c"
proof -
  assume c: "is_lower_hex_char c"
  have char: "char_of (char_code c) = c" by (simp add: char_code_def)
  show ?thesis
  proof (cases "char_code c \<le> 57")
    case True
    with c have "hex_val c = Some (char_code c - 48)" "48 \<le> char_code c"
      by (auto simp: is_lower_hex_char_def hex_val_def)
    with True char show ?thesis by (auto simp: hex_char_def)
  next
    case False
    with c have r: "hex_val c = Some (char_code c - 87)" "97 \<le> char_code c" "char_code c \<le> 102"
      by (auto simp: is_lower_hex_char_def hex_val_def)
    then have "\<not> char_code c - 87 < 10" "87 + (char_code c - 87) = char_code c" by linarith+
    then have "hex_char (char_code c - 87) = c" using char by (simp only: hex_char_def if_False)
    with r show ?thesis by (intro exI [of _ "char_code c - 87"]) auto
  qed
qed

lemma hex_val_hex_char [simp]: "d < 16 \<Longrightarrow> hex_val (hex_char d) = Some d"
  by (auto simp: hex_val_def hex_char_def char_code_char_of Let_def)

lemma is_lower_hex_char_hex_char [simp]: "d < 16 \<Longrightarrow> is_lower_hex_char (hex_char d)"
  by (auto simp: is_lower_hex_char_def hex_char_def char_code_char_of)

lemma hex_char_inj: "x < 16 \<Longrightarrow> y < 16 \<Longrightarrow> hex_char x = hex_char y \<longleftrightarrow> x = y"
  by (metis hex_val_hex_char option.inject)

lemma byte_less [simp]: "unat (w :: 8 word) < 256"
  using unsigned_less [of w] by simp

lemma unat_div_16 [simp]: "unat (w :: 8 word) div 16 < 16"
  using byte_less [of w] by linarith

lemma unat_half [simp]: "unat (drop_bit 1 (w :: 8 word)) = unat w div 2"
proof -
  have "unat (drop_bit 1 w) = drop_bit 1 (unat w)" by (rule unat_drop_bit_eq)
  then show ?thesis by (simp only: drop_bit_eq_div power_one_right)
qed

lemma unat_byte_of_nat: "n < 256 \<Longrightarrow> unat (word_of_nat n :: 8 word) = n"
  by (simp only: unat_of_nat) simp

lemma toBuffer_fromBuffer [simp]: "toBuffer (fromBuffer b) = b"
  by (induction b) simp_all

lemma length_fromBuffer [simp]: "length (fromBuffer b) = 2 * length b"
  by (induction b) simp_all

lemma fromBuffer_lower_hex: "is_lower_hex (2 * length b) (fromBuffer b)"
  by (induction b) (auto simp: is_lower_hex_def)

lemma byte_of_nibbles:
  "x < 16 \<Longrightarrow> y < 16 \<Longrightarrow>
     unat (word_of_nat (16 * x + y) :: 8 word) div 16 = x \<and>
     unat (word_of_nat (16 * x + y) :: 8 word) mod 16 = y"
proof -
  assume "x < 16" "y < 16"
  then have "unat (word_of_nat (16 * x + y) :: 8 word) = 16 * x + y"
    by (intro unat_byte_of_nat) simp
  then show ?thesis using \<open>y < 16\<close> by simp
qed

lemma fromBuffer_toBuffer:
  "list_all is_lower_hex_char s \<Longrightarrow> even (length s) \<Longrightarrow> fromBuffer (toBuffer s) = s"
proof (induction s rule: toBuffer.induct)
  case (1 a b s)
  then obtain x y where xy: "hex_val a = Some x" "hex_char x = a" "x < 16"
      "hex_val b = Some y" "hex_char y = b" "y < 16"
    using hex_val_lower [of a] hex_val_lower [of b] by auto
  with 1 show ?case using byte_of_nibbles [of x y] by simp
qed auto

lemma fromBuffer_inj: "fromBuffer a = fromBuffer b \<longleftrightarrow> a = b"
  by (metis toBuffer_fromBuffer)

lemma toBuffer_inj_hex:
  "is_lower_hex n s \<Longrightarrow> is_lower_hex n t \<Longrightarrow> even n \<Longrightarrow> toBuffer s = toBuffer t \<longleftrightarrow> s = t"
  by (metis fromBuffer_toBuffer is_lower_hex_def)

lemma length_toBuffer_hex:
  "list_all is_lower_hex_char s \<Longrightarrow> length (toBuffer s) = length s div 2"
proof (induction s rule: toBuffer.induct)
  case (1 a b s)
  then obtain x y where "hex_val a = Some x" "hex_val b = Some y"
    using hex_val_lower [of a] hex_val_lower [of b] by auto
  with 1 show ?case by simp
qed auto

section \<open>Proof of work\<close>

text \<open>\<open>while (b >>= 1) { n++ }\<close>.\<close>

function msb_loop :: "8 word \<Rightarrow> nat \<Rightarrow> nat" where
  "msb_loop b n = (let b' = drop_bit 1 b in if b' = 0 then n else msb_loop b' (n + 1))"
  by pat_completeness auto
termination
proof (relation "measure (\<lambda>(b, n). unat b)")
  show "wf (measure (\<lambda>(b :: 8 word, n :: nat). unat b))" by simp
next
  fix b b' :: "8 word" and n :: nat
  assume "b' = drop_bit 1 b" "b' \<noteq> 0"
  then have "unat b' = unat b div 2" "unat b' \<noteq> 0"
    using unat_half [of b] unat_eq_zero [of b'] by auto
  then show "((b', n + 1), (b, n)) \<in> measure (\<lambda>(b, n). unat b)" by simp
qed

declare msb_loop.simps [simp del]

definition msb :: "8 word \<Rightarrow> nat" where
  "msb b = (if b = 0 then 8 else 7 - msb_loop b 0)"

text \<open>The loop over the bytes: add \<open>msb\<close> of each byte and stop after the first that is not 8.\<close>

fun leading_zero_bits_loop :: "buffer \<Rightarrow> nat \<Rightarrow> nat" where
  "leading_zero_bits_loop [] acc = acc"
| "leading_zero_bits_loop (b # bs) acc =
     (let bits = msb b in
      if bits \<noteq> 8 then acc + bits else leading_zero_bits_loop bs (acc + bits))"

definition getLeadingZeroBits :: "buffer \<Rightarrow> nat" where
  "getLeadingZeroBits hash = leading_zero_bits_loop hash 0"

text \<open>The number the buffer spells, most significant byte first.\<close>

fun be_value :: "buffer \<Rightarrow> nat" where
  "be_value [] = 0"
| "be_value (b # bs) = unat b * 256 ^ length bs + be_value bs"

lemma be_value_less: "be_value bs < 256 ^ length bs"
proof (induction bs)
  case Nil
  then show ?case by simp
next
  case (Cons b bs)
  have "unat b * 256 ^ length bs + be_value bs < (unat b + 1) * 256 ^ length bs"
    using Cons.IH by simp
  also have "\<dots> \<le> 256 * 256 ^ length bs"
    using byte_less [of b] by (intro mult_le_mono1) linarith
  finally show ?case by simp
qed

lemma msb_loop_log2:
  "b \<noteq> 0 \<Longrightarrow> \<exists>k. msb_loop b n = n + k \<and> 2 ^ k \<le> unat b \<and> unat b < 2 ^ Suc k"
proof (induction b n rule: msb_loop.induct)
  case (1 b n)
  have half: "unat (drop_bit 1 b) = unat b div 2" by (rule unat_half)
  show ?case
  proof (cases "drop_bit 1 b = 0")
    case True
    then have "unat b div 2 = 0" using half by simp
    moreover have "unat b \<noteq> 0" using "1.prems" by (simp add: unat_eq_0)
    ultimately show ?thesis
      using True by (subst msb_loop.simps) (auto intro!: exI [of _ 0])
  next
    case False
    then obtain k where k: "msb_loop (drop_bit 1 b) (n + 1) = n + 1 + k"
        "2 ^ k \<le> unat b div 2" "unat b div 2 < 2 ^ Suc k"
      using "1.IH" [OF refl] half by auto
    then have "2 ^ Suc k \<le> unat b" "unat b < 2 ^ Suc (Suc k)" by simp_all
    then show ?thesis
      using False k(1) by (subst msb_loop.simps) (auto intro!: exI [of _ "Suc k"])
  qed
qed

lemma msb_range: "msb b \<le> 8" "msb b = 8 \<longleftrightarrow> b = 0"
  by (auto simp: msb_def)

lemma msb_bounds:
  assumes "b \<noteq> 0"
  shows "2 ^ (7 - msb b) \<le> unat b" "unat b < 2 ^ (8 - msb b)"
proof -
  obtain k where k: "msb_loop b 0 = k" "2 ^ k \<le> unat b" "unat b < 2 ^ Suc k"
    using msb_loop_log2 [OF assms, of 0] by auto
  have "unat b < 2 ^ 8" using byte_less [of b] by simp
  with k(2) have "(2::nat) ^ k < 2 ^ 8" by (rule le_less_trans)
  then have "k < 8" by (simp only: power_strict_increasing_iff)
  then have "7 - msb b = k" "8 - msb b = Suc k" using assms k(1) by (auto simp: msb_def)
  with k show "2 ^ (7 - msb b) \<le> unat b" "unat b < 2 ^ (8 - msb b)" by simp_all
qed

lemma leading_zero_bits_loop_acc:
  "leading_zero_bits_loop bs acc = acc + leading_zero_bits_loop bs 0"
proof (induction bs arbitrary: acc)
  case Nil
  then show ?case by simp
next
  case (Cons b bs)
  show ?case
    using Cons.IH [of "acc + msb b"] Cons.IH [of "msb b"] by (cases "msb b = 8") (auto simp: Let_def)
qed

lemma getLeadingZeroBits_simps:
  "getLeadingZeroBits [] = 0"
  "getLeadingZeroBits (b # bs) =
     (if b = 0 then 8 + getLeadingZeroBits bs else msb b)"
  using leading_zero_bits_loop_acc [of bs 8] msb_range(2) [of b]
  by (simp_all add: getLeadingZeroBits_def msb_def Let_def)

lemma getLeadingZeroBits_le: "getLeadingZeroBits bs \<le> 8 * length bs"
proof (induction bs)
  case (Cons b bs)
  then show ?case using msb_range(1) [of b] by (simp add: getLeadingZeroBits_simps)
qed (simp add: getLeadingZeroBits_simps)

lemma leading_bits_value_first:
  assumes "b \<noteq> 0" and "d \<le> 8 * Suc (length bs)"
  shows "d \<le> msb b \<longleftrightarrow> be_value (b # bs) < 2 ^ (8 * Suc (length bs) - d)"
proof -
  let ?m = "length bs"
  have pow: "(256 :: nat) ^ ?m = 2 ^ (8 * ?m)" by (simp add: power_mult)
  show ?thesis
  proof (cases "d \<le> msb b")
    case True
    have "be_value (b # bs) < Suc (unat b) * 2 ^ (8 * ?m)"
      using be_value_less [of bs] pow by simp
    also have "\<dots> \<le> 2 ^ (8 - msb b) * 2 ^ (8 * ?m)"
      using msb_bounds(2) [OF assms(1)] by (intro mult_le_mono1) simp
    also have "\<dots> = 2 ^ (8 * Suc ?m - msb b)"
      using msb_range(1) [of b] by (simp add: power_add [symmetric])
    also have "\<dots> \<le> 2 ^ (8 * Suc ?m - d)" using True by (intro power_increasing) auto
    finally show ?thesis using True by simp
  next
    case False
    have small: "msb b < 8" using msb_range assms(1) by (metis le_neq_implies_less)
    have "(2::nat) ^ (8 * Suc ?m - d) \<le> 2 ^ (7 - msb b + 8 * ?m)"
      using False small by (intro power_increasing) auto
    also have "\<dots> = 2 ^ (7 - msb b) * 2 ^ (8 * ?m)" by (simp add: power_add)
    also have "\<dots> \<le> be_value (b # bs)"
      using msb_bounds(1) [OF assms(1)] pow by (simp add: trans_le_add1)
    finally show ?thesis using False by simp
  qed
qed

lemma leading_bits_value:
  "d \<le> 8 * length bs \<Longrightarrow>
     d \<le> getLeadingZeroBits bs \<longleftrightarrow> be_value bs < 2 ^ (8 * length bs - d)"
proof (induction bs arbitrary: d)
  case Nil
  then show ?case by (simp add: getLeadingZeroBits_simps)
next
  case (Cons b bs)
  show ?case
  proof (cases "b = 0")
    case False
    then show ?thesis
      using leading_bits_value_first [OF False, of d bs] Cons.prems
      by (simp add: getLeadingZeroBits_simps)
  next
    case True
    show ?thesis
    proof (cases "d \<le> 8")
      case True
      have "be_value bs < 2 ^ (8 * length bs)"
        using be_value_less [of bs] by (simp add: power_mult)
      also have "\<dots> \<le> 2 ^ (8 * length (b # bs) - d)" using True by (intro power_increasing) auto
      finally show ?thesis using True \<open>b = 0\<close> by (simp add: getLeadingZeroBits_simps)
    next
      case False
      then have "d - 8 \<le> getLeadingZeroBits bs \<longleftrightarrow> be_value bs < 2 ^ (8 * length bs - (d - 8))"
        using Cons.IH [of "d - 8"] Cons.prems by simp
      moreover have "8 * length bs - (d - 8) = 8 * length (b # bs) - d" using False by simp
      moreover have "d - 8 \<le> getLeadingZeroBits bs \<longleftrightarrow> d \<le> getLeadingZeroBits (b # bs)"
        using False \<open>b = 0\<close> by (auto simp: getLeadingZeroBits_simps)
      ultimately show ?thesis using \<open>b = 0\<close> by simp
    qed
  qed
qed

end
