(* ===== verification/Js_Number.thy ===== *)
theory Js_Number
  imports Prelude
begin

text \<open>
  The part of JavaScript's numbers the relay relies on when it reads a number from a string:
  \<open>Number(s)\<close> (\<open>getEventExpiration\<close>, the rate limiter, the Redis adapter), with the rounding to
  the nearest double, \<open>Number.isSafeInteger\<close>, and \<open>Number.parseInt\<close>. A decimal literal is kept
  as an exact fraction; \<open>double_integer\<close> rounds it to a double (53 significant bits, ties to
  even) and answers with its value when that is an integer, which is all the callers look at.
\<close>

section \<open>StringToNumber\<close>

datatype js_number =
    JNaN
  | JInfinity
  | JFraction (jn_negative: bool) (jn_num: nat) (jn_den: nat)

text \<open>White space and line terminators (the Latin-1 ones).\<close>

definition is_js_space :: "char \<Rightarrow> bool" where
  "is_js_space c \<longleftrightarrow> (9 \<le> char_code c \<and> char_code c \<le> 13) \<or> char_code c = 32 \<or> char_code c = 160"

definition js_trim :: "string \<Rightarrow> string" where
  "js_trim s = rev (dropWhile is_js_space (rev (dropWhile is_js_space s)))"

text \<open>\<open>ExponentPart\<close>, or nothing; \<open>None\<close> when the rest of the literal is malformed.\<close>

definition exponent_digits :: "string \<Rightarrow> nat option" where
  "exponent_digits ds = (if ds \<noteq> [] \<and> list_all is_digit ds then Some (dec_value ds) else None)"

fun exponent_part :: "string \<Rightarrow> int option" where
  "exponent_part [] = Some 0"
| "exponent_part (c # s) =
     (if c = CHR ''e'' \<or> c = CHR ''E'' then
        (case s of
           [] \<Rightarrow> None
         | d # t \<Rightarrow>
             if d = CHR ''-'' then map_option (\<lambda>n. - int n) (exponent_digits t)
             else if d = CHR ''+'' then map_option int (exponent_digits t)
             else map_option int (exponent_digits (d # t)))
      else None)"

text \<open>\<open>fraction_of neg m e\<close> is the exact value \<open>m * 10^e\<close>.\<close>

definition fraction_of :: "bool \<Rightarrow> nat \<Rightarrow> int \<Rightarrow> js_number" where
  "fraction_of neg m e =
     (if 0 \<le> e then JFraction neg (m * 10 ^ nat e) 1 else JFraction neg m (10 ^ nat (- e)))"

definition unsigned_decimal :: "bool \<Rightarrow> string \<Rightarrow> js_number" where
  "unsigned_decimal neg s =
     (if s = ''Infinity'' then JInfinity
      else
        let ip = takeWhile is_digit s; r = dropWhile is_digit s;
            (fp, r') = (case r of
                          c # t \<Rightarrow> if c = CHR ''.'' then (takeWhile is_digit t, dropWhile is_digit t)
                                   else ([], r)
                        | [] \<Rightarrow> ([], []))
        in if ip = [] \<and> fp = [] then JNaN
           else case exponent_part r' of
                  None \<Rightarrow> JNaN
                | Some e \<Rightarrow> fraction_of neg (dec_value (ip @ fp)) (e - int (length fp)))"

definition radix_digit :: "char \<Rightarrow> nat" where
  "radix_digit c =
     (let n = char_code c in
      if 48 \<le> n \<and> n \<le> 57 then n - 48
      else if 97 \<le> n \<and> n \<le> 122 then n - 87
      else if 65 \<le> n \<and> n \<le> 90 then n - 55
      else 36)"

definition radix_literal :: "nat \<Rightarrow> string \<Rightarrow> js_number" where
  "radix_literal r s =
     (if s \<noteq> [] \<and> list_all (\<lambda>c. radix_digit c < r) s
      then JFraction False (foldl (\<lambda>n c. r * n + radix_digit c) 0 s) 1 else JNaN)"

definition js_Number_trimmed :: "string \<Rightarrow> js_number" where
  "js_Number_trimmed s =
     (case s of
        [] \<Rightarrow> JFraction False 0 1
      | c # t \<Rightarrow>
          if c = CHR ''-'' then unsigned_decimal True t
          else if c = CHR ''+'' then unsigned_decimal False t
          else if c = CHR ''0'' then
            (case t of
               [] \<Rightarrow> unsigned_decimal False s
             | d # u \<Rightarrow>
                 if d = CHR ''x'' \<or> d = CHR ''X'' then radix_literal 16 u
                 else if d = CHR ''o'' \<or> d = CHR ''O'' then radix_literal 8 u
                 else if d = CHR ''b'' \<or> d = CHR ''B'' then radix_literal 2 u
                 else unsigned_decimal False s)
          else unsigned_decimal False s)"

definition js_Number :: "string \<Rightarrow> js_number" where
  "js_Number s = js_Number_trimmed (js_trim s)"

section \<open>Rounding to a double\<close>

fun nat_log2 :: "nat \<Rightarrow> nat" where
  "nat_log2 n = (if n < 2 then 0 else Suc (nat_log2 (n div 2)))"

declare nat_log2.simps [simp del]

definition round_half_even :: "nat \<Rightarrow> nat \<Rightarrow> nat" where
  "round_half_even a b =
     (let q = a div b; r = a mod b in
      if 2 * r < b then q else if b < 2 * r then Suc q else if even q then q else Suc q)"

text \<open>
  \<open>double_integer a b\<close>: the double nearest to \<open>a / b\<close>, when it is an integer. Below one the
  candidates are 0 (up to half of the least subnormal \<open>2^-1074\<close>) and 1 (from half a unit below
  it); otherwise \<open>2^e \<le> a / b < 2^(e+1)\<close> and the double is a multiple of \<open>2^(e-52)\<close>. Doubles too
  large for the format are left as integers: they fail \<open>isSafeInteger\<close> either way.
\<close>

definition double_integer :: "nat \<Rightarrow> nat \<Rightarrow> nat option" where
  "double_integer a b =
     (let q = a div b in
      if q = 0 then
        (if a * 2 ^ 1075 \<le> b then Some 0
         else if b * (2 ^ 54 - 1) \<le> a * 2 ^ 54 then Some 1 else None)
      else
        let e = nat_log2 q in
        if e \<le> 52 then
          let n = round_half_even (a * 2 ^ (52 - e)) b in
          if n mod 2 ^ (52 - e) = 0 then Some (n div 2 ^ (52 - e)) else None
        else Some (round_half_even a (b * 2 ^ (e - 52)) * 2 ^ (e - 52)))"

text \<open>\<open>Number.MAX_SAFE_INTEGER\<close> is \<open>2^53 - 1\<close>. The result is the integer when
  \<open>Number.isSafeInteger\<close> holds of the number.\<close>

definition safe_integer :: "js_number \<Rightarrow> int option" where
  "safe_integer x =
     (case x of
        JFraction neg a b \<Rightarrow>
          (case double_integer a b of
             None \<Rightarrow> None
           | Some n \<Rightarrow> if n < 2 ^ 53 then Some (if neg then - int n else int n) else None)
      | _ \<Rightarrow> None)"

lemma nat_log2_bounds: "n \<noteq> 0 \<Longrightarrow> 2 ^ nat_log2 n \<le> n \<and> n < 2 ^ Suc (nat_log2 n)"
proof (induction n rule: nat_log2.induct)
  case (1 n)
  show ?case
  proof (cases "n < 2")
    case True
    then show ?thesis using "1.prems" by (simp add: nat_log2.simps)
  next
    case False
    then have "2 ^ nat_log2 (n div 2) \<le> n div 2" "n div 2 < 2 ^ Suc (nat_log2 (n div 2))"
      using "1.IH" by auto
    then show ?thesis using False by (subst (1 2) nat_log2.simps) auto
  qed
qed

lemma round_half_even_exact: "0 < b \<Longrightarrow> round_half_even (n * b) b = n"
  by (simp add: round_half_even_def)

lemma double_integer_exact: "n < 2 ^ 53 \<Longrightarrow> double_integer n 1 = Some n"
proof -
  assume n: "n < 2 ^ 53"
  show ?thesis
  proof (cases "n = 0")
    case True
    then show ?thesis by (simp add: double_integer_def)
  next
    case False
    then have "2 ^ nat_log2 n \<le> n" using nat_log2_bounds by blast
    then have "(2::nat) ^ nat_log2 n < 2 ^ 53" using n by (rule le_less_trans)
    then have "nat_log2 n < 53" by (simp only: power_strict_increasing_iff)
    moreover have "round_half_even (n * 2 ^ (52 - nat_log2 n)) 1 = n * 2 ^ (52 - nat_log2 n)"
      using round_half_even_exact [of 1 "n * 2 ^ (52 - nat_log2 n)"] by simp
    ultimately show ?thesis using False
      by (simp add: double_integer_def Let_def)
  qed
qed

section \<open>Reading back what was printed\<close>

lemma digit_not_space: "is_digit c \<Longrightarrow> \<not> is_js_space c"
  by (auto simp: is_digit_def is_js_space_def)

lemma dropWhile_none: "s = [] \<or> \<not> P (hd s) \<Longrightarrow> dropWhile P s = s"
  by (cases s) auto

lemma js_trim_digits: "list_all is_digit s \<Longrightarrow> js_trim s = s"
proof -
  assume s: "list_all is_digit s"
  then have "s = [] \<or> \<not> is_js_space (hd s)" "rev s = [] \<or> \<not> is_js_space (hd (rev s))"
    by (cases s; auto simp: list_all_iff digit_not_space)
      (use s in \<open>cases s rule: rev_cases; auto simp: digit_not_space\<close>)
  then show ?thesis by (simp add: js_trim_def dropWhile_none)
qed

lemma not_Infinity_digits: "list_all is_digit s \<Longrightarrow> s \<noteq> ''Infinity''"
  by (auto simp: is_digit_def char_code_def)

lemma unsigned_decimal_digits:
  "list_all is_digit s \<Longrightarrow> s \<noteq> [] \<Longrightarrow> unsigned_decimal neg s = JFraction neg (dec_value s) 1"
proof -
  assume s: "list_all is_digit s" and ne: "s \<noteq> []"
  have td: "takeWhile is_digit s = s" "dropWhile is_digit s = []"
    using s by (simp_all add: list_all_iff takeWhile_eq_all_conv dropWhile_eq_Nil_conv)
  show ?thesis
    using not_Infinity_digits [OF s] ne
    by (simp add: unsigned_decimal_def fraction_of_def td)
qed

lemma js_Number_digits:
  assumes s: "list_all is_digit s" and ne: "s \<noteq> []"
  shows "js_Number s = JFraction False (dec_value s) 1"
proof (cases s)
  case Nil
  with ne show ?thesis by simp
next
  case (Cons c t)
  have c: "c \<noteq> CHR ''-''" "c \<noteq> CHR ''+''"
    using s Cons by (auto simp: is_digit_def char_code_def)
  have t: "d \<noteq> CHR ''x'' \<and> d \<noteq> CHR ''X'' \<and> d \<noteq> CHR ''o'' \<and> d \<noteq> CHR ''O'' \<and>
      d \<noteq> CHR ''b'' \<and> d \<noteq> CHR ''B''" if "t = d # u" for d u
    using s Cons that by (auto simp: is_digit_def char_code_def)
  have "js_Number_trimmed s = unsigned_decimal False s"
  proof (cases t)
    case Nil
    with c Cons show ?thesis by (simp add: js_Number_trimmed_def)
  next
    case t': (Cons d u)
    with c t [OF t'] Cons show ?thesis by (simp add: js_Number_trimmed_def)
  qed
  then show ?thesis
    by (simp only: js_Number_def js_trim_digits [OF s] unsigned_decimal_digits [OF s ne])
qed

lemma js_Number_nat_to_string: "js_Number (nat_to_string n) = JFraction False n 1"
  by (simp only: js_Number_digits [OF nat_to_string_digits nat_to_string_nonempty]
      dec_value_nat_to_string)

lemma safe_integer_nat_to_string:
  "n < 2 ^ 53 \<Longrightarrow> safe_integer (js_Number (nat_to_string n)) = Some (int n)"
  by (simp only: js_Number_nat_to_string safe_integer_def double_integer_exact
      js_number.case option.case if_True if_False)

end
