(* ===== verification/Event_Utils.thy ===== *)
theory Event_Utils
  imports Nostr_Types Buffers Js_Number
begin

text \<open>
  The pure event functions of \<open>src/utils/event.ts\<close> and \<open>src/utils/filter.ts\<close>: matching an event
  against a kind, a range or a subscription filter, classifying kinds (NIP-16, NIP-33, NIP-09),
  recognising signed authentication events (NIP-42), and the expiration time (NIP-40). The clock is
  the argument \<open>now_ms\<close>, the value of \<open>Date.now()\<close>.
\<close>

section \<open>Matching filters\<close>

text \<open>\<open>/^#[a-zA-Z]$/\<close>.\<close>

definition is_letter :: "char \<Rightarrow> bool" where
  "is_letter c \<longleftrightarrow> (97 \<le> char_code c \<and> char_code c \<le> 122) \<or> (65 \<le> char_code c \<and> char_code c \<le> 90)"

definition isGenericTagQuery :: "string \<Rightarrow> bool" where
  "isGenericTagQuery key =
     (case key of [h, c] \<Rightarrow> h = CHR ''#'' \<and> is_letter c | _ \<Rightarrow> False)"

fun isEventKindOrRangeMatch :: "nostr_event \<Rightarrow> kind_item \<Rightarrow> bool" where
  "isEventKindOrRangeMatch e (Kind k) \<longleftrightarrow> k = ev_kind e"
| "isEventKindOrRangeMatch e (KindRange lo hi) \<longleftrightarrow> ev_kind e \<ge> lo \<and> ev_kind e \<le> hi"

text \<open>
  \<open>tag[0] === key[1] && criteria.includes(tag[1])\<close>: \<open>key[1]\<close> is the one-character string after
  the hash, and the undefined \<open>tag[1]\<close> of a shorter tag is in no list of strings.
\<close>

definition tag_matches :: "string \<Rightarrow> string list \<Rightarrow> tag \<Rightarrow> bool" where
  "tag_matches key criteria t \<longleftrightarrow>
     js_nth t 0 = map_option (\<lambda>c. [c]) (js_nth key 1) \<and> js_nth t 0 \<noteq> None \<and>
     (case js_nth t 1 of None \<Rightarrow> False | Some v \<Rightarrow> v \<in> set criteria)"

definition entry_excludes :: "nostr_event \<Rightarrow> string \<times> string list option \<Rightarrow> bool" where
  "entry_excludes e entry =
     (case entry of
        (key, None) \<Rightarrow> False
      | (key, Some criteria) \<Rightarrow>
          isGenericTagQuery key \<and> \<not> list_ex (tag_matches key criteria) (ev_tags e))"

definition isEventMatchingFilter :: "subscription_filter \<Rightarrow> nostr_event \<Rightarrow> bool" where
  "isEventMatchingFilter f e =
     (if (case f_ids f of None \<Rightarrow> False | Some ids \<Rightarrow> \<not> list_ex (starts_with (ev_id e)) ids)
      then False
      else if (case f_kinds f of None \<Rightarrow> False | Some ks \<Rightarrow> ev_kind e \<notin> set ks) then False
      else if (case f_since f of None \<Rightarrow> False | Some t \<Rightarrow> ev_created_at e < t) then False
      else if (case f_until f of None \<Rightarrow> False | Some t \<Rightarrow> ev_created_at e > t) then False
      else if (case f_authors f of
                 None \<Rightarrow> False | Some as \<Rightarrow> \<not> list_ex (starts_with (ev_pubkey e)) as)
      then False
      else if list_ex (entry_excludes e) (f_entries f) then False
      else True)"

lemma tag_matches_iff:
  "tag_matches [CHR ''#'', c] criteria t \<longleftrightarrow> (\<exists>v r. t = [c] # v # r \<and> v \<in> set criteria)"
  by (cases t; cases "tl t") (auto simp: tag_matches_def)

lemma isGenericTagQuery_iff:
  "isGenericTagQuery key \<longleftrightarrow> (\<exists>c. key = [CHR ''#'', c] \<and> is_letter c)"
  by (auto simp: isGenericTagQuery_def split: list.splits)

lemma isEventMatchingFilter_iff:
  "isEventMatchingFilter f e \<longleftrightarrow>
     (\<forall>ids. f_ids f = Some ids \<longrightarrow> (\<exists>p \<in> set ids. starts_with (ev_id e) p)) \<and>
     (\<forall>ks. f_kinds f = Some ks \<longrightarrow> ev_kind e \<in> set ks) \<and>
     (\<forall>t. f_since f = Some t \<longrightarrow> t \<le> ev_created_at e) \<and>
     (\<forall>t. f_until f = Some t \<longrightarrow> ev_created_at e \<le> t) \<and>
     (\<forall>as. f_authors f = Some as \<longrightarrow> (\<exists>p \<in> set as. starts_with (ev_pubkey e) p)) \<and>
     (\<forall>entry \<in> set (f_entries f). \<not> entry_excludes e entry)"
  by (auto simp: isEventMatchingFilter_def list_ex_iff split: option.splits)

section \<open>Classes of kinds\<close>

definition isReplaceableEvent :: "nostr_event \<Rightarrow> bool" where
  "isReplaceableEvent e \<longleftrightarrow>
     ev_kind e = kind_number SET_METADATA \<or> ev_kind e = kind_number CONTACT_LIST \<or>
     ev_kind e = kind_number CHANNEL_METADATA \<or>
     (ev_kind e \<ge> kind_number REPLACEABLE_FIRST \<and> ev_kind e \<le> kind_number REPLACEABLE_LAST)"

definition isEphemeralEvent :: "nostr_event \<Rightarrow> bool" where
  "isEphemeralEvent e \<longleftrightarrow>
     ev_kind e \<ge> kind_number EPHEMERAL_FIRST \<and> ev_kind e \<le> kind_number EPHEMERAL_LAST"

definition isParameterizedReplaceableEvent :: "nostr_event \<Rightarrow> bool" where
  "isParameterizedReplaceableEvent e \<longleftrightarrow>
     ev_kind e \<ge> kind_number PARAMETERIZED_REPLACEABLE_FIRST \<and>
     ev_kind e \<le> kind_number PARAMETERIZED_REPLACEABLE_LAST"

definition isDeleteEvent :: "nostr_event \<Rightarrow> bool" where
  "isDeleteEvent e \<longleftrightarrow> ev_kind e = kind_number DELETE"

lemmas kind_class_defs =
  isReplaceableEvent_def isEphemeralEvent_def isParameterizedReplaceableEvent_def
  isDeleteEvent_def

lemma kind_classes_disjoint:
  "isReplaceableEvent e \<Longrightarrow>
     \<not> isEphemeralEvent e \<and> \<not> isDeleteEvent e \<and> \<not> isParameterizedReplaceableEvent e"
  "isEphemeralEvent e \<Longrightarrow> \<not> isDeleteEvent e \<and> \<not> isParameterizedReplaceableEvent e"
  "isDeleteEvent e \<Longrightarrow> \<not> isParameterizedReplaceableEvent e"
  by (auto simp: kind_class_defs)

section \<open>Authentication events\<close>

text \<open>The loop of \<open>isSignedAuthEvent\<close> with its two flags, tag by tag.\<close>

fun auth_tags_loop :: "tag list \<Rightarrow> bool \<Rightarrow> bool \<Rightarrow> bool" where
  "auth_tags_loop [] relay challenge = False"
| "auth_tags_loop (t # ts) relay challenge =
     (if length t < 2 then auth_tags_loop ts relay challenge
      else
        let isChallenge = (js_nth t 0 = Some (tag_name ChallengeTag));
            isRelay = (js_nth t 0 = Some (tag_name RelayTag)) in
        if isChallenge \<and> relay then True
        else
          let challenge' = (isChallenge \<or> challenge) in
          if isRelay \<and> challenge' then True
          else auth_tags_loop ts (isRelay \<or> relay) challenge')"

definition isSignedAuthEvent :: "nostr_event \<Rightarrow> bool" where
  "isSignedAuthEvent e =
     (if \<not> ev_kind e = kind_number AUTH_KIND then False
      else auth_tags_loop (ev_tags e) False False)"

definition named_tag :: "event_tags \<Rightarrow> tag \<Rightarrow> bool" where
  "named_tag n t \<longleftrightarrow> length t \<ge> 2 \<and> js_nth t 0 = Some (tag_name n)"

lemma named_tag_iff: "named_tag n t \<longleftrightarrow> (\<exists>v r. t = tag_name n # v # r)"
  by (cases t; cases "tl t") (auto simp: named_tag_def)

lemma named_tag_disjoint: "named_tag n t \<Longrightarrow> named_tag m t \<Longrightarrow> m = n"
  by (cases n; cases m) (auto simp: named_tag_iff)

definition isValidSignedAuthEvent :: "nostr_event \<Rightarrow> string \<Rightarrow> bool" where
  "isValidSignedAuthEvent e challenge =
     (if isSignedAuthEvent e then
        (case List.find (named_tag ChallengeTag) (ev_tags e) of
           None \<Rightarrow> False \<comment> \<open>\<open>tag[1]\<close> of undefined: excluded by \<open>isSignedAuthEvent\<close>, see
                             \<open>isValidSignedAuthEvent_find\<close>\<close>
         | Some t \<Rightarrow> js_nth t 1 = Some challenge)
      else False)"

lemma auth_tags_loop_Cons:
  "auth_tags_loop (t # ts) relay challenge \<longleftrightarrow>
     named_tag ChallengeTag t \<and> relay \<or>
     named_tag RelayTag t \<and> (named_tag ChallengeTag t \<or> challenge) \<or>
     auth_tags_loop ts (named_tag RelayTag t \<or> relay) (named_tag ChallengeTag t \<or> challenge)"
  by (cases "length t < 2"; cases "js_nth t 0 = Some ''challenge''"; cases "js_nth t 0 = Some ''relay''")
     (auto simp: named_tag_def Let_def)

lemma auth_tags_loop_iff:
  "auth_tags_loop ts relay challenge \<longleftrightarrow>
     (list_ex (named_tag ChallengeTag) ts \<and> (relay \<or> list_ex (named_tag RelayTag) ts)) \<or>
     (list_ex (named_tag RelayTag) ts \<and> (challenge \<or> list_ex (named_tag ChallengeTag) ts))"
proof (induction ts arbitrary: relay challenge)
  case Nil
  show ?case by simp
next
  case (Cons t ts)
  show ?case
    unfolding auth_tags_loop_Cons Cons.IH
    by (cases "named_tag ChallengeTag t"; cases "named_tag RelayTag t";
        cases relay; cases challenge) (auto simp: list_ex_iff dest: named_tag_disjoint)
qed

lemma isSignedAuthEvent_iff:
  "isSignedAuthEvent e \<longleftrightarrow>
     ev_kind e = 22242 \<and> (\<exists>t \<in> set (ev_tags e). named_tag ChallengeTag t) \<and>
     (\<exists>t \<in> set (ev_tags e). named_tag RelayTag t)"
  by (auto simp: isSignedAuthEvent_def auth_tags_loop_iff list_ex_iff)

lemma isValidSignedAuthEvent_find:
  "isSignedAuthEvent e \<Longrightarrow> List.find (named_tag ChallengeTag) (ev_tags e) \<noteq> None"
  by (auto simp: isSignedAuthEvent_iff find_None_iff_none)

lemma isValidSignedAuthEvent_tag:
  "isValidSignedAuthEvent e challenge \<Longrightarrow>
     \<exists>r. (tag_name ChallengeTag # challenge # r) \<in> set (ev_tags e)"
proof -
  assume v: "isValidSignedAuthEvent e challenge"
  then obtain t where t: "List.find (named_tag ChallengeTag) (ev_tags e) = Some t"
      "js_nth t 1 = Some challenge"
    by (auto simp: isValidSignedAuthEvent_def split: if_splits option.splits)
  then have "t \<in> set (ev_tags e)" "named_tag ChallengeTag t" using find_Some_D by metis+
  with t(2) show ?thesis unfolding named_tag_iff by (metis js_nth.simps(2,3) One_nat_def option.inject)
qed

section \<open>Expiration\<close>

text \<open>
  \<open>Math.log10(x) < 10\<close> of a safe integer \<open>x\<close>: false (NaN) when negative, true (minus infinity) at
  zero, and otherwise \<open>x < 10^10\<close>.
\<close>

definition log10_below_10 :: "int \<Rightarrow> bool" where
  "log10_below_10 x \<longleftrightarrow> 0 \<le> x \<and> x < 10 ^ 10"

definition getEventExpiration :: "nostr_event \<Rightarrow> int option" where
  "getEventExpiration e =
     (case List.find (named_tag ExpirationTag) (ev_tags e) of
        None \<Rightarrow> None
      | Some t \<Rightarrow>
          (case js_nth t 1 of
             None \<Rightarrow> None
           | Some rawExpirationTime \<Rightarrow>
               if rawExpirationTime = [] then None
               else case safe_integer (js_Number rawExpirationTime) of
                      None \<Rightarrow> None
                    | Some x \<Rightarrow> if log10_below_10 x then Some x else None))"

text \<open>\<open>!expirationTime\<close> holds of undefined and of 0.\<close>

definition isExpiredEvent :: "int \<Rightarrow> nostr_event \<Rightarrow> bool" where
  "isExpiredEvent now_ms e =
     (if ev_tags e = [] then False
      else case getEventExpiration e of
             None \<Rightarrow> False
           | Some t \<Rightarrow> if t = 0 then False else t \<le> now_ms div 1000)"

lemma getEventExpiration_range:
  "getEventExpiration e = Some t \<Longrightarrow> 0 \<le> t \<and> t < 10 ^ 10"
  by (auto simp: getEventExpiration_def log10_below_10_def split: option.splits if_splits)

section \<open>Proof of work of an event\<close>

definition getEventProofOfWork :: "string \<Rightarrow> nat" where
  "getEventProofOfWork eventId = getLeadingZeroBits (toBuffer eventId)"

definition getPubkeyProofOfWork :: "string \<Rightarrow> nat" where
  "getPubkeyProofOfWork pubkey = getLeadingZeroBits (toBuffer pubkey)"

section \<open>An event for the witnesses\<close>

definition sample_event :: nostr_event where
  "sample_event = \<lparr>ev_id = replicate 64 (CHR ''a''), ev_pubkey = replicate 64 (CHR ''b''),
     ev_created_at = 1700000000, ev_kind = 1, ev_tags = [], ev_sig = [], ev_content = ''hello'',
     ev_context = None, ev_expiration = None, ev_dedup = None\<rparr>"

section \<open>Properties\<close>

text \<open>
  The loop of \<open>isSignedAuthEvent\<close> with its two flags does not depend on the order of the tags,
  and \<open>isValidSignedAuthEvent\<close> compares the first challenge tag only: an event answers the challenge
  exactly when it has kind 22242, some tag \<open>relay\<close> with a value, and the first of its tags
  \<open>challenge\<close> that has a value carries the expected one.
\<close>

theorem valid_signed_auth_event_iff:
  "isValidSignedAuthEvent e challenge \<longleftrightarrow>
     ev_kind e = 22242 \<and>
     (\<exists>url r. (''relay'' # url # r) \<in> set (ev_tags e)) \<and>
     (\<exists>us vs r. ev_tags e = us @ (''challenge'' # challenge # r) # vs \<and>
        \<not> (\<exists>v q. (''challenge'' # v # q) \<in> set us))"
proof -
  have first: "List.find P xs = Some x \<longleftrightarrow> (\<exists>us vs. xs = us @ x # vs \<and> P x \<and> (\<forall>u \<in> set us. \<not> P u))"
    for P and xs :: "tag list" and x
    by (rule find_Some_split)
  have relay: "(\<exists>t \<in> set (ev_tags e). named_tag RelayTag t) \<longleftrightarrow>
      (\<exists>url r. (''relay'' # url # r) \<in> set (ev_tags e))"
    by (auto simp: named_tag_iff)
  have second: "js_nth t 1 = Some challenge \<and> named_tag ChallengeTag t \<longleftrightarrow>
      (\<exists>r. t = ''challenge'' # challenge # r)" for t
    by (auto simp: named_tag_iff)
  have "isValidSignedAuthEvent e challenge \<longleftrightarrow> isSignedAuthEvent e \<and>
      (\<exists>t. List.find (named_tag ChallengeTag) (ev_tags e) = Some t \<and> js_nth t 1 = Some challenge)"
    by (auto simp: isValidSignedAuthEvent_def split: option.splits)
  also have "\<dots> \<longleftrightarrow> isSignedAuthEvent e \<and> (\<exists>us vs r. ev_tags e = us @ (''challenge'' # challenge # r) # vs \<and>
        (\<forall>u \<in> set us. \<not> named_tag ChallengeTag u))"
    unfolding first using second by metis
  also have "\<dots> \<longleftrightarrow> ev_kind e = 22242 \<and> (\<exists>t \<in> set (ev_tags e). named_tag RelayTag t) \<and>
      (\<exists>us vs r. ev_tags e = us @ (''challenge'' # challenge # r) # vs \<and>
        (\<forall>u \<in> set us. \<not> named_tag ChallengeTag u))"
    unfolding isSignedAuthEvent_iff by (auto simp: named_tag_iff)
  also have "(\<lambda>us. \<forall>u \<in> set us. \<not> named_tag ChallengeTag u) =
      (\<lambda>us. \<not> (\<exists>v q. (''challenge'' # v # q) \<in> set us))"
    by (auto simp: named_tag_iff fun_eq_iff)
  finally show ?thesis unfolding relay .
qed

text \<open>
  Expiration times survive being written as a tag: when the first \<open>expiration\<close> tag of an event
  carries the decimal digits of a number below ten digits, \<open>getEventExpiration\<close> reads that number
  (through \<open>Number\<close>, its rounding, \<open>isSafeInteger\<close> and the logarithm), and the event counts as
  expired from that second on, except for the time 0, which counts as absent.
\<close>

theorem expiration_reads_back:
  assumes tags: "ev_tags e = us @ (''expiration'' # nat_to_string n # r) # vs"
    and first: "\<forall>u \<in> set us. \<not> named_tag ExpirationTag u" and small: "n < 10 ^ 10"
  shows "getEventExpiration e = Some (int n) \<and>
    (isExpiredEvent now_ms e \<longleftrightarrow> n \<noteq> 0 \<and> int n \<le> now_ms div 1000)"
proof -
  have "List.find (named_tag ExpirationTag) (ev_tags e) = Some (''expiration'' # nat_to_string n # r)"
    unfolding find_Some_split using tags first by (force simp: named_tag_iff)
  moreover have "safe_integer (js_Number (nat_to_string n)) = Some (int n)"
    using small by (intro safe_integer_nat_to_string) simp
  ultimately have "getEventExpiration e = Some (int n)"
    using small by (simp add: getEventExpiration_def log10_below_10_def)
  then show ?thesis using tags by (simp add: isExpiredEvent_def)
qed

theorem expiration_reads_back_witness:
  "getEventExpiration (sample_event\<lparr>ev_tags := [[''expiration'', ''1700000000'']]\<rparr>) = Some 1700000000"
proof -
  have n: "nat_to_string 1700000000 = ''1700000000''" by code_simp
  have "ev_tags (sample_event\<lparr>ev_tags := [[''expiration'', ''1700000000'']]\<rparr>) =
      [] @ (''expiration'' # nat_to_string 1700000000 # []) # []" by (simp only: n) simp
  from expiration_reads_back [OF this, of 0] show ?thesis by simp
qed

text \<open>
  C13. Proof of work: for an event id of 64 lower-case hexadecimal digits, the relay's difficulty
  measure (leading zero bits counted byte by byte with an early exit) reaches \<open>d\<close> exactly when
  the 256-bit number the id spells is below \<open>2^(256-d)\<close>.
\<close>

theorem proof_of_work_iff:
  assumes "is_lower_hex 64 eventId" and "d \<le> 256"
  shows "d \<le> getEventProofOfWork eventId \<longleftrightarrow> be_value (toBuffer eventId) < 2 ^ (256 - d)"
proof -
  have "length (toBuffer eventId) = 32"
    using assms(1) length_toBuffer_hex by (simp add: is_lower_hex_def)
  then show ?thesis
    using leading_bits_value [of d "toBuffer eventId"] assms(2) by (simp add: getEventProofOfWork_def)
qed

theorem proof_of_work_iff_witness:
  "8 \<le> getEventProofOfWork (''00'' @ replicate 62 (CHR ''f''))"
proof -
  let ?id = "''00'' @ replicate 62 (CHR ''f'')"
  have h: "is_lower_hex 64 ?id" by code_simp
  have "be_value (toBuffer ?id) < 2 ^ (256 - 8)" by code_simp
  then show ?thesis using proof_of_work_iff [OF h, of 8] by simp
qed

end
