(* ===== verification/Canonical_Json.thy ===== *)
theory Canonical_Json
  imports Event_Utils
begin

text \<open>
  The identity of an event: \<open>serializeEvent\<close>, its \<open>JSON.stringify\<close>, the UTF-8 bytes that are
  hashed, and \<open>getEventHash\<close>, \<open>isEventIdValid\<close>, \<open>identifyEvent\<close> of \<open>src/utils/event.ts\<close>. SHA-256
  comes from a package and is the parameter \<open>sha256\<close>. The lemmas show that the bytes determine the
  five fields that are serialised: encoders whose output can be read back without a separator are
  instances of the locale \<open>self_delimiting\<close>, and arrays of such encoders are again instances.
\<close>

section \<open>JSON.stringify of the canonical event\<close>

text \<open>\<open>QuoteJSONString\<close>, character by character.\<close>

definition json_escape :: "char \<Rightarrow> string" where
  "json_escape c =
     (let n = char_code c in
      if n = 34 then [CHR 0x5C, CHR 0x22]
      else if n = 92 then [CHR 0x5C, CHR 0x5C]
      else if n = 8 then [CHR 0x5C, CHR ''b'']
      else if n = 9 then [CHR 0x5C, CHR ''t'']
      else if n = 10 then [CHR 0x5C, CHR ''n'']
      else if n = 12 then [CHR 0x5C, CHR ''f'']
      else if n = 13 then [CHR 0x5C, CHR ''r'']
      else if n < 32 then [CHR 0x5C, CHR ''u'', CHR ''0'', CHR ''0'', hex_char (n div 16), hex_char (n mod 16)]
      else [c])"

definition json_string :: "string \<Rightarrow> string" where
  "json_string s = CHR 0x22 # concat (map json_escape s) @ [CHR 0x22]"

definition json_array :: "('a \<Rightarrow> string) \<Rightarrow> 'a list \<Rightarrow> string" where
  "json_array enc xs = CHR ''['' # join '','' (map enc xs) @ '']''"

text \<open>\<open>serializeEvent\<close> builds \<open>[0, pubkey, created_at, kind, tags, content]\<close>.\<close>

type_synonym canonical_event = "string \<times> int \<times> int \<times> tag list \<times> string"

definition serializeEvent :: "nostr_event \<Rightarrow> canonical_event" where
  "serializeEvent e = (ev_pubkey e, ev_created_at e, ev_kind e, ev_tags e, ev_content e)"

fun stringify_canonical :: "canonical_event \<Rightarrow> string" where
  "stringify_canonical (pubkey, created_at, kind, tags, content) =
     ''[0,'' @ json_string pubkey @ '','' @ int_to_string created_at @ '','' @ int_to_string kind
       @ '','' @ json_array (json_array json_string) tags @ '','' @ json_string content @ '']''"

text \<open>\<open>Buffer.from(s)\<close>: UTF-8, two bytes for the upper half of Latin-1.\<close>

definition utf8_char :: "char \<Rightarrow> buffer" where
  "utf8_char c =
     (let n = char_code c in
      if n < 128 then [word_of_nat n]
      else [word_of_nat (192 + n div 64), word_of_nat (128 + n mod 64)])"

definition utf8 :: "string \<Rightarrow> buffer" where
  "utf8 s = concat (map utf8_char s)"

definition getEventHash :: "(buffer \<Rightarrow> buffer) \<Rightarrow> nostr_event \<Rightarrow> string" where
  "getEventHash sha256 e = fromBuffer (sha256 (utf8 (stringify_canonical (serializeEvent e))))"

definition isEventIdValid :: "(buffer \<Rightarrow> buffer) \<Rightarrow> nostr_event \<Rightarrow> bool" where
  "isEventIdValid sha256 e \<longleftrightarrow> ev_id e = getEventHash sha256 e"

definition identifyEvent :: "(buffer \<Rightarrow> buffer) \<Rightarrow> nostr_event \<Rightarrow> nostr_event" where
  "identifyEvent sha256 e = e\<lparr>ev_id := getEventHash sha256 e\<rparr>"

section \<open>Self-delimiting encoders\<close>

text \<open>
  What a reader of the serialised form relies on: an encoder whose output, whatever follows it,
  determines the value and where it ends.
\<close>

locale self_delimiting =
  fixes enc :: "'a \<Rightarrow> 'b list"
  assumes delimited: "enc x @ r = enc y @ s \<Longrightarrow> x = y \<and> r = s"
begin

lemma enc_inj: "enc x = enc y \<longleftrightarrow> x = y"
  using delimited [of x "[]" y "[]"] by auto

lemma enc_append_iff: "enc x @ r = enc y @ s \<longleftrightarrow> x = y \<and> r = s"
  using delimited by blast

end

text \<open>Encoders into nonempty strings that do not start with a closing bracket can be the elements of
  a JSON array.\<close>

locale json_element = self_delimiting enc for enc :: "'a \<Rightarrow> string" +
  assumes not_bracket: "\<exists>c s. enc x = c # s \<and> c \<noteq> CHR '']''"
begin

lemma join_Cons:
  "join '','' (map enc (x # xs)) @ '']'' = enc x @
     concat (map (\<lambda>y. CHR '','' # enc y) xs) @ '']''"
proof (induction xs arbitrary: x)
  case Nil
  then show ?case by simp
next
  case (Cons y xs)
  then show ?case using Cons.IH [of y] by simp
qed

lemma tail_delimited:
  "concat (map (\<lambda>y. CHR '','' # enc y) xs) @ CHR '']'' # r =
   concat (map (\<lambda>y. CHR '','' # enc y) ys) @ CHR '']'' # s \<Longrightarrow> xs = ys \<and> r = s"
proof (induction xs arbitrary: ys)
  case Nil
  then show ?case by (cases ys) auto
next
  case (Cons x xs)
  show ?case
  proof (cases ys)
    case Nil
    with Cons.prems show ?thesis by simp
  next
    case (Cons y zs)
    then have "enc x @ (concat (map (\<lambda>y. CHR '','' # enc y) xs) @ CHR '']'' # r) =
        enc y @ (concat (map (\<lambda>y. CHR '','' # enc y) zs) @ CHR '']'' # s)"
      using Cons.prems by simp
    from delimited [OF this] show ?thesis using Cons.IH [of zs] Cons by simp
  qed
qed

lemma json_array_Cons:
  "json_array enc (x # xs) @ r =
     CHR ''['' # enc x @ concat (map (\<lambda>y. CHR '','' # enc y) xs) @ CHR '']'' # r"
  using join_Cons [of x xs] by (simp add: json_array_def)

lemma json_array_delimited:
  "json_array enc xs @ r = json_array enc ys @ s \<Longrightarrow> xs = ys \<and> r = s"
proof (cases xs; cases ys)
  fix y zs
  assume "xs = []" "ys = y # zs" and eq: "json_array enc xs @ r = json_array enc ys @ s"
  then show ?thesis using not_bracket [of y] json_array_Cons [of y zs s] eq
    by (auto simp: json_array_def)
next
  fix x zs
  assume "ys = []" "xs = x # zs" and eq: "json_array enc xs @ r = json_array enc ys @ s"
  then show ?thesis using not_bracket [of x] json_array_Cons [of x zs r] eq
    by (auto simp: json_array_def)
next
  fix x us y vs
  assume cons: "xs = x # us" "ys = y # vs" and eq: "json_array enc xs @ r = json_array enc ys @ s"
  then have "enc x @ (concat (map (\<lambda>y. CHR '','' # enc y) us) @ CHR '']'' # r) =
      enc y @ (concat (map (\<lambda>y. CHR '','' # enc y) vs) @ CHR '']'' # s)"
    using json_array_Cons [of x us r] json_array_Cons [of y vs s] by simp
  from delimited [OF this] show ?thesis using tail_delimited cons by blast
qed (auto simp: json_array_def)

end

section \<open>Strings, tags and numbers are self-delimiting\<close>

text \<open>Reading one escaped character back.\<close>

fun json_unescape :: "string \<Rightarrow> (char \<times> string) option" where
  "json_unescape [] = None"
| "json_unescape (c # s) =
     (if c \<noteq> CHR 0x5C then Some (c, s)
      else case s of
        [] \<Rightarrow> None
      | d # t \<Rightarrow>
          if d = CHR ''b'' then Some (CHR 0x08, t)
          else if d = CHR ''t'' then Some (CHR 0x09, t)
          else if d = CHR ''n'' then Some (CHR 0x0A, t)
          else if d = CHR ''f'' then Some (CHR 0x0C, t)
          else if d = CHR ''r'' then Some (CHR 0x0D, t)
          else if d = CHR ''u'' then
            (case (js_nth t 2, js_nth t 3) of
               (Some h, Some l) \<Rightarrow>
                 (case (hex_val h, hex_val l) of
                    (Some x, Some y) \<Rightarrow> Some (char_of (16 * x + y), drop 4 t)
                  | _ \<Rightarrow> None)
             | _ \<Rightarrow> None)
          else Some (d, t))"

definition special_chars :: "char list" where
  "special_chars = [CHR 0x22, CHR 0x5C, CHR 0x08, CHR 0x09, CHR 0x0A, CHR 0x0C, CHR 0x0D]"

lemma special_codes:
  "char_code c \<in> {34, 92, 8, 9, 10, 12, 13} \<longleftrightarrow> c \<in> set special_chars"
proof -
  have "char_code ` set special_chars = {34, 92, 8, 9, 10, 12, 13}"
    by (simp add: special_chars_def char_code_def)
  then show ?thesis by (metis char_code_inj image_iff imageI)
qed

lemma json_escape_special:
  "c \<in> set special_chars \<Longrightarrow>
     \<exists>d. json_escape c = [CHR 0x5C, d] \<and> (\<forall>r. json_unescape (CHR 0x5C # d # r) = Some (c, r))"
  by (auto simp: special_chars_def json_escape_def char_code_def)

lemma json_escape_control:
  "char_code c < 32 \<Longrightarrow> c \<notin> set special_chars \<Longrightarrow>
     json_escape c = [CHR 0x5C, CHR ''u'', CHR ''0'', CHR ''0'',
       hex_char (char_code c div 16), hex_char (char_code c mod 16)]"
  using special_codes [of c] by (simp add: json_escape_def Let_def)

lemma json_escape_plain:
  "32 \<le> char_code c \<Longrightarrow> c \<notin> set special_chars \<Longrightarrow> json_escape c = [c] \<and> c \<noteq> CHR 0x5C \<and> c \<noteq> CHR 0x22"
  using special_codes [of c] by (auto simp: json_escape_def Let_def special_chars_def)

lemma json_unescape_escape: "json_unescape (json_escape c @ r) = Some (c, r)"
proof (cases "c \<in> set special_chars")
  case True
  then show ?thesis using json_escape_special by fastforce
next
  case False
  show ?thesis
  proof (cases "char_code c < 32")
    case True
    have "js_nth (a # b # x # y # t) 2 = Some x" "js_nth (a # b # x # y # t) 3 = Some y"
      for a b x y and t :: string
      by (simp_all add: numeral_2_eq_2 numeral_3_eq_3)
    moreover have "char_code c div 16 < 16" "char_code c mod 16 < 16"
      "16 * (char_code c div 16) + char_code c mod 16 = char_code c" using True by simp_all
    moreover have "char_of (char_code c) = c" by (simp add: char_code_def)
    ultimately show ?thesis unfolding json_escape_control [OF True False] by simp
  next
    case plain: False
    then show ?thesis using json_escape_plain [of c] False by simp
  qed
qed

lemma json_escape_no_quote: "json_escape c @ r \<noteq> CHR 0x22 # s"
proof (cases "c \<in> set special_chars")
  case True
  then show ?thesis using json_escape_special [of c] by auto
next
  case False
  then show ?thesis
    using json_escape_control [of c] json_escape_plain [of c] by (cases "char_code c < 32") auto
qed

lemma json_chars_delimited:
  "concat (map json_escape s) @ CHR 0x22 # r = concat (map json_escape t) @ CHR 0x22 # q \<Longrightarrow>
     s = t \<and> r = q"
proof (induction s arbitrary: t)
  case Nil
  then show ?case
    by (cases t) (simp_all, metis json_escape_no_quote)
next
  case (Cons c s)
  show ?case
  proof (cases t)
    case Nil
    then show ?thesis using Cons.prems json_escape_no_quote by auto
  next
    case (Cons d u)
    let ?S = "concat (map json_escape s) @ CHR 0x22 # r"
    let ?U = "concat (map json_escape u) @ CHR 0x22 # q"
    have "json_escape c @ ?S = json_escape d @ ?U" using Cons.prems Cons by simp
    then have "Some (c, ?S) = Some (d, ?U)" by (metis json_unescape_escape)
    then show ?thesis using Cons.IH [of u] Cons by simp
  qed
qed

interpretation json_str: json_element json_string
proof
  fix x y r s
  assume "json_string x @ r = json_string y @ s"
  then show "x = y \<and> r = s" using json_chars_delimited [of x r y s] by (simp add: json_string_def)
next
  fix x
  show "\<exists>c s. json_string x = c # s \<and> c \<noteq> CHR '']''" by (simp add: json_string_def)
qed

interpretation json_tag: json_element "json_array json_string"
  by unfold_locales (use json_str.json_array_delimited in blast, simp add: json_array_def)

lemma json_tags_delimited:
  "json_array (json_array json_string) ts @ r = json_array (json_array json_string) us @ s \<Longrightarrow>
     ts = us \<and> r = s"
  by (rule json_tag.json_array_delimited)

lemma int_to_string_no_comma: "CHR '','' \<notin> set (int_to_string i)"
  using nat_to_string_digits is_digit_not(2) by (auto simp: int_to_string_def list_all_iff)

lemma append_comma_eq:
  "x \<notin> set us \<Longrightarrow> x \<notin> set vs \<Longrightarrow> us @ x # r = vs @ x # s \<longleftrightarrow> us = vs \<and> r = s"
  by (induction us arbitrary: vs) (case_tac vs; auto)+

lemma int_delimited:
  "int_to_string i @ CHR '','' # r = int_to_string j @ CHR '','' # s \<Longrightarrow> i = j \<and> r = s"
  using append_comma_eq [of "CHR '',''" "int_to_string i" "int_to_string j" r s]
    int_to_string_no_comma [of i] int_to_string_no_comma [of j] by (simp add: int_to_string_inj)

lemma stringify_canonical_inj: "stringify_canonical c = stringify_canonical d \<longleftrightarrow> c = d"
proof
  assume eq: "stringify_canonical c = stringify_canonical d"
  obtain p t k g n where c: "c = (p, t, k, g, n)" by (cases c)
  obtain p' t' k' g' n' where d: "d = (p', t', k', g', n')" by (cases d)
  from eq have "json_string p @ '','' @ int_to_string t @ '','' @ int_to_string k @ '','' @
        json_array (json_array json_string) g @ '','' @ json_string n @ '']'' =
      json_string p' @ '','' @ int_to_string t' @ '','' @ int_to_string k' @ '','' @
        json_array (json_array json_string) g' @ '','' @ json_string n' @ '']''"
    by (simp add: c d)
  from json_str.delimited [OF this] have p: "p = p'" and
    "int_to_string t @ '','' @ int_to_string k @ '','' @
        json_array (json_array json_string) g @ '','' @ json_string n @ '']'' =
     int_to_string t' @ '','' @ int_to_string k' @ '','' @
        json_array (json_array json_string) g' @ '','' @ json_string n' @ '']''"
    by simp_all
  from this(2) have "int_to_string t @ CHR '','' # (int_to_string k @ '','' @
        json_array (json_array json_string) g @ '','' @ json_string n @ '']'') =
      int_to_string t' @ CHR '','' # (int_to_string k' @ '','' @
        json_array (json_array json_string) g' @ '','' @ json_string n' @ '']'')" by simp
  from int_delimited [OF this] have t: "t = t'" and "int_to_string k @ '','' @
        json_array (json_array json_string) g @ '','' @ json_string n @ '']'' =
     int_to_string k' @ '','' @
        json_array (json_array json_string) g' @ '','' @ json_string n' @ '']''" by blast+
  from this(2) have "int_to_string k @ CHR '','' # (
        json_array (json_array json_string) g @ '','' @ json_string n @ '']'') =
     int_to_string k' @ CHR '','' # (
        json_array (json_array json_string) g' @ '','' @ json_string n' @ '']'')" by simp
  from int_delimited [OF this] have k: "k = k'" and "json_array (json_array json_string) g @ '','' @ json_string n @ '']'' =
        json_array (json_array json_string) g' @ '','' @ json_string n' @ '']''" by blast+
  from json_tags_delimited [OF this(2)] have g: "g = g'" and
    "json_string n @ '']'' = json_string n' @ '']''" by simp_all
  then have "n = n'" using json_str.enc_inj by simp
  with p t k g show "c = d" by (simp add: c d)
qed simp

section \<open>UTF-8\<close>

lemma utf8_char_delimited: "utf8_char c @ r = utf8_char d @ s \<Longrightarrow> c = d \<and> r = s"
proof -
  assume eq: "utf8_char c @ r = utf8_char d @ s"
  have small: "word_of_nat m = (word_of_nat n :: 8 word) \<longleftrightarrow> m = n" if "m < 256" "n < 256" for m n
    using that unat_byte_of_nat by metis
  let ?m = "char_code c" let ?n = "char_code d"
  have mn: "?m < 256" "?n < 256" by simp_all
  have split: "k = 64 * (k div 64) + k mod 64" for k :: nat by simp
  have hi: "?m div 64 < 4" "?n div 64 < 4" "?m mod 64 < 64" "?n mod 64 < 64"
    using less_mult_imp_div_less [of _ 4 64] by simp_all
  have low: "k < 128 \<Longrightarrow> k \<noteq> 192 + l" for k l :: nat by simp
  have "?m = ?n \<and> r = s"
  proof (cases "?m < 128"; cases "?n < 128")
    assume "\<not> ?m < 128" "\<not> ?n < 128"
    then have "?m div 64 = ?n div 64 \<and> ?m mod 64 = ?n mod 64 \<and> r = s"
      using eq hi small [of "192 + ?m div 64" "192 + ?n div 64"]
        small [of "128 + ?m mod 64" "128 + ?n mod 64"]
      by (simp add: utf8_char_def Let_def del: of_nat_add)
    then show ?thesis using split [of ?m] split [of ?n] by simp
  qed (use eq hi mn small low in \<open>simp_all add: utf8_char_def Let_def del: of_nat_add\<close>)
  then show ?thesis by (simp add: char_code_inj)
qed

interpretation utf8_c: self_delimiting utf8_char
  by unfold_locales (rule utf8_char_delimited)

lemma utf8_char_nonempty: "utf8_char c \<noteq> []"
  by (simp add: utf8_char_def Let_def)

lemma utf8_inj: "utf8 s = utf8 t \<longleftrightarrow> s = t"
proof
  show "utf8 s = utf8 t \<Longrightarrow> s = t"
  proof (induction s arbitrary: t)
    case Nil
    then show ?case using utf8_char_nonempty by (cases t) (auto simp: utf8_def)
  next
    case (Cons c s)
    then obtain d u where t: "t = d # u" using utf8_char_nonempty by (cases t) (auto simp: utf8_def)
    then have "c = d \<and> utf8 s = utf8 u"
      using Cons.prems utf8_c.delimited by (simp add: utf8_def)
    then show ?case using Cons.IH t by blast
  qed
qed simp

declare stringify_canonical.simps [simp del]

lemma canonical_bytes_inj:
  "utf8 (stringify_canonical c) = utf8 (stringify_canonical d) \<longleftrightarrow> c = d"
  by (simp add: utf8_inj stringify_canonical_inj)

section \<open>Properties\<close>

text \<open>
  The bytes that are hashed determine the event: two events have the same serialisation, as UTF-8
  bytes of the JSON text, exactly when their public keys, creation times, kinds, tags and contents
  agree. No choice of quotes, brackets, escapes or control characters in a tag or in the content can
  make two different events collide before hashing.
\<close>

theorem serialization_injective:
  "utf8 (stringify_canonical (serializeEvent e1)) = utf8 (stringify_canonical (serializeEvent e2)) \<longleftrightarrow>
     ev_pubkey e1 = ev_pubkey e2 \<and> ev_created_at e1 = ev_created_at e2 \<and> ev_kind e1 = ev_kind e2 \<and>
     ev_tags e1 = ev_tags e2 \<and> ev_content e1 = ev_content e2"
  unfolding canonical_bytes_inj by (auto simp: serializeEvent_def)



end
