(* ===== verification/Event_Repository.thy ===== *)
theory Event_Repository
  imports Canonical_Json
begin

text \<open>
  \<open>src/repositories/event-repository.ts\<close>, writing side: the row built from an event and the three
  statements (\<open>create\<close>, \<open>upsert\<close>, \<open>deleteByPubkeyAndIds\<close>). Building a statement is the relay's
  code and is a function here; executing one is PostgreSQL, the parameter \<open>exec\<close>. What the relay
  relies on of it is the locale \<open>events_database\<close>: a statement either fails and changes nothing,
  or does what \<open>run_statement\<close> says, the documented meaning of \<open>ON CONFLICT\<close> over the unique
  indexes of \<open>migrations/\<close>. The contract the event strategies rely on is the locale
  \<open>event_store\<close>, which every \<open>events_database\<close> provides.
\<close>

section \<open>Rows\<close>

text \<open>
  A row of the table \<open>events\<close>. The column \<open>event_tags\<close> is JSON: it is written as the text of
  \<open>JSON.stringify\<close> and read back parsed, so the model keeps the tags; \<open>event_deduplication\<close> is
  kept as the JSON text, which is what the unique index compares.
\<close>

record event_row =
  event_id :: buffer
  event_pubkey :: buffer
  event_created_at :: int
  event_kind :: int
  event_tags :: "tag list"
  event_content :: string
  event_signature :: buffer
  event_deduplication :: "string option"
  remote_address :: "string option"
  expires_at :: "int option"
  deleted_at :: "int option"

text \<open>The row of \<open>insert\<close>: no \<open>event_deduplication\<close>, no \<open>deleted_at\<close> (the columns are null).\<close>

definition insert_row :: "nostr_event \<Rightarrow> event_row" where
  "insert_row e = \<lparr>
     event_id = toBuffer (ev_id e),
     event_pubkey = toBuffer (ev_pubkey e),
     event_created_at = ev_created_at e,
     event_kind = ev_kind e,
     event_tags = ev_tags e,
     event_content = ev_content e,
     event_signature = toBuffer (ev_sig e),
     event_deduplication = None,
     remote_address = ev_context e,
     expires_at = ev_expiration e,
     deleted_at = None\<rparr>"

text \<open>\<open>JSON.stringify([pubkey, kind])\<close> or \<open>JSON.stringify(deduplication)\<close>.\<close>

definition deduplication_json :: "nostr_event \<Rightarrow> string" where
  "deduplication_json e =
     (case ev_dedup e of
        None \<Rightarrow> ''['' @ json_string (ev_pubkey e) @ '','' @ int_to_string (ev_kind e) @ '']''
      | Some d \<Rightarrow> json_array json_string d)"

definition upsert_row :: "nostr_event \<Rightarrow> event_row" where
  "upsert_row e = (insert_row e)\<lparr>event_deduplication := Some (deduplication_json e)\<rparr>"

definition toNostrEvent :: "event_row \<Rightarrow> nostr_event" where
  "toNostrEvent r = \<lparr>
     ev_id = fromBuffer (event_id r),
     ev_pubkey = fromBuffer (event_pubkey r),
     ev_created_at = event_created_at r,
     ev_kind = event_kind r,
     ev_tags = event_tags r,
     ev_sig = fromBuffer (event_signature r),
     ev_content = event_content r,
     ev_context = None, ev_expiration = None, ev_dedup = None\<rparr>"

section \<open>Statements\<close>

datatype statement =
    InsertIgnore event_row
  | InsertMerge event_row
  | SoftDelete buffer "buffer list"

text \<open>The predicate of the conflict target, \<open>WHERE (event_kind = 0 OR ...)\<close>.\<close>

definition in_conflict_target :: "event_row \<Rightarrow> bool" where
  "in_conflict_target r \<longleftrightarrow>
     (event_kind r = 0 \<or> event_kind r = 3 \<or> event_kind r = 41 \<or>
      (event_kind r \<ge> 10000 \<and> event_kind r < 20000)) \<or>
     (event_kind r \<ge> 30000 \<and> event_kind r < 40000)"

text \<open>\<open>merge(omit(['event_pubkey', 'event_kind', 'event_deduplication'])(row))\<close>.\<close>

definition merge_row :: "event_row \<Rightarrow> event_row \<Rightarrow> event_row" where
  "merge_row old new = new\<lparr>event_pubkey := event_pubkey old, event_kind := event_kind old,
     event_deduplication := event_deduplication old\<rparr>"

type_synonym 'db executor = "statement \<Rightarrow> 'db \<Rightarrow> nat result \<times> 'db"

text \<open>\<open>insert(event).then(prop('rowCount'), () => 0)\<close>: a rejection becomes the count 0.\<close>

definition create :: "'db executor \<Rightarrow> nostr_event \<Rightarrow> 'db \<Rightarrow> nat result \<times> 'db" where
  "create exec e db =
     (case exec (InsertIgnore (insert_row e)) db of
        (Inr rowCount, db') \<Rightarrow> (Inr rowCount, db')
      | (Inl _, db') \<Rightarrow> (Inr 0, db'))"

definition upsert :: "'db executor \<Rightarrow> nostr_event \<Rightarrow> 'db \<Rightarrow> nat result \<times> 'db" where
  "upsert exec e db = exec (InsertMerge (upsert_row e)) db"

definition deleteByPubkeyAndIds ::
    "'db executor \<Rightarrow> string \<Rightarrow> string list \<Rightarrow> 'db \<Rightarrow> nat result \<times> 'db" where
  "deleteByPubkeyAndIds exec pubkey eventIdsToDelete db =
     exec (SoftDelete (toBuffer pubkey) (map toBuffer eventIdsToDelete)) db"

section \<open>What the statements mean\<close>

definition same_slot :: "event_row \<Rightarrow> event_row \<Rightarrow> bool" where
  "same_slot r s \<longleftrightarrow> in_conflict_target r \<and> in_conflict_target s \<and>
     event_pubkey r = event_pubkey s \<and> event_kind r = event_kind s \<and>
     event_deduplication r \<noteq> None \<and> event_deduplication r = event_deduplication s"

text \<open>The update of the first conflicting row, and what it leaves in place when it is not older.\<close>

fun merge_first :: "event_row \<Rightarrow> event_row list \<Rightarrow> event_row list" where
  "merge_first r [] = []"
| "merge_first r (s # rows) = (if same_slot r s then merge_row s r # rows else s # merge_first r rows)"

definition duplicate_key :: "string \<Rightarrow> exn" where
  "duplicate_key idx = Err ''error''
     (''duplicate key value violates unique constraint '' @ [CHR 0x22] @ idx @ [CHR 0x22])"

definition soft_delete :: "int \<Rightarrow> buffer \<Rightarrow> buffer list \<Rightarrow> event_row \<Rightarrow> event_row" where
  "soft_delete t pk ids r =
     (if event_pubkey r = pk \<and> event_id r \<in> set ids \<and> deleted_at r = None
      then r\<lparr>deleted_at := Some t\<rparr> else r)"

text \<open>
  \<open>idx\<close> names the unique index on \<open>event_id\<close>, \<open>t\<close> is \<open>now()\<close>. \<open>INSERT ... ON CONFLICT DO NOTHING\<close>
  inserts unless some unique index would be violated. \<open>ON CONFLICT (target) DO UPDATE ... WHERE\<close>
  updates the row that holds the slot if it is older, unless the new \<open>event_id\<close> is taken.
\<close>

fun run_statement :: "string \<Rightarrow> int \<Rightarrow> statement \<Rightarrow> event_row list \<Rightarrow> nat result \<times> event_row list" where
  "run_statement idx t (InsertIgnore r) rows =
     (if list_ex (\<lambda>s. event_id s = event_id r \<or> same_slot r s) rows then (Inr 0, rows)
      else (Inr 1, rows @ [r]))"
| "run_statement idx t (InsertMerge r) rows =
     (case List.find (same_slot r) rows of
        Some s \<Rightarrow>
          if \<not> event_created_at s < event_created_at r then (Inr 0, rows)
          else if list_ex (\<lambda>s'. event_id s' = event_id r \<and> \<not> same_slot r s') rows
          then (Inl (duplicate_key idx), rows)
          else (Inr 1, merge_first r rows)
      | None \<Rightarrow>
          if list_ex (\<lambda>s. event_id s = event_id r) rows then (Inl (duplicate_key idx), rows)
          else (Inr 1, rows @ [r]))"
| "run_statement idx t (SoftDelete pk ids) rows =
     (Inr (length (filter (\<lambda>r. event_pubkey r = pk \<and> event_id r \<in> set ids \<and> deleted_at r = None) rows)),
      map (soft_delete t pk ids) rows)"

text \<open>The unique indexes.\<close>

definition table_ok :: "event_row list \<Rightarrow> bool" where
  "table_ok rows \<longleftrightarrow> distinct (map event_id rows) \<and>
     (\<forall>i j. i < j \<and> j < length rows \<longrightarrow> \<not> same_slot (rows ! i) (rows ! j))"

lemma same_slot_sym: "same_slot r s \<longleftrightarrow> same_slot s r"
  unfolding same_slot_def by (intro iffI; elim conjE; simp del: not_None_eq)

lemma same_slot_trans: "same_slot r s \<Longrightarrow> same_slot s q \<Longrightarrow> same_slot r q"
  unfolding same_slot_def by (elim conjE) (simp del: not_None_eq)

lemma table_ok_iff:
  "table_ok rows \<longleftrightarrow> distinct (map event_id rows) \<and> sorted_wrt (\<lambda>r s. \<not> same_slot r s) rows"
  by (auto simp: table_ok_def sorted_wrt_iff_nth_less)

lemma same_slot_merge_row: "same_slot r s \<Longrightarrow> same_slot (merge_row s r) q = same_slot r q"
  by (auto simp: same_slot_def merge_row_def in_conflict_target_def)

lemma merge_row_simps [simp]:
  "event_id (merge_row s r) = event_id r" "event_created_at (merge_row s r) = event_created_at r"
  "deleted_at (merge_row s r) = deleted_at r"
  by (simp_all add: merge_row_def)

lemma merge_row_same_slot: "same_slot r s \<Longrightarrow> merge_row s r = r"
  by (simp add: merge_row_def same_slot_def)

lemma soft_delete_simps [simp]:
  "event_id (soft_delete t pk ids r) = event_id r"
  "event_pubkey (soft_delete t pk ids r) = event_pubkey r"
  "event_created_at (soft_delete t pk ids r) = event_created_at r"
  "same_slot (soft_delete t pk ids r) s = same_slot r s"
  "same_slot s (soft_delete t pk ids r) = same_slot s r"
  by (auto simp: soft_delete_def same_slot_def in_conflict_target_def)

lemma merge_first_split:
  "(\<forall>u \<in> set us. \<not> same_slot r u) \<Longrightarrow> same_slot r s \<Longrightarrow>
     merge_first r (us @ s # vs) = us @ r # vs"
  by (induction us) (simp_all add: merge_row_same_slot)

lemma table_ok_split:
  assumes ok: "table_ok (us @ s # vs)" and slot: "same_slot r s"
    and fresh: "\<forall>q \<in> set us \<union> set vs. event_id q \<noteq> event_id r"
  shows "table_ok (us @ r # vs)"
proof -
  have "\<not> same_slot q r" if "q \<in> set us" for q
    using ok that slot same_slot_trans [of q r s]
    by (auto simp: table_ok_iff sorted_wrt_append)
  moreover have "\<not> same_slot r q" if "q \<in> set vs" for q
    using ok that slot same_slot_trans [of s r q] same_slot_sym [of r s]
    by (auto simp: table_ok_iff sorted_wrt_append)
  ultimately show ?thesis
    using ok fresh by (auto simp: table_ok_iff sorted_wrt_append image_iff)
qed

lemma find_slot_unique:
  assumes ok: "table_ok rows" and f: "List.find (same_slot r) rows = Some s"
  obtains us vs where "rows = us @ s # vs" "same_slot r s"
    "\<forall>u \<in> set us. \<not> same_slot r u" "\<forall>v \<in> set vs. \<not> same_slot r v"
proof -
  from f obtain us vs where rows: "rows = us @ s # vs" "same_slot r s" "\<forall>u \<in> set us. \<not> same_slot r u"
    unfolding find_Some_split by auto
  then have "\<forall>v \<in> set vs. \<not> same_slot r v"
    using ok same_slot_trans [of s r] same_slot_sym [of r s]
    by (auto simp: table_ok_iff sorted_wrt_append)
  with rows that show ?thesis by blast
qed

lemma run_statement_table_ok [inv_intros]:
  assumes ok: "table_ok rows"
  shows "table_ok (snd (run_statement idx t st rows))"
proof (cases st)
  case (InsertIgnore r)
  then show ?thesis using ok same_slot_sym
    by (auto simp: table_ok_iff sorted_wrt_append list_ex_iff)
next
  case (SoftDelete pk ids)
  then show ?thesis using ok by (simp add: table_ok_iff o_def sorted_wrt_map)
next
  case (InsertMerge r)
  show ?thesis
  proof (cases "List.find (same_slot r) rows")
    case None
    then have "\<forall>s \<in> set rows. \<not> same_slot s r"
      using same_slot_sym by (auto simp: find_None_iff_none)
    then show ?thesis using ok None InsertMerge
      by (auto simp: table_ok_iff sorted_wrt_append list_ex_iff)
  next
    case (Some s)
    then obtain us vs where rows: "rows = us @ s # vs" "same_slot r s"
        "\<forall>u \<in> set us. \<not> same_slot r u" "\<forall>v \<in> set vs. \<not> same_slot r v"
      using find_slot_unique ok by metis
    then show ?thesis using ok Some InsertMerge merge_first_split [OF rows(3,2)]
        table_ok_split [of us s vs r]
      by (auto simp: list_ex_iff)
  qed
qed


section \<open>The repository as an interface\<close>

text \<open>The methods of \<open>IEventRepository\<close> that write (\<open>findByFilters\<close> is in \<open>Event_Queries\<close>).\<close>

record 'db event_repository =
  repo_create :: "nostr_event \<Rightarrow> 'db \<Rightarrow> nat result \<times> 'db"
  repo_upsert :: "nostr_event \<Rightarrow> 'db \<Rightarrow> nat result \<times> 'db"
  repo_delete :: "string \<Rightarrow> string list \<Rightarrow> 'db \<Rightarrow> nat result \<times> 'db"

definition EventRepository :: "'db executor \<Rightarrow> 'db event_repository" where
  "EventRepository exec = \<lparr>repo_create = create exec, repo_upsert = upsert exec,
     repo_delete = deleteByPubkeyAndIds exec\<rparr>"

lemma EventRepository_simps [simp]:
  "repo_create (EventRepository exec) = create exec"
  "repo_upsert (EventRepository exec) = upsert exec"
  "repo_delete (EventRepository exec) = deleteByPubkeyAndIds exec"
  by (simp_all add: EventRepository_def)

text \<open>
  \<open>stores r rows rows'\<close>: the table \<open>rows'\<close> is \<open>rows\<close> with \<open>r\<close> added, or put in the place of an
  older row of the same slot; no other row has its id.
\<close>

definition stores :: "event_row \<Rightarrow> event_row list \<Rightarrow> event_row list \<Rightarrow> bool" where
  "stores r rows rows' \<longleftrightarrow>
     (rows' = rows @ [r] \<and> (\<forall>s \<in> set rows. \<not> same_slot r s \<and> event_id s \<noteq> event_id r)) \<or>
     (\<exists>us s vs. rows = us @ s # vs \<and> rows' = us @ r # vs \<and> same_slot r s \<and>
        event_created_at s < event_created_at r \<and>
        (\<forall>q \<in> set us \<union> set vs. event_id q \<noteq> event_id r \<and> \<not> same_slot r q))"

locale event_store =
  fixes repo :: "'db event_repository" and rows :: "'db \<Rightarrow> event_row list"
  assumes create_law:
      "table_ok (rows db) \<Longrightarrow> repo_create repo e db = (r, db') \<Longrightarrow>
         r = Inr 0 \<and> rows db' = rows db \<or>
         r = Inr 1 \<and> stores (insert_row e) (rows db) (rows db')"
    and upsert_law:
      "table_ok (rows db) \<Longrightarrow> repo_upsert repo e db = (r, db') \<Longrightarrow>
         (\<exists>x. r = Inl x) \<and> rows db' = rows db \<or>
         r = Inr 0 \<and> rows db' = rows db \<and>
           (\<exists>s \<in> set (rows db). same_slot (upsert_row e) s \<and> ev_created_at e \<le> event_created_at s) \<or>
         r = Inr 1 \<and> stores (upsert_row e) (rows db) (rows db')"
    and delete_law:
      "repo_delete repo pk ids db = (r, db') \<Longrightarrow>
         (\<exists>x. r = Inl x) \<and> rows db' = rows db \<or>
         (\<exists>n t. r = Inr n \<and> rows db' = map (soft_delete t (toBuffer pk) (map toBuffer ids)) (rows db))"

text \<open>Sequences of operations on the repository.\<close>

datatype repository_op =
    OpCreate nostr_event
  | OpUpsert nostr_event
  | OpDelete string "string list"

fun run_op :: "'db event_repository \<Rightarrow> repository_op \<Rightarrow> 'db \<Rightarrow> 'db" where
  "run_op repo (OpCreate e) db = snd (repo_create repo e db)"
| "run_op repo (OpUpsert e) db = snd (repo_upsert repo e db)"
| "run_op repo (OpDelete pk ids) db = snd (repo_delete repo pk ids db)"

definition run_ops :: "'db event_repository \<Rightarrow> repository_op list \<Rightarrow> 'db \<Rightarrow> 'db" where
  "run_ops repo ops db = fold (run_op repo) ops db"

text \<open>Upserts in sequence, with the events whose upsert did not fail.\<close>

fun run_upserts :: "'db event_repository \<Rightarrow> nostr_event list \<Rightarrow> 'db \<Rightarrow> nostr_event list \<times> 'db" where
  "run_upserts repo [] db = ([], db)"
| "run_upserts repo (e # es) db =
     (case repo_upsert repo e db of
        (r, db') \<Rightarrow>
          (case run_upserts repo es db' of
             (done_es, db'') \<Rightarrow> (case r of Inl _ \<Rightarrow> (done_es, db'') | Inr _ \<Rightarrow> (e # done_es, db''))))"

text \<open>The first of the newest events of a sequence.\<close>

definition pick_newer :: "nostr_event option \<Rightarrow> nostr_event \<Rightarrow> nostr_event option" where
  "pick_newer held e =
     (case held of None \<Rightarrow> Some e | Some b \<Rightarrow> if ev_created_at b < ev_created_at e then Some e else held)"

definition first_newest :: "nostr_event list \<Rightarrow> nostr_event option" where
  "first_newest es = foldl pick_newer None es"

lemma first_newest_snoc [simp]: "first_newest (es @ [e]) = pick_newer (first_newest es) e"
  by (simp add: first_newest_def)

lemma first_newest_Some:
  "first_newest es = Some e \<Longrightarrow>
     \<exists>us vs. es = us @ e # vs \<and> (\<forall>u \<in> set us. ev_created_at u < ev_created_at e) \<and>
       (\<forall>v \<in> set vs. ev_created_at v \<le> ev_created_at e)"
proof (induction es arbitrary: e rule: rev_induct)
  case Nil
  then show ?case by (simp add: first_newest_def)
next
  case (snoc x es)
  show ?case
  proof (cases "first_newest es")
    case None
    then have "es = []" by (induction es rule: rev_induct) (auto simp: pick_newer_def split: option.splits if_splits)
    with snoc.prems None show ?thesis
      by (intro exI [of _ "[]"]) (simp add: first_newest_def pick_newer_def)
  next
    case (Some b)
    from snoc.IH [OF Some] obtain us vs where b: "es = us @ b # vs"
      "\<forall>u \<in> set us. ev_created_at u < ev_created_at b" "\<forall>v \<in> set vs. ev_created_at v \<le> ev_created_at b"
      by blast
    show ?thesis
    proof (cases "ev_created_at b < ev_created_at x")
      case True
      then have "e = x" using snoc.prems Some by (simp add: pick_newer_def)
      with True b show ?thesis by (intro exI [of _ es] exI [of _ "[]"]) force
    next
      case False
      then have "e = b" using snoc.prems Some by (simp add: pick_newer_def)
      with False b show ?thesis by (intro exI [of _ us] exI [of _ "vs @ [x]"]) force
    qed
  qed
qed

lemma table_ok_append_new:
  "table_ok rows \<Longrightarrow> (\<forall>s \<in> set rows. \<not> same_slot r s \<and> event_id s \<noteq> event_id r) \<Longrightarrow>
     table_ok (rows @ [r])"
  using same_slot_sym by (auto simp: table_ok_iff sorted_wrt_append)

lemma stores_table_ok [inv_intros]:
  assumes "table_ok rows" and "stores r rows rows'"
  shows "table_ok rows'"
  using assms table_ok_append_new [of rows r] table_ok_split [of _ _ _ r]
  unfolding stores_def by (elim disjE conjE exE) auto

lemma soft_delete_table_ok [inv_intros]:
  "table_ok rows \<Longrightarrow> table_ok (map (soft_delete t pk ids) rows)"
  by (simp add: table_ok_iff o_def sorted_wrt_map)

lemma upsert_row_simps [simp]:
  "event_created_at (upsert_row e) = ev_created_at e" "event_id (upsert_row e) = toBuffer (ev_id e)"
  "event_created_at (insert_row e) = ev_created_at e" "event_id (insert_row e) = toBuffer (ev_id e)"
  by (simp_all add: upsert_row_def insert_row_def)

lemma insert_row_no_slot [simp]: "\<not> same_slot (insert_row e) s" "\<not> same_slot s (insert_row e)"
  by (auto simp: same_slot_def insert_row_def simp del: not_None_eq)

text \<open>A row outside the conflict target keeps its place when another row is stored.\<close>

lemma stores_keeps: "stores r rows rows' \<Longrightarrow> q \<in> set rows \<Longrightarrow> \<not> in_conflict_target q \<Longrightarrow> q \<in> set rows'"
  by (auto simp: stores_def same_slot_def)

lemma stores_find:
  assumes "stores r rows rows'" and "same_slot r0 r"
  shows "List.find (same_slot r0) rows' = Some r"
proof -
  have other: "\<not> same_slot r q \<Longrightarrow> \<not> same_slot r0 q" for q
    using assms(2) same_slot_sym same_slot_trans by meson
  show ?thesis
    using assms other unfolding stores_def find_Some_split
    by (elim disjE conjE exE) (metis list.set_intros UnCI)+
qed

text \<open>A deleted row of a regular event stays: it is outside the conflict target.\<close>

definition tombstone :: "event_row \<Rightarrow> bool" where
  "tombstone q \<longleftrightarrow> deleted_at q \<noteq> None \<and> \<not> in_conflict_target q"

context event_store
begin

lemma run_op_table_ok: "table_ok (rows db) \<Longrightarrow> table_ok (rows (run_op repo op db))"
proof (cases op)
  case (OpCreate e)
  assume ok: "table_ok (rows db)"
  show ?thesis
    using OpCreate create_law [OF ok, of e] ok stores_table_ok by (cases "repo_create repo e db") force
next
  case (OpUpsert e)
  assume ok: "table_ok (rows db)"
  show ?thesis
    using OpUpsert upsert_law [OF ok, of e] ok stores_table_ok by (cases "repo_upsert repo e db") force
next
  case (OpDelete pk ids)
  assume ok: "table_ok (rows db)"
  show ?thesis
    using OpDelete delete_law [of pk ids db] ok soft_delete_table_ok
    by (cases "repo_delete repo pk ids db") force
qed

lemma run_ops_table_ok: "table_ok (rows db) \<Longrightarrow> table_ok (rows (run_ops repo ops db))"
  unfolding run_ops_def by (induction ops arbitrary: db) (auto intro: run_op_table_ok)

lemma run_op_tombstone:
  assumes ok: "table_ok (rows db)" and q: "q \<in> set (rows db)" "tombstone q"
  shows "q \<in> set (rows (run_op repo op db))"
proof (cases op)
  case (OpCreate e)
  then show ?thesis
    using create_law [OF ok, of e] q stores_keeps unfolding tombstone_def
    by (cases "repo_create repo e db") fastforce
next
  case (OpUpsert e)
  then show ?thesis
    using upsert_law [OF ok, of e] q stores_keeps unfolding tombstone_def
    by (cases "repo_upsert repo e db") fastforce
next
  case (OpDelete pk ids)
  have "soft_delete t pk' ids' q = q" for t pk' ids'
    using q by (simp add: tombstone_def soft_delete_def)
  then have "q \<in> set (map (soft_delete t pk' ids') (rows db))" for t pk' ids'
    using q by (metis image_eqI set_map)
  with OpDelete show ?thesis
    using delete_law [of pk ids db] q by (cases "repo_delete repo pk ids db") fastforce
qed

lemma run_ops_tombstone:
  assumes "table_ok (rows db)" and "q \<in> set (rows db)" and "tombstone q"
  shows "q \<in> set (rows (run_ops repo ops db))"
  using assms unfolding run_ops_def
  by (induction ops arbitrary: db) (auto intro: run_op_table_ok run_op_tombstone)

lemma create_existing:
  assumes "table_ok (rows db)" and "q \<in> set (rows db)" and "event_id q = toBuffer (ev_id e)"
  shows "fst (repo_create repo e db) = Inr 0"
  using assms create_law [of db e] by (cases "repo_create repo e db") (auto simp: stores_def)

lemma upsert_slot:
  assumes ok: "table_ok (rows db)" and slot: "same_slot r0 (upsert_row e)"
    and held: "List.find (same_slot r0) (rows db) = map_option upsert_row held"
    and up: "repo_upsert repo e db = (r, db')"
  shows "List.find (same_slot r0) (rows db') =
    map_option upsert_row (case r of Inl _ \<Rightarrow> held | Inr _ \<Rightarrow> pick_newer held e)"
proof -
  consider (fail) x where "r = Inl x" "rows db' = rows db"
    | (old) s where "r = Inr 0" "rows db' = rows db" "s \<in> set (rows db)"
        "same_slot (upsert_row e) s" "ev_created_at e \<le> event_created_at s"
    | (new) "r = Inr 1" "stores (upsert_row e) (rows db) (rows db')"
    using upsert_law [OF ok up] by blast
  then show ?thesis
  proof cases
    case fail
    then show ?thesis using held by simp
  next
    case old
    then have s0: "same_slot r0 s" using slot same_slot_trans by blast
    then obtain t where t: "List.find (same_slot r0) (rows db) = Some t"
      using old(3) by (metis find_None_iff_none not_Some_eq)
    then obtain us vs where split: "rows db = us @ t # vs" "same_slot r0 t"
        "\<forall>u \<in> set us. \<not> same_slot r0 u" "\<forall>v \<in> set vs. \<not> same_slot r0 v"
      using find_slot_unique [OF ok t] by metis
    then have "s = t" using old(3) s0 by auto
    then obtain b where "held = Some b" "ev_created_at e \<le> ev_created_at b"
      using held t old(5) by (cases held) auto
    then show ?thesis using held old(1,2) by (simp add: pick_newer_def)
  next
    case new
    have "pick_newer held e = Some e"
    proof (cases held)
      case (Some b)
      then have b: "upsert_row b \<in> set (rows db)" "same_slot r0 (upsert_row b)"
        using held find_Some_D [of "same_slot r0" "rows db"] by simp_all
      then have "same_slot (upsert_row e) (upsert_row b)"
        using slot same_slot_sym same_slot_trans by meson
      then have "ev_created_at b < ev_created_at e"
        using new(2) b(1) by (auto simp: stores_def)
      then show ?thesis using Some by (simp add: pick_newer_def)
    qed (simp add: pick_newer_def)
    then show ?thesis using stores_find [OF new(2) slot] new(1) by simp
  qed
qed

lemma run_upserts_slot:
  assumes "table_ok (rows db)" and "\<forall>e \<in> set es. same_slot r0 (upsert_row e)"
    and "List.find (same_slot r0) (rows db) = map_option upsert_row held"
    and "run_upserts repo es db = (stored, db')"
  shows "List.find (same_slot r0) (rows db') = map_option upsert_row (foldl pick_newer held stored)"
  using assms
proof (induction es arbitrary: db held stored)
  case (Cons e es)
  obtain r db1 where up: "repo_upsert repo e db = (r, db1)" by force
  obtain stored1 where rest: "run_upserts repo es db1 = (stored1, db')"
      "stored = (case r of Inl _ \<Rightarrow> stored1 | Inr _ \<Rightarrow> e # stored1)"
    using Cons.prems(4) up by (auto split: prod.splits sum.splits)
  have ok: "table_ok (rows db1)" using run_op_table_ok [OF Cons.prems(1), of "OpUpsert e"] up by simp
  have "List.find (same_slot r0) (rows db1) =
      map_option upsert_row (case r of Inl _ \<Rightarrow> held | Inr _ \<Rightarrow> pick_newer held e)"
    using upsert_slot [OF Cons.prems(1) _ Cons.prems(3) up] Cons.prems(2) by simp
  from Cons.IH [OF ok _ this rest(1)] Cons.prems(2) rest(2) show ?case
    by (auto split: sum.splits)
qed simp

end


section \<open>The database behind the repository\<close>

text \<open>
  What the repository relies on of PostgreSQL: executing one of the three statements either fails,
  leaving the table as it was (the connection broke, a statement timed out, a value was rejected),
  or yields the count and the table of \<open>run_statement\<close>, for the index name \<open>idx\<close> and some value
  of \<open>now()\<close>.
\<close>

locale events_database =
  fixes exec :: "'db executor" and rows :: "'db \<Rightarrow> event_row list" and idx :: string
  assumes exec_law:
    "exec st db = (r, db') \<Longrightarrow>
       (\<exists>x. r = Inl x) \<and> rows db' = rows db \<or>
       (\<exists>t. (r, rows db') = run_statement idx t st (rows db))"

lemma run_insert_ignore:
  assumes "(r, rows') = run_statement idx t (InsertIgnore (insert_row e)) rows"
  shows "r = Inr 0 \<and> rows' = rows \<or> r = Inr 1 \<and> stores (insert_row e) rows rows'"
  using assms by (auto simp: stores_def list_ex_iff split: if_splits)

lemma run_insert_merge:
  assumes ok: "table_ok rows"
    and run: "(r, rows') = run_statement idx t (InsertMerge q) rows"
  shows "(\<exists>x. r = Inl x) \<and> rows' = rows \<or>
    r = Inr 0 \<and> rows' = rows \<and>
      (\<exists>s \<in> set rows. same_slot q s \<and> event_created_at q \<le> event_created_at s) \<or>
    r = Inr 1 \<and> stores q rows rows'"
proof (cases "List.find (same_slot q) rows")
  case None
  show ?thesis
  proof (cases "list_ex (\<lambda>s. event_id s = event_id q) rows")
    case True
    then show ?thesis using run None by simp
  next
    case False
    then have "stores q rows (rows @ [q])"
      using None by (simp add: stores_def list_ex_iff find_None_iff_none)
    then show ?thesis using run None False by simp
  qed
next
  case (Some s)
  then obtain us vs where split: "rows = us @ s # vs" "same_slot q s"
      "\<forall>u \<in> set us. \<not> same_slot q u" "\<forall>v \<in> set vs. \<not> same_slot q v"
    using find_slot_unique ok by metis
  show ?thesis
  proof (cases "event_created_at s < event_created_at q")
    case False
    then show ?thesis using run Some split by auto
  next
    case older: True
    show ?thesis
    proof (cases "list_ex (\<lambda>s'. event_id s' = event_id q \<and> \<not> same_slot q s') rows")
      case True
      then show ?thesis using run Some older by simp
    next
      case False
      then have "\<forall>p \<in> set us \<union> set vs. event_id p \<noteq> event_id q" using split by (auto simp: list_ex_iff)
      moreover have "rows' = us @ q # vs" "r = Inr 1"
        using run Some older False split merge_first_split [OF split(3,2)] by auto
      ultimately have "stores q rows rows'"
        using split older unfolding stores_def by blast
      with \<open>r = Inr 1\<close> show ?thesis by simp
    qed
  qed
qed

sublocale events_database \<subseteq> event_store "EventRepository exec" rows
proof (unfold_locales, goal_cases)
  case (1 db e r db')
  obtain r0 where ex: "exec (InsertIgnore (insert_row e)) db = (r0, db')"
      "r = (case r0 of Inl _ \<Rightarrow> Inr 0 | Inr n \<Rightarrow> Inr n)"
    using 1(2) by (auto simp: create_def split: prod.splits sum.splits)
  from exec_law [OF ex(1)] show ?case
  proof (elim disjE conjE exE)
    fix t
    assume "(r0, rows db') = run_statement idx t (InsertIgnore (insert_row e)) (rows db)"
    from run_insert_ignore [OF this] ex(2) show ?thesis by auto
  qed (use ex(2) in auto)
next
  case (2 db e r db')
  then have ex: "exec (InsertMerge (upsert_row e)) db = (r, db')" by (simp add: upsert_def)
  from exec_law [OF ex] show ?case
  proof (elim disjE conjE exE)
    fix t
    assume "(r, rows db') = run_statement idx t (InsertMerge (upsert_row e)) (rows db)"
    from run_insert_merge [OF 2(1) this] show ?thesis by simp
  qed auto
next
  case (3 pk ids db r db')
  then have "exec (SoftDelete (toBuffer pk) (map toBuffer ids)) db = (r, db')"
    by (simp add: deleteByPubkeyAndIds_def)
  from exec_law [OF this] show ?case by auto
qed

text \<open>
  A database that meets the law: the rows, the clock, and a schedule of faults, one flag per
  statement (an empty schedule means no more faults).
\<close>

record table_db =
  tb_rows :: "event_row list"
  tb_now :: int
  tb_faults :: "bool list"

definition table_exec :: "table_db executor" where
  "table_exec st db =
     (case tb_faults db of
        True # fs \<Rightarrow> (Inl (plain_error ''Connection terminated unexpectedly''), db\<lparr>tb_faults := fs\<rparr>)
      | fs \<Rightarrow>
          (case run_statement ''events_hot_event_id_idx'' (tb_now db) st (tb_rows db) of
             (r, rows') \<Rightarrow> (r, db\<lparr>tb_rows := rows', tb_now := tb_now db + 1, tb_faults := tl fs\<rparr>)))"

interpretation table: events_database table_exec tb_rows "''events_hot_event_id_idx''"
proof
  fix st and db db' :: table_db and r
  assume "table_exec st db = (r, db')"
  then show "(\<exists>x. r = Inl x) \<and> tb_rows db' = tb_rows db \<or>
      (\<exists>t. (r, tb_rows db') = run_statement ''events_hot_event_id_idx'' t st (tb_rows db))"
    by (auto simp: table_exec_def split: list.splits bool.splits prod.splits)
       (metis+)
qed

text \<open>The facts of \<open>event_store\<close> for a database, by name.\<close>

context events_database
begin

lemmas database_table_ok = run_ops_table_ok
lemmas database_tombstone = run_ops_tombstone
lemmas database_create_existing = create_existing
lemmas database_upserts_slot = run_upserts_slot
lemmas database_delete = delete_law

end

definition sample_id :: "char \<Rightarrow> string" where
  "sample_id c = replicate 64 c"

definition empty_table :: table_db where
  "empty_table = \<lparr>tb_rows = [], tb_now = 0, tb_faults = []\<rparr>"

lemma table_ok_Nil [simp]: "table_ok []"
  by (simp add: table_ok_def)

section \<open>Properties\<close>



text \<open>
  C4. Replaceable events: after any sequence of upserts for one author, kind and deduplication value
  that starts with the slot free, the slot holds the first of the newest events among those whose
  upsert did not fail, and nothing if all failed. Neither the order of arrival nor failures in
  between let an older event replace a newer one.
\<close>

theorem newest_replaceable_wins:
  assumes "events_database exec rows idx" and "table_ok (rows db)"
    and "\<forall>e \<in> set es. same_slot (upsert_row e0) (upsert_row e)"
    and "List.find (same_slot (upsert_row e0)) (rows db) = None"
    and "run_upserts (EventRepository exec) es db = (stored, db')"
  shows "List.find (same_slot (upsert_row e0)) (rows db') = map_option upsert_row (first_newest stored)"
  using events_database.database_upserts_slot [OF assms(1-3), of None] assms(4,5)
  by (simp add: first_newest_def)

theorem newest_replaceable_wins_witness:
  "(let e = sample_event\<lparr>ev_kind := 0\<rparr>;
        newer = e\<lparr>ev_id := sample_id (CHR ''c''), ev_created_at := 1800000000\<rparr>;
        older = e\<lparr>ev_id := sample_id (CHR ''d''), ev_created_at := 1600000000\<rparr> in
    List.find (same_slot (upsert_row e))
      (tb_rows (snd (run_upserts (EventRepository table_exec) [e, newer, older] empty_table))) =
      Some (upsert_row newer))"
proof -
  let ?e = "sample_event\<lparr>ev_kind := 0\<rparr>"
  let ?es = "[?e, ?e\<lparr>ev_id := sample_id (CHR ''c''), ev_created_at := 1800000000\<rparr>,
    ?e\<lparr>ev_id := sample_id (CHR ''d''), ev_created_at := 1600000000\<rparr>]"
  let ?run = "run_upserts (EventRepository table_exec) ?es empty_table"
  have slot: "\<forall>e \<in> set ?es. same_slot (upsert_row ?e) (upsert_row e)"
    by (simp add: same_slot_def upsert_row_def insert_row_def deduplication_json_def sample_event_def
        in_conflict_target_def)
  have stored: "fst ?run = ?es" by code_simp
  show ?thesis
    using newest_replaceable_wins [OF table.events_database_axioms _ slot _ prod.collapse [symmetric], of empty_table]
    unfolding stored Let_def
    by (simp add: empty_table_def first_newest_def pick_newer_def sample_event_def)
qed

text \<open>
  Deletion reaches only the author's own events: when \<open>deleteByPubkeyAndIds\<close> succeeds, a row is
  marked as deleted if its author is the given one and its id is named, every other row is as it
  was, and nothing but the mark changes.
\<close>

theorem deletion_scope:
  assumes "events_database exec rows idx"
    and "deleteByPubkeyAndIds exec pubkey ids db = (Inr n, db')"
  shows "list_all2
    (\<lambda>r r'. if event_pubkey r = toBuffer pubkey \<and> event_id r \<in> toBuffer ` set ids
            then deleted_at r' \<noteq> None \<and> r' = r\<lparr>deleted_at := deleted_at r'\<rparr> else r' = r)
    (rows db) (rows db')"
proof -
  obtain t where "rows db' = map (soft_delete t (toBuffer pubkey) (map toBuffer ids)) (rows db)"
    using events_database.database_delete [OF assms(1)] assms(2) by fastforce
  then show ?thesis
    by (simp add: list_all2_map2 soft_delete_def list.rel_refl)
qed

theorem deletion_scope_witness:
  "(let db = snd (create table_exec sample_event empty_table) in
    map deleted_at (tb_rows (snd (deleteByPubkeyAndIds table_exec (ev_pubkey sample_event)
      [ev_id sample_event] db))) \<noteq> [None])"
proof -
  let ?db = "snd (create table_exec sample_event empty_table)"
  let ?run = "deleteByPubkeyAndIds table_exec (ev_pubkey sample_event) [ev_id sample_event] ?db"
  have run: "?run = (Inr 1, snd ?run)" by code_simp
  have rows: "tb_rows ?db = [insert_row sample_event]" by code_simp
  from deletion_scope [OF table.events_database_axioms run]
  show ?thesis unfolding rows Let_def
    by (auto simp: list_all2_Cons1 insert_row_def)
qed

text \<open>
  C5. Deletion is permanent: a deleted row of a regular event survives every further operation, and
  storing the same event again is answered with the count 0, so it is never delivered again.
\<close>

theorem deleted_stays_deleted:
  assumes "events_database exec rows idx" and "table_ok (rows db)"
    and "q \<in> set (rows db)" and "deleted_at q \<noteq> None" and "\<not> in_conflict_target q"
    and "toBuffer (ev_id e) = event_id q"
  shows "q \<in> set (rows (run_ops (EventRepository exec) ops db)) \<and>
    fst (create exec e (run_ops (EventRepository exec) ops db)) = Inr 0"
proof -
  note q = events_database.database_tombstone [OF assms(1-3), unfolded tombstone_def, OF conjI [OF assms(4,5)]]
  show ?thesis
    using q events_database.database_create_existing [OF assms(1)
        events_database.database_table_ok [OF assms(1,2)] q, of e] assms(6) by simp
qed

theorem deleted_stays_deleted_witness:
  "(let db = run_ops (EventRepository table_exec)
         [OpCreate sample_event, OpDelete (ev_pubkey sample_event) [ev_id sample_event]] empty_table in
    fst (create table_exec sample_event
      (run_ops (EventRepository table_exec) [OpCreate (sample_event\<lparr>ev_id := sample_id (CHR ''c'')\<rparr>)] db)) = Inr 0)"
proof -
  let ?ops = "[OpCreate sample_event, OpDelete (ev_pubkey sample_event) [ev_id sample_event]]"
  let ?db = "run_ops (EventRepository table_exec) ?ops empty_table"
  let ?q = "(insert_row sample_event)\<lparr>deleted_at := Some 1\<rparr>"
  have "table_ok (tb_rows ?db)"
    by (rule events_database.database_table_ok [OF table.events_database_axioms])
       (simp add: empty_table_def)
  moreover have "?q \<in> set (tb_rows ?db)" by code_simp
  ultimately show ?thesis unfolding Let_def
    by (intro conjunct2 [OF deleted_stays_deleted [OF table.events_database_axioms, of _ ?q]])
       (simp_all add: insert_row_def in_conflict_target_def sample_event_def)
qed

end
