(* ===== verification/Event_Strategies.thy ===== *)
theory Event_Strategies
  imports Event_Repository
begin

text \<open>
  \<open>src/handlers/event-strategies/\<close> and the two strategy factories: what the relay does with an
  accepted event, by the class of its kind. A strategy talks to its client through the web socket
  adapter (\<open>webSocket.emit(...)\<close>, \<open>setClientToAuthenticated()\<close>); those calls are the
  \<open>adapter_action\<close>s of its outcome, in order. The other parts of an outcome are the result of the
  promise (rejected or not) and the state of the world the repository works on.
\<close>

section \<open>Outcomes\<close>

datatype adapter_action =
    EmitMessage outgoing_message
  | EmitBroadcast nostr_event
  | EmitSubscribe string "subscription_filter list"
  | EmitUnsubscribe string
  | SetClientToAuthenticated

type_synonym 'w outcome = "adapter_action list \<times> unit result \<times> 'w"

text \<open>\<open>getClientAuthChallengeData()\<close>: challenge and creation time in milliseconds.\<close>

record auth_challenge =
  ac_challenge :: string
  ac_createdAt :: int

section \<open>The strategies\<close>

definition stored_reply :: "nostr_event \<Rightarrow> nat \<Rightarrow> adapter_action list" where
  "stored_reply e count =
     EmitMessage (createCommandResult (ev_id e) True (if count \<noteq> 0 then '''' else ''duplicate:'')) #
     (if count \<noteq> 0 then [EmitBroadcast e] else [])"

definition default_execute :: "'w event_repository \<Rightarrow> nostr_event \<Rightarrow> 'w \<Rightarrow> 'w outcome" where
  "default_execute repo e w =
     (case repo_create repo e w of
        (Inl x, w') \<Rightarrow> ([], Inl x, w')
      | (Inr count, w') \<Rightarrow> (stored_reply e count, Inr (), w'))"

text \<open>\<open>/^[0-9a-f]{64}$/.test(tag[1])\<close> of a tag \<open>e\<close>.\<close>

definition isValidETag :: "tag \<Rightarrow> bool" where
  "isValidETag t \<longleftrightarrow>
     named_tag EventTag t \<and> (case js_nth t 1 of None \<Rightarrow> False | Some v \<Rightarrow> is_lower_hex 64 v)"

definition eventIdsToDelete :: "nostr_event \<Rightarrow> string list" where
  "eventIdsToDelete e =
     foldl (\<lambda>eventIds t. if isValidETag t then eventIds @ [t ! 1] else eventIds) [] (ev_tags e)"

definition delete_execute :: "'w event_repository \<Rightarrow> nostr_event \<Rightarrow> 'w \<Rightarrow> 'w outcome" where
  "delete_execute repo e w =
     (case (if eventIdsToDelete e \<noteq> [] then repo_delete repo (ev_pubkey e) (eventIdsToDelete e) w
            else (Inr 0, w)) of
        (Inl x, w1) \<Rightarrow> ([], Inl x, w1)
      | (Inr _, w1) \<Rightarrow>
          (case repo_create repo e w1 of
             (Inl x, w2) \<Rightarrow> ([], Inl x, w2)
           | (Inr count, w2) \<Rightarrow> (stored_reply e count, Inr (), w2)))"

definition ephemeral_execute :: "nostr_event \<Rightarrow> 'w \<Rightarrow> 'w outcome" where
  "ephemeral_execute e w =
     ([EmitMessage (createCommandResult (ev_id e) True ''''), EmitBroadcast e], Inr (), w)"

text \<open>\<open>[, ...deduplication]\<close> of the first \<open>d\<close> tag with a value, or of \<open>[null, '']\<close>.\<close>

definition deduplication :: "nostr_event \<Rightarrow> string list" where
  "deduplication e =
     (case List.find (named_tag DeduplicationTag) (ev_tags e) of None \<Rightarrow> [''''] | Some t \<Rightarrow> tl t)"

definition parameterized_execute :: "'w event_repository \<Rightarrow> nostr_event \<Rightarrow> 'w \<Rightarrow> 'w outcome" where
  "parameterized_execute repo e w =
     (case repo_upsert repo (e\<lparr>ev_dedup := Some (deduplication e)\<rparr>) w of
        (Inl x, w') \<Rightarrow> ([], Inl x, w')
      | (Inr count, w') \<Rightarrow> (stored_reply e count, Inr (), w'))"

definition event_id_unique_message :: string where
  "event_id_unique_message =
     ''duplicate key value violates unique constraint '' @ [CHR 0x22] @ ''events_event_id_unique'' @ [CHR 0x22]"

definition replaceable_execute :: "'w event_repository \<Rightarrow> nostr_event \<Rightarrow> 'w \<Rightarrow> 'w outcome" where
  "replaceable_execute repo e w =
     (case repo_upsert repo e w of
        (Inr count, w') \<Rightarrow> (stored_reply e count, Inr (), w')
      | (Inl NonErr, w') \<Rightarrow> ([], Inr (), w')
      | (Inl (Err name message), w') \<Rightarrow>
          if suffix event_id_unique_message message
          then ([EmitMessage (createCommandResult (ev_id e) False ''rejected: event already exists'')], Inr (), w')
          else ([EmitMessage (createCommandResult (ev_id e) False ''error: '')], Inr (), w'))"

definition permittedChallengeResponseTimeDelayMs :: int where
  "permittedChallengeResponseTimeDelayMs = 1000 * 60 * 10"

text \<open>Destructuring an undefined challenge throws.\<close>

definition signed_auth_execute ::
    "auth_challenge option \<Rightarrow> int \<Rightarrow> nostr_event \<Rightarrow> 'w \<Rightarrow> 'w outcome" where
  "signed_auth_execute challenge_data now_ms e w =
     (case challenge_data of
        None \<Rightarrow> ([], Inl (type_error ''Cannot destructure property 'challenge' of undefined''), w)
      | Some d \<Rightarrow>
          let verified = isValidSignedAuthEvent e (ac_challenge d);
              timeIsWithinBounds = (ac_createdAt d + permittedChallengeResponseTimeDelayMs > now_ms) in
          if verified \<and> timeIsWithinBounds
          then ([SetClientToAuthenticated,
                 EmitMessage (createCommandResult (ev_id e) True ''authentication: succeeded'')], Inr (), w)
          else ([EmitMessage (createCommandResult (ev_id e) False ''authentication: failed'')], Inr (), w))"

section \<open>The factories\<close>

datatype event_strategy =
    ReplaceableEventStrategy
  | EphemeralEventStrategy
  | DeleteEventStrategy
  | ParameterizedReplaceableEventStrategy
  | DefaultEventStrategy
  | SignedAuthEventStrategy

definition eventStrategyFactory :: "nostr_event \<Rightarrow> event_strategy" where
  "eventStrategyFactory e =
     (if isReplaceableEvent e then ReplaceableEventStrategy
      else if isEphemeralEvent e then EphemeralEventStrategy
      else if isDeleteEvent e then DeleteEventStrategy
      else if isParameterizedReplaceableEvent e then ParameterizedReplaceableEventStrategy
      else DefaultEventStrategy)"

definition signedAuthEventStrategyFactory :: "nostr_event \<Rightarrow> event_strategy" where
  "signedAuthEventStrategyFactory e = SignedAuthEventStrategy"

fun execute :: "'w event_repository \<Rightarrow> auth_challenge option \<Rightarrow> int \<Rightarrow> event_strategy \<Rightarrow>
    nostr_event \<Rightarrow> 'w \<Rightarrow> 'w outcome" where
  "execute repo ch now_ms ReplaceableEventStrategy e w = replaceable_execute repo e w"
| "execute repo ch now_ms EphemeralEventStrategy e w = ephemeral_execute e w"
| "execute repo ch now_ms DeleteEventStrategy e w = delete_execute repo e w"
| "execute repo ch now_ms ParameterizedReplaceableEventStrategy e w = parameterized_execute repo e w"
| "execute repo ch now_ms DefaultEventStrategy e w = default_execute repo e w"
| "execute repo ch now_ms SignedAuthEventStrategy e w = signed_auth_execute ch now_ms e w"

lemmas strategy_defs = default_execute_def delete_execute_def ephemeral_execute_def
  parameterized_execute_def replaceable_execute_def signed_auth_execute_def

section \<open>Lemmas\<close>

lemma eventIdsToDelete_eq: "eventIdsToDelete e = map (\<lambda>t. t ! 1) (filter isValidETag (ev_tags e))"
proof -
  have "foldl (\<lambda>ids t. if isValidETag t then ids @ [t ! 1] else ids) acc ts =
      acc @ map (\<lambda>t. t ! 1) (filter isValidETag ts)" for acc ts
    by (induction ts arbitrary: acc) auto
  then show ?thesis by (simp add: eventIdsToDelete_def)
qed

lemma isValidETag_iff: "isValidETag t \<longleftrightarrow> (\<exists>v r. t = ''e'' # v # r \<and> is_lower_hex 64 v)"
  by (auto simp: isValidETag_def named_tag_iff)

lemma in_eventIdsToDelete:
  "v \<in> set (eventIdsToDelete e) \<longleftrightarrow> is_lower_hex 64 v \<and> (\<exists>r. (''e'' # v # r) \<in> set (ev_tags e))"
  by (force simp: eventIdsToDelete_eq isValidETag_iff image_iff)

text \<open>Acknowledgements, and what a strategy does when it ends normally.\<close>

fun is_ok_reply :: "string \<Rightarrow> adapter_action \<Rightarrow> bool" where
  "is_ok_reply i (EmitMessage (OutOk j b m)) \<longleftrightarrow> j = i"
| "is_ok_reply i a \<longleftrightarrow> False"

definition reply_count :: "string \<Rightarrow> adapter_action list \<Rightarrow> nat" where
  "reply_count i acts = length (filter (is_ok_reply i) acts)"

lemma reply_count_simps [simp]:
  "reply_count i [] = 0"
  "reply_count i (EmitMessage (OutOk j b m) # acts) = (if i = j then 1 else 0) + reply_count i acts"
  "reply_count i (EmitBroadcast e # acts) = reply_count i acts"
  "reply_count i (SetClientToAuthenticated # acts) = reply_count i acts"
  by (auto simp: reply_count_def)

lemma stored_reply_simps [simp]:
  "reply_count (ev_id e) (stored_reply e n) = 1"
  "EmitBroadcast e' \<in> set (stored_reply e n) \<longleftrightarrow> n \<noteq> 0 \<and> e' = e"
  "EmitMessage (OutOk i b m) \<in> set (stored_reply e n) \<longleftrightarrow>
     i = ev_id e \<and> b \<and> m = (if n \<noteq> 0 then '''' else ''duplicate:'')"
  "SetClientToAuthenticated \<notin> set (stored_reply e n)"
  by (auto simp: stored_reply_def reply_simps)

lemma execute_one_reply:
  assumes "execute repo ch now_ms s e w = (acts, Inr (), w')"
    and "fst (repo_upsert repo e w) \<noteq> Inl NonErr"
  shows "reply_count (ev_id e) acts = 1"
  using assms by (cases s)
    (auto simp: strategy_defs reply_simps Let_def split: prod.splits sum.splits exn.splits if_splits option.splits)


lemma event_id_upsert_dedup [simp]:
  "event_id (upsert_row (e\<lparr>ev_dedup := d\<rparr>)) = toBuffer (ev_id e)"
  by simp

lemma stores_entered:
  "stores r rows rows' \<Longrightarrow> event_id r = i \<Longrightarrow> \<exists>q \<in> set rows'. event_id q = i \<and> q \<notin> set rows"
  by (rule bexI [of _ r]) (auto simp: stores_def)

context event_store
begin

lemma create_broadcast:
  assumes "table_ok (rows w)" and "repo_create repo e w = (Inr count, w')" and "count \<noteq> 0"
  shows "stores (insert_row e) (rows w) (rows w')"
  using create_law [OF assms(1,2)] assms(3) by auto

lemma upsert_broadcast:
  assumes "table_ok (rows w)" and "repo_upsert repo e w = (Inr count, w')" and "count \<noteq> 0"
  shows "stores (upsert_row e) (rows w) (rows w')"
  using upsert_law [OF assms(1,2)] assms(3) by auto

text \<open>What a strategy broadcasts is the event itself, ephemeral or newly in the table.\<close>

lemma execute_broadcast:
  assumes ok: "table_ok (rows w)" and run: "execute repo ch now_ms s e w = (acts, res, w')"
    and b: "EmitBroadcast e' \<in> set acts"
  shows "e' = e \<and> res = Inr () \<and>
    (s = EphemeralEventStrategy \<or> (\<exists>r \<in> set (rows w'). event_id r = toBuffer (ev_id e) \<and> r \<notin> set (rows w)))"
proof (cases s)
  case ReplaceableEventStrategy
  then obtain count where "repo_upsert repo e w = (Inr count, w')" "count \<noteq> 0" "acts = stored_reply e count" "res = Inr ()"
    using run b by (auto simp: strategy_defs split: prod.splits sum.splits exn.splits if_splits)
  then show ?thesis using stores_entered [OF upsert_broadcast [OF ok], of e count w'] b by simp
next
  case EphemeralEventStrategy
  then show ?thesis using run b by (auto simp: strategy_defs)
next
  case DeleteEventStrategy
  then obtain d w1 count where d: "(if eventIdsToDelete e \<noteq> [] then repo_delete repo (ev_pubkey e) (eventIdsToDelete e) w
         else (Inr 0, w)) = (d, w1)"
      and c: "repo_create repo e w1 = (Inr count, w')" "count \<noteq> 0" "acts = stored_reply e count" "res = Inr ()"
    using run b by (auto simp: strategy_defs split: prod.splits sum.splits if_splits)
  have kept: "event_id ` set (rows w1) = event_id ` set (rows w)"
  proof (cases "eventIdsToDelete e = []")
    case False
    then have "repo_delete repo (ev_pubkey e) (eventIdsToDelete e) w = (d, w1)" using d by simp
    from delete_law [OF this] show ?thesis by (elim disjE conjE exE) (simp_all add: image_image)
  qed (use d in simp)
  have ok1: "table_ok (rows w1)"
    using d ok run_op_table_ok [OF ok, of "OpDelete (ev_pubkey e) (eventIdsToDelete e)"]
    by (auto split: if_splits)
  have st: "stores (insert_row e) (rows w1) (rows w')" using create_broadcast [OF ok1 c(1,2)] .
  then have "event_id (insert_row e) \<notin> event_id ` set (rows w1)" "insert_row e \<in> set (rows w')"
    by (auto simp: stores_def)
  then have "insert_row e \<notin> set (rows w)" "insert_row e \<in> set (rows w')"
    unfolding kept by (auto dest: imageI [of _ _ event_id])
  moreover have "e' = e" using c b by simp
  ultimately show ?thesis using c(4) upsert_row_simps(4) by blast
next
  case ParameterizedReplaceableEventStrategy
  then obtain count where "repo_upsert repo (e\<lparr>ev_dedup := Some (deduplication e)\<rparr>) w = (Inr count, w')"
      "count \<noteq> 0" "acts = stored_reply e count" "res = Inr ()"
    using run b by (auto simp: strategy_defs split: prod.splits sum.splits if_splits)
  then show ?thesis
    using stores_entered [OF upsert_broadcast [OF ok], of "e\<lparr>ev_dedup := Some (deduplication e)\<rparr>" count w'] b
    by simp
next
  case DefaultEventStrategy
  then obtain count where "repo_create repo e w = (Inr count, w')" "count \<noteq> 0" "acts = stored_reply e count" "res = Inr ()"
    using run b by (auto simp: strategy_defs split: prod.splits sum.splits if_splits)
  then show ?thesis using stores_entered [OF create_broadcast [OF ok], of e count w'] b by simp
next
  case SignedAuthEventStrategy
  then show ?thesis using run b by (auto simp: strategy_defs Let_def split: option.splits if_splits)
qed

lemma execute_table_ok:
  assumes ok: "table_ok (rows w)" and run: "execute repo ch now_ms s e w = (acts, res, w')"
  shows "table_ok (rows w')"
proof -
  note op = run_op_table_ok [OF ok]
  show ?thesis
  proof (cases s)
    case DeleteEventStrategy
    let ?d = "if eventIdsToDelete e \<noteq> [] then repo_delete repo (ev_pubkey e) (eventIdsToDelete e) w else (Inr 0, w)"
    have "table_ok (rows (snd ?d))"
      using ok op [of "OpDelete (ev_pubkey e) (eventIdsToDelete e)"] by simp
    then have "table_ok (rows (snd (repo_create repo e (snd ?d))))"
      using run_op_table_ok [of "snd ?d" "OpCreate e"] by simp
    with \<open>table_ok (rows (snd ?d))\<close> show ?thesis
      using run DeleteEventStrategy by (auto simp: strategy_defs split: prod.splits sum.splits if_splits)
  qed (use run ok op [of "OpCreate e"] op [of "OpUpsert e"]
        op [of "OpUpsert (e\<lparr>ev_dedup := Some (deduplication e)\<rparr>)"] in
      \<open>auto simp: strategy_defs Let_def split: prod.splits sum.splits exn.splits if_splits option.splits\<close>)
qed

lemma delete_execute_scope:
  assumes ok: "table_ok (rows w)" and run: "delete_execute repo e w = (acts, Inr (), w')"
    and q: "q \<in> set (rows w)"
  shows "if event_pubkey q = toBuffer (ev_pubkey e) \<and> event_id q \<in> toBuffer ` set (eventIdsToDelete e)
    then \<exists>t. q\<lparr>deleted_at := Some t\<rparr> \<in> set (rows w') else q \<in> set (rows w')"
proof -
  let ?named = "event_pubkey q = toBuffer (ev_pubkey e) \<and> event_id q \<in> toBuffer ` set (eventIdsToDelete e)"
  obtain n w1 count where d: "(if eventIdsToDelete e \<noteq> [] then repo_delete repo (ev_pubkey e) (eventIdsToDelete e) w
         else (Inr 0, w)) = (Inr n, w1)" and c: "repo_create repo e w1 = (Inr count, w')"
    using run by (auto simp: delete_execute_def split: prod.splits sum.splits if_splits)
  have ok1: "table_ok (rows w1)"
    using d ok run_op_table_ok [OF ok, of "OpDelete (ev_pubkey e) (eventIdsToDelete e)"]
    by (auto split: if_splits)
  have keep: "set (rows w1) \<subseteq> set (rows w')"
    using create_law [OF ok1 c] by (auto simp: stores_def)
  have "if ?named then \<exists>t. q\<lparr>deleted_at := Some t\<rparr> \<in> set (rows w1) else q \<in> set (rows w1)"
  proof (cases "eventIdsToDelete e = []")
    case True
    then show ?thesis using d q by simp
  next
    case False
    then obtain t where rows: "rows w1 = map (soft_delete t (toBuffer (ev_pubkey e)) (map toBuffer (eventIdsToDelete e))) (rows w)"
      using d delete_law [of "ev_pubkey e" "eventIdsToDelete e" w "Inr n" w1] by auto
    have in1: "soft_delete t (toBuffer (ev_pubkey e)) (map toBuffer (eventIdsToDelete e)) q \<in> set (rows w1)"
      using q rows by simp
    show ?thesis
    proof (cases ?named)
      case True
      have "\<exists>t'. soft_delete t (toBuffer (ev_pubkey e)) (map toBuffer (eventIdsToDelete e)) q = q\<lparr>deleted_at := Some t'\<rparr>"
      proof (cases "deleted_at q")
        case None
        then show ?thesis using True by (auto simp: soft_delete_def)
      next
        case (Some a)
        then have "q = q\<lparr>deleted_at := Some a\<rparr>" by simp
        moreover have "soft_delete t (toBuffer (ev_pubkey e)) (map toBuffer (eventIdsToDelete e)) q = q"
          using Some by (simp add: soft_delete_def)
        ultimately show ?thesis by metis
      qed
      then show ?thesis using True in1 by auto
    next
      case False
      then have "soft_delete t (toBuffer (ev_pubkey e)) (map toBuffer (eventIdsToDelete e)) q = q"
        by (auto simp: soft_delete_def)
      then have "q \<in> set (rows w1)" using in1 by simp
      then show ?thesis using False by presburger
    qed
  qed
  with keep show ?thesis by (auto split: if_splits)
qed

end

context events_database
begin

lemmas database_execute_broadcast = execute_broadcast
lemmas database_execute_table_ok = execute_table_ok
lemmas database_delete_scope = delete_execute_scope

end

section \<open>Properties\<close>

text \<open>
  C3. Only what was stored is broadcast: whatever the database does, when the strategy chosen for an
  event emits a broadcast, it is of that event, and the event is ephemeral or its row has just
  entered the table; duplicates, superseded replaceable events and failed writes are never relayed.
\<close>

theorem broadcast_only_when_stored:
  assumes "events_database exec rows idx" and "table_ok (rows w)"
    and "execute (EventRepository exec) ch now_ms (eventStrategyFactory e) e w = (acts, res, w')"
    and "EmitBroadcast e' \<in> set acts"
  shows "e' = e \<and> (isEphemeralEvent e \<or>
    (\<exists>r \<in> set (rows w'). event_id r = toBuffer (ev_id e) \<and> r \<notin> set (rows w)))"
proof -
  have "eventStrategyFactory e = EphemeralEventStrategy \<Longrightarrow> isEphemeralEvent e"
    by (simp add: eventStrategyFactory_def split: if_splits)
  then show ?thesis
    using events_database.database_execute_broadcast [OF assms] by blast
qed

theorem broadcast_only_when_stored_witness:
  "\<exists>r \<in> set (tb_rows (snd (snd (execute (EventRepository table_exec) None 0
     (eventStrategyFactory sample_event) sample_event empty_table)))). event_id r = toBuffer (ev_id sample_event)"
proof -
  let ?run = "execute (EventRepository table_exec) None 0 (eventStrategyFactory sample_event) sample_event empty_table"
  have acts: "fst ?run = stored_reply sample_event 1" by code_simp
  have eph: "\<not> isEphemeralEvent sample_event" by code_simp
  have run: "?run = (fst ?run, fst (snd ?run), snd (snd ?run))" by simp
  have "EmitBroadcast sample_event \<in> set (fst ?run)" unfolding acts by simp
  from broadcast_only_when_stored [OF table.events_database_axioms _ run this] eph
  show ?thesis by (auto simp: empty_table_def)
qed

text \<open>
  C6. Deletion requests (NIP-09): when the strategy for a delete event ends normally, exactly the
  stored rows of the same author that a well-formed \<open>e\<close> tag of the event names are marked deleted;
  rows of other authors, and rows named by tags whose value is not 64 lower-case hexadecimal digits,
  stay as they are.
\<close>

theorem delete_event_scope:
  assumes "events_database exec rows idx" and "table_ok (rows w)"
    and "execute (EventRepository exec) ch now_ms DeleteEventStrategy e w = (acts, Inr (), w')"
    and "q \<in> set (rows w)"
  shows "if event_pubkey q = toBuffer (ev_pubkey e) \<and>
        (\<exists>v r. (''e'' # v # r) \<in> set (ev_tags e) \<and> is_lower_hex 64 v \<and> event_id q = toBuffer v)
    then \<exists>t. q\<lparr>deleted_at := Some t\<rparr> \<in> set (rows w') else q \<in> set (rows w')"
proof -
  have "event_id q \<in> toBuffer ` set (eventIdsToDelete e) \<longleftrightarrow>
      (\<exists>v r. (''e'' # v # r) \<in> set (ev_tags e) \<and> is_lower_hex 64 v \<and> event_id q = toBuffer v)"
    by (auto simp: image_iff Bex_def in_eventIdsToDelete)
  then show ?thesis
    using events_database.database_delete_scope [OF assms(1,2) _ assms(4), of e acts w'] assms(3) by simp
qed

definition delete_sample :: nostr_event where
  "delete_sample = sample_event\<lparr>ev_id := sample_id (CHR ''d''), ev_kind := 5,
     ev_tags := [[''e'', ev_id sample_event]]\<rparr>"

theorem delete_event_scope_witness:
  "(let w = snd (create table_exec sample_event empty_table);
        w' = snd (snd (execute (EventRepository table_exec) None 0 DeleteEventStrategy delete_sample w)) in
    \<exists>r \<in> set (tb_rows w'). event_id r = toBuffer (ev_id sample_event) \<and> deleted_at r \<noteq> None)"
proof -
  let ?w = "snd (create table_exec sample_event empty_table)"
  let ?run = "execute (EventRepository table_exec) None 0 DeleteEventStrategy delete_sample ?w"
  have run: "?run = (fst ?run, Inr (), snd (snd ?run))" by code_simp
  have rows: "tb_rows ?w = [insert_row sample_event]" by code_simp
  have ok: "table_ok (tb_rows ?w)" unfolding rows by (simp add: table_ok_def)
  have q: "insert_row sample_event \<in> set (tb_rows ?w)" unfolding rows by simp
  have hex: "is_lower_hex 64 (ev_id sample_event)" by code_simp
  have named: "\<exists>v r. (''e'' # v # r) \<in> set (ev_tags delete_sample) \<and> is_lower_hex 64 v \<and>
      event_id (insert_row sample_event) = toBuffer v"
    using hex by (auto simp: delete_sample_def)
  have "event_pubkey (insert_row sample_event) = toBuffer (ev_pubkey delete_sample)"
    by (simp add: insert_row_def delete_sample_def)
  with delete_event_scope [OF table.events_database_axioms ok run q] named
  obtain t where "(insert_row sample_event)\<lparr>deleted_at := Some t\<rparr> \<in> set (tb_rows (snd (snd ?run)))" by auto
  then show ?thesis unfolding Let_def by (rule rev_bexI) simp
qed


end
