(* ===== verification/Rate_Limiter.thy ===== *)
theory Rate_Limiter
  imports Nostr_Types Js_Number "HOL-Library.AList"
begin

text \<open>
  Rate limiting: \<open>src/adapters/redis-adapter.ts\<close> over a Redis client, the sliding window of
  \<open>src/utils/sliding-window-rate-limiter.ts\<close>, and the loop over a list of limits that its callers
  share. The Redis client is a package: its commands are the fields of a parameter,
  the record \<open>cache_client\<close>, effects on a state \<open>'c\<close>, and what the relay relies on of them (the
  documented behaviour of sorted sets) is the locale \<open>sorted_set_client\<close>. The limiter's own
  contract, which the message, connection and event handlers rely on, is the locale
  \<open>rate_limiter\<close>; \<open>sorted_set_client\<close> gives it by \<^theory_text>\<open>sublocale\<close>, and an
  in-memory client interprets both.
\<close>

section \<open>The Redis client and its adapter\<close>

text \<open>\<open>cc_connection\<close> is what awaiting \<open>this.connection\<close> does (\<open>None\<close>: it is fulfilled) and
  \<open>cc_now\<close> what \<open>Date.now()\<close> answers.\<close>

record 'c cache_client =
  cc_connection :: "'c \<Rightarrow> exn option"
  cc_now :: "'c \<Rightarrow> int"
  cc_get :: "string \<Rightarrow> 'c \<Rightarrow> string option result \<times> 'c"
  cc_set :: "string \<Rightarrow> string \<Rightarrow> 'c \<Rightarrow> string result \<times> 'c"
  cc_zRemRangeByScore :: "string \<Rightarrow> int \<Rightarrow> int \<Rightarrow> 'c \<Rightarrow> nat result \<times> 'c"
  cc_zRange :: "string \<Rightarrow> int \<Rightarrow> int \<Rightarrow> 'c \<Rightarrow> string list result \<times> 'c"
  cc_expire :: "string \<Rightarrow> int \<Rightarrow> 'c \<Rightarrow> bool result \<times> 'c"
  cc_zAdd :: "string \<Rightarrow> (js_number \<times> string) list \<Rightarrow> 'c \<Rightarrow> nat result \<times> 'c"

definition await_connection ::
    "'c cache_client \<Rightarrow> ('c \<Rightarrow> 'a result \<times> 'c) \<Rightarrow> 'c \<Rightarrow> 'a result \<times> 'c" where
  "await_connection cl act c =
     (case cc_connection cl c of Some e \<Rightarrow> (Inl e, c) | None \<Rightarrow> act c)"

text \<open>\<open>Boolean(this.client.exists(key))\<close>: the argument of \<open>Boolean\<close> is a promise, an object.\<close>

definition hasKey :: "'c cache_client \<Rightarrow> string \<Rightarrow> 'c \<Rightarrow> bool result \<times> 'c" where
  "hasKey cl key = await_connection cl (\<lambda>c. (Inr True, c))"

definition getKey :: "'c cache_client \<Rightarrow> string \<Rightarrow> 'c \<Rightarrow> string option result \<times> 'c" where
  "getKey cl key = await_connection cl (cc_get cl key)"

definition setKey :: "'c cache_client \<Rightarrow> string \<Rightarrow> string \<Rightarrow> 'c \<Rightarrow> bool result \<times> 'c" where
  "setKey cl key val =
     await_connection cl (\<lambda>c. case cc_set cl key val c of
         (Inl e, c') \<Rightarrow> (Inl e, c')
       | (Inr answer, c') \<Rightarrow> (Inr (''OK'' = answer), c'))"

definition removeRangeByScoreFromSortedSet ::
    "'c cache_client \<Rightarrow> string \<Rightarrow> int \<Rightarrow> int \<Rightarrow> 'c \<Rightarrow> nat result \<times> 'c" where
  "removeRangeByScoreFromSortedSet cl key lo hi =
     await_connection cl (cc_zRemRangeByScore cl key lo hi)"

definition getRangeFromSortedSet ::
    "'c cache_client \<Rightarrow> string \<Rightarrow> int \<Rightarrow> int \<Rightarrow> 'c \<Rightarrow> string list result \<times> 'c" where
  "getRangeFromSortedSet cl key lo hi = await_connection cl (cc_zRange cl key lo hi)"

definition setKeyExpiry :: "'c cache_client \<Rightarrow> string \<Rightarrow> int \<Rightarrow> 'c \<Rightarrow> unit result \<times> 'c" where
  "setKeyExpiry cl key expiry =
     await_connection cl (\<lambda>c. case cc_expire cl key expiry c of
         (Inl e, c') \<Rightarrow> (Inl e, c') | (Inr _, c') \<Rightarrow> (Inr (), c'))"

text \<open>The object \<open>set\<close> maps values to scores; its entries become members with numeric scores.\<close>

definition addToSortedSet ::
    "'c cache_client \<Rightarrow> string \<Rightarrow> (string \<times> string) list \<Rightarrow> 'c \<Rightarrow> nat result \<times> 'c" where
  "addToSortedSet cl key entries =
     await_connection cl
       (cc_zAdd cl key (map (\<lambda>(val, score). (js_Number score, val)) entries))"

section \<open>The sliding window\<close>

text \<open>\<open>s.split(':')\<close>.\<close>

fun split_colon :: "string \<Rightarrow> string list" where
  "split_colon [] = [[]]"
| "split_colon (c # s) =
     (if c = CHR '':'' then [] # split_colon s
      else case split_colon s of [] \<Rightarrow> [[c]] | w # ws \<Rightarrow> (c # w) # ws)"

text \<open>\<open>Number(entry.split(':')[1])\<close>; \<open>None\<close> stands for NaN (every step written is an integer).\<close>

definition entry_step :: "string \<Rightarrow> int option" where
  "entry_step entry =
     (case js_nth (split_colon entry) 1 of
        None \<Rightarrow> None
      | Some step \<Rightarrow> safe_integer (js_Number step))"

fun sum_steps :: "string list \<Rightarrow> int option \<Rightarrow> int option" where
  "sum_steps [] acc = acc"
| "sum_steps (x # xs) acc =
     sum_steps xs (case (acc, entry_step x) of (Some a, Some n) \<Rightarrow> Some (a + n) | _ \<Rightarrow> None)"

definition window_member :: "int \<Rightarrow> int \<Rightarrow> string" where
  "window_member timestamp step = int_to_string timestamp @ '':'' @ int_to_string step"

text \<open>
  \<open>Promise.all\<close> of the four commands: the connection runs them in the order they were issued;
  a rejection of any of them rejects the whole.
\<close>

definition hit ::
    "'c cache_client \<Rightarrow> string \<Rightarrow> int \<Rightarrow> rate_limit \<Rightarrow> 'c \<Rightarrow> bool result \<times> 'c" where
  "hit cl key step options c =
     (let timestamp = cc_now cl c;
          (r1, c1) = removeRangeByScoreFromSortedSet cl key 0 (timestamp - rl_period options) c;
          (r2, c2) = addToSortedSet cl key
                       [(window_member timestamp step, int_to_string timestamp)] c1;
          (r3, c3) = getRangeFromSortedSet cl key 0 (- 1) c2;
          (r4, c4) = setKeyExpiry cl key (rl_period options) c3
      in case (r1, r2, r3, r4) of
           (Inr _, Inr _, Inr entries, Inr _) \<Rightarrow>
             (Inr (case sum_steps entries (Some 0) of None \<Rightarrow> False | Some hits \<Rightarrow> hits > rl_rate options), c4)
         | (Inl e, _, _, _) \<Rightarrow> (Inl e, c4)
         | (_, Inl e, _, _) \<Rightarrow> (Inl e, c4)
         | (_, _, Inl e, _) \<Rightarrow> (Inl e, c4)
         | (_, _, _, Inl e) \<Rightarrow> (Inl e, c4))"

text \<open>
  The loop of the callers (\<open>isRateLimited\<close> of the message adapter, the event handler, the
  connection middleware and the controllers): every applicable limit is hit, also after one has
  answered true, and the answers are joined.
\<close>

type_synonym 'c limiter = "string \<Rightarrow> int \<Rightarrow> rate_limit \<Rightarrow> 'c \<Rightarrow> bool result \<times> 'c"

fun hit_all :: "'c limiter \<Rightarrow> ('r rate_limit_scheme \<Rightarrow> string) \<Rightarrow> ('r rate_limit_scheme \<Rightarrow> bool) \<Rightarrow>
    'r rate_limit_scheme list \<Rightarrow> bool \<Rightarrow> 'c \<Rightarrow> bool result \<times> 'c" where
  "hit_all h key applies [] limited c = (Inr limited, c)"
| "hit_all h key applies (rl # rls) limited c =
     (if \<not> applies rl then hit_all h key applies rls limited c
      else case h (key rl) 1 (rate_limit.truncate rl) c of
             (Inl e, c') \<Rightarrow> (Inl e, c')
           | (Inr isRateLimited, c') \<Rightarrow>
               hit_all h key applies rls (if isRateLimited then True else limited) c')"

section \<open>The contracts\<close>

text \<open>The hits of a window: the times in the bucket after the hit at \<open>now\<close>.\<close>

definition window_after :: "int \<Rightarrow> int \<Rightarrow> int set \<Rightarrow> int set" where
  "window_after now period B = insert now {t \<in> B. now - period < t}"

lemma finite_window_after [simp]: "finite B \<Longrightarrow> finite (window_after now period B)"
  by (simp add: window_after_def)

lemma window_after_idem: "0 < p \<Longrightarrow> window_after n p (window_after n p B) = window_after n p B"
  by (auto simp: window_after_def)

locale rate_limiter =
  fixes h :: "'c limiter" and now :: "'c \<Rightarrow> int" and bucket :: "'c \<Rightarrow> string \<Rightarrow> int set"
    and ok :: "'c \<Rightarrow> bool"
  assumes bucket_finite: "ok c \<Longrightarrow> finite (bucket c key)"
    and hit_window:
      "ok c \<Longrightarrow> 0 < rl_period opts \<Longrightarrow>
         \<exists>c'. h key 1 opts c =
                (Inr (rl_rate opts < int (card (window_after (now c) (rl_period opts) (bucket c key)))), c') \<and>
              ok c' \<and> bucket c' = (bucket c)(key := window_after (now c) (rl_period opts) (bucket c key))"

locale sorted_set_client =
  fixes cl :: "'c cache_client" and zset :: "'c \<Rightarrow> string \<Rightarrow> string \<Rightarrow> int option"
    and up :: "'c \<Rightarrow> bool"
  assumes connected: "up c \<Longrightarrow> cc_connection cl c = None"
    and clock: "up c \<Longrightarrow> 0 \<le> cc_now cl c \<and> cc_now cl c < 2 ^ 53"
    and zset_finite: "up c \<Longrightarrow> finite (dom (zset c key))"
    and zRemRangeByScore:
      "up c \<Longrightarrow> \<exists>n c'. cc_zRemRangeByScore cl key lo hi c = (Inr n, c') \<and> up c' \<and>
         zset c' = (zset c)(key := (\<lambda>m. case zset c key m of
           None \<Rightarrow> None | Some s \<Rightarrow> if lo \<le> s \<and> s \<le> hi then None else Some s))"
    and zAdd:
      "up c \<Longrightarrow> safe_integer score = Some s \<Longrightarrow>
         \<exists>n c'. cc_zAdd cl key [(score, m)] c = (Inr n, c') \<and> up c' \<and>
           zset c' = (zset c)(key := (zset c key)(m \<mapsto> s))"
    and zRange:
      "up c \<Longrightarrow> \<exists>ms c'. cc_zRange cl key 0 (- 1) c = (Inr ms, c') \<and> up c' \<and> zset c' = zset c \<and>
         distinct ms \<and> set ms = dom (zset c key)"
    and expire:
      "up c \<Longrightarrow> 0 < seconds \<Longrightarrow>
         \<exists>b c'. cc_expire cl key seconds c = (Inr b, c') \<and> up c' \<and> zset c' = zset c"

section \<open>The sliding window meets the contract\<close>

lemma split_colon_no_colon: "CHR '':'' \<notin> set s \<Longrightarrow> split_colon s = [s]"
  by (induction s) auto

lemma split_colon_append:
  "CHR '':'' \<notin> set s \<Longrightarrow> split_colon (s @ CHR '':'' # t) = s # split_colon t"
  by (induction s) auto

lemma int_to_string_no_colon: "CHR '':'' \<notin> set (int_to_string i)"
  using nat_to_string_digits is_digit_not(3) by (auto simp: int_to_string_def list_all_iff)

lemma int_to_string_nonneg: "0 \<le> i \<Longrightarrow> int_to_string i = nat_to_string (nat i)"
  by (simp add: int_to_string_def)

lemma entry_step_member:
  "0 \<le> step \<Longrightarrow> step < 2 ^ 53 \<Longrightarrow> entry_step (window_member t step) = Some step"
  using safe_integer_nat_to_string [of "nat step"] split_colon_no_colon [OF int_to_string_no_colon]
  by (simp add: entry_step_def window_member_def split_colon_append
      int_to_string_no_colon) (simp add: int_to_string_nonneg)

lemma sum_steps_members:
  "(\<forall>m \<in> set ms. \<exists>t. m = window_member t 1) \<Longrightarrow> sum_steps ms (Some a) = Some (a + int (length ms))"
proof (induction ms arbitrary: a)
  case (Cons m ms)
  then have "entry_step m = Some 1" using entry_step_member [of 1] by auto
  then show ?case using Cons.IH [of "a + 1"] Cons.prems by simp
qed simp

lemma window_member_inj: "window_member s 1 = window_member t 1 \<longleftrightarrow> s = t"
  by (simp add: window_member_def int_to_string_inj)

text \<open>The members of a bucket are those the limiter wrote: \<open>timestamp:1\<close> scored by its timestamp.\<close>

definition limiter_members :: "(string \<Rightarrow> int option) \<Rightarrow> bool" where
  "limiter_members z \<longleftrightarrow> (\<forall>m s. z m = Some s \<longrightarrow> 0 \<le> s \<and> m = window_member s 1 \<and> s < 2 ^ 53)"

lemma limiter_members_dom: "limiter_members z \<Longrightarrow> dom z = (\<lambda>t. window_member t 1) ` ran z"
  by (force simp: limiter_members_def ran_def dom_def)

lemma limiter_members_card: "limiter_members z \<Longrightarrow> card (dom z) = card (ran z)"
  unfolding limiter_members_dom
  by (rule card_image) (simp add: inj_on_def window_member_inj)

lemma limiter_members_ran_iff: "limiter_members z \<Longrightarrow> t \<in> ran z \<longleftrightarrow> z (window_member t 1) = Some t"
  by (auto simp: limiter_members_def ran_def)

definition drop_range :: "int \<Rightarrow> int \<Rightarrow> (string \<Rightarrow> int option) \<Rightarrow> string \<Rightarrow> int option" where
  "drop_range lo hi z m = (case z m of
     None \<Rightarrow> None | Some s \<Rightarrow> if lo \<le> s \<and> s \<le> hi then None else Some s)"

lemma drop_range_Some: "drop_range lo hi z m = Some s \<longleftrightarrow> z m = Some s \<and> \<not> (lo \<le> s \<and> s \<le> hi)"
  by (auto simp: drop_range_def split: option.splits)

lemma window_step:
  assumes z: "limiter_members z" and n: "0 \<le> n" "n < 2 ^ 53"
  shows "limiter_members ((drop_range 0 (n - p) z)(window_member n 1 \<mapsto> n))"
    and "ran ((drop_range 0 (n - p) z)(window_member n 1 \<mapsto> n)) = window_after n p (ran z)"
proof -
  show "limiter_members ((drop_range 0 (n - p) z)(window_member n 1 \<mapsto> n))"
    using z n by (auto simp: limiter_members_def drop_range_Some)
  have "t \<in> ran ((drop_range 0 (n - p) z)(window_member n 1 \<mapsto> n)) \<longleftrightarrow>
      t = n \<or> (\<exists>m. m \<noteq> window_member n 1 \<and> z m = Some t \<and> n - p < t)" for t
    using z by (auto simp: ran_def drop_range_Some limiter_members_def)
  moreover have "m \<noteq> window_member n 1 \<longleftrightarrow> t \<noteq> n" if "z m = Some t" for m t
    using z that window_member_inj unfolding limiter_members_def by metis
  ultimately show "ran ((drop_range 0 (n - p) z)(window_member n 1 \<mapsto> n)) = window_after n p (ran z)"
    by (auto simp: window_after_def ran_def)
qed

context sorted_set_client
begin

lemma adapter_simps:
  "up c \<Longrightarrow> await_connection cl act c = act c"
  by (simp add: await_connection_def connected)

lemma hit_bucket:
  fixes key :: string
  assumes up: "up c" and mem: "\<And>k. limiter_members (zset c k)" and pos: "0 < rl_period opts"
  defines "w \<equiv> window_after (cc_now cl c) (rl_period opts) (ran (zset c key))"
  shows "\<exists>c'. hit cl key 1 opts c = (Inr (rl_rate opts < int (card w)), c') \<and> up c' \<and>
           (\<forall>k. limiter_members (zset c' k)) \<and>
           (\<lambda>k. ran (zset c' k)) = (\<lambda>k. ran (zset c k))(key := w)"
proof -
  let ?n = "cc_now cl c" let ?p = "rl_period opts" let ?z = "zset c key"
  have n: "0 \<le> ?n" "?n < 2 ^ 53" using clock [OF up] by auto
  have score: "safe_integer (js_Number (int_to_string ?n)) = Some ?n"
    using n safe_integer_nat_to_string [of "nat ?n"] by (simp add: int_to_string_nonneg)
  obtain r1 c1 where 1: "cc_zRemRangeByScore cl key 0 (?n - ?p) c = (Inr r1, c1)" "up c1"
      "zset c1 = (zset c)(key := drop_range 0 (?n - ?p) ?z)"
    using zRemRangeByScore [OF up, of key 0 "?n - ?p"] by (auto simp: drop_range_def fun_eq_iff)
  let ?z' = "(drop_range 0 (?n - ?p) ?z)(window_member ?n 1 \<mapsto> ?n)"
  obtain r2 c2 where 2: "cc_zAdd cl key [(js_Number (int_to_string ?n), window_member ?n 1)] c1 = (Inr r2, c2)"
      "up c2" "zset c2 = (zset c)(key := ?z')"
    using zAdd [OF 1(2) score, of key "window_member ?n 1"] 1(3) by auto
  obtain ms c3 where 3: "cc_zRange cl key 0 (- 1) c2 = (Inr ms, c3)" "up c3" "zset c3 = zset c2"
      "distinct ms" "set ms = dom ?z'"
    using zRange [OF 2(2), of key] 2(3) by auto
  obtain r4 c4 where 4: "cc_expire cl key ?p c3 = (Inr r4, c4)" "up c4" "zset c4 = zset c3"
    using expire [OF 3(2) pos, of key] by auto
  have members: "limiter_members ?z'" and window: "ran ?z' = w"
    using window_step [OF mem n] w_def by auto
  have "set ms = (\<lambda>t. window_member t 1) ` ran ?z'"
    using 3(5) limiter_members_dom [OF members] by simp
  then have "sum_steps ms (Some 0) = Some (int (length ms))"
    using sum_steps_members [of ms 0] by auto
  moreover have "length ms = card w"
    using distinct_card [OF 3(4)] 3(5) limiter_members_card [OF members] window by simp
  ultimately have "hit cl key 1 opts c = (Inr (rl_rate opts < int (card w)), c4)"
    using 1 2 3 4 up
    by (simp add: hit_def removeRangeByScoreFromSortedSet_def addToSortedSet_def
        getRangeFromSortedSet_def setKeyExpiry_def adapter_simps)
  moreover have "limiter_members (zset c4 k)" for k
    using mem members by (simp add: 4(3) 3(3) 2(3))
  moreover have "(\<lambda>k. ran (zset c4 k)) = (\<lambda>k. ran (zset c k))(key := w)"
    using window by (auto simp: 4(3) 3(3) 2(3) fun_eq_iff simp del: ran_map_upd)
  ultimately show ?thesis using 4(2) by blast
qed

end

sublocale sorted_set_client \<subseteq> limiter: rate_limiter
  "hit cl" "cc_now cl" "\<lambda>c key. ran (zset c key)" "\<lambda>c. up c \<and> (\<forall>key. limiter_members (zset c key))"
proof
  fix c key
  assume "up c \<and> (\<forall>key. limiter_members (zset c key))"
  then show "finite (ran (zset c key))" using zset_finite [of c key] finite_ran by blast
next
  fix c key and opts :: rate_limit
  assume "up c \<and> (\<forall>key. limiter_members (zset c key))" "0 < rl_period opts"
  then show "\<exists>c'. hit cl key 1 opts c =
      (Inr (rl_rate opts < int (card (window_after (cc_now cl c) (rl_period opts) (ran (zset c key))))), c') \<and>
      (up c' \<and> (\<forall>key. limiter_members (zset c' key))) \<and>
      (\<lambda>key. ran (zset c' key)) =
        (\<lambda>key. ran (zset c key))(key := window_after (cc_now cl c) (rl_period opts) (ran (zset c key)))"
    using hit_bucket [of c opts key] by blast
qed

section \<open>An in-memory client\<close>

text \<open>A client that keeps the sorted sets of its keys in memory, ordered by score; the behaviour the
  Redis documentation describes for these commands.\<close>

record mem_cache =
  mc_now :: int
  mc_sets :: "string \<Rightarrow> (string \<times> int) list"

fun mem_add :: "(js_number \<times> string) list \<Rightarrow> (string \<times> int) list \<Rightarrow> (string \<times> int) list option" where
  "mem_add [] z = Some z"
| "mem_add ((score, m) # ms) z =
     (case safe_integer score of None \<Rightarrow> None | Some s \<Rightarrow> mem_add ms (AList.update m s z))"

definition mem_slice :: "int \<Rightarrow> int \<Rightarrow> 'a list \<Rightarrow> 'a list" where
  "mem_slice lo hi xs =
     (let n = int (length xs); i = (if lo < 0 then n + lo else lo); j = (if hi < 0 then n + hi else hi)
      in take (nat (j + 1) - nat i) (drop (nat i) xs))"

definition mem_client :: "mem_cache cache_client" where
  "mem_client = \<lparr>cc_connection = (\<lambda>_. None), cc_now = mc_now,
     cc_get = (\<lambda>key c. (Inr None, c)), cc_set = (\<lambda>key val c. (Inr ''OK'', c)),
     cc_zRemRangeByScore = (\<lambda>key lo hi c.
       let z = mc_sets c key; z' = filter (\<lambda>(m, s). \<not> (lo \<le> s \<and> s \<le> hi)) z
       in (Inr (length z - length z'), c\<lparr>mc_sets := (mc_sets c)(key := z')\<rparr>)),
     cc_zRange = (\<lambda>key lo hi c. (Inr (mem_slice lo hi (map fst (sort_key snd (mc_sets c key)))), c)),
     cc_expire = (\<lambda>key seconds c.
       (Inr True, if seconds \<le> 0 then c\<lparr>mc_sets := (mc_sets c)(key := [])\<rparr> else c)),
     cc_zAdd = (\<lambda>key ms c. case mem_add ms (mc_sets c key) of
       None \<Rightarrow> (Inl (plain_error ''ERR value is not a valid float''), c)
     | Some z \<Rightarrow> (Inr (length z - length (mc_sets c key)), c\<lparr>mc_sets := (mc_sets c)(key := z)\<rparr>))\<rparr>"

definition mem_zset :: "mem_cache \<Rightarrow> string \<Rightarrow> string \<Rightarrow> int option" where
  "mem_zset c key = map_of (mc_sets c key)"

definition mem_up :: "mem_cache \<Rightarrow> bool" where
  "mem_up c \<longleftrightarrow> 0 \<le> mc_now c \<and> mc_now c < 2 ^ 53 \<and> (\<forall>key. distinct (map fst (mc_sets c key)))"

definition mem_empty :: "int \<Rightarrow> mem_cache" where
  "mem_empty t = \<lparr>mc_now = t, mc_sets = (\<lambda>_. [])\<rparr>"

lemma mem_slice_all: "mem_slice 0 (- 1) xs = xs"
  by (simp add: mem_slice_def Let_def)

lemma map_of_filter_value:
  "distinct (map fst z) \<Longrightarrow>
     map_of (filter (\<lambda>(m, s). P s) z) m = (case map_of z m of None \<Rightarrow> None | Some s \<Rightarrow> if P s then Some s else None)"
  by (induction z) (auto split: option.splits simp: map_of_eq_None_iff dest: map_of_SomeD)

lemma distinct_filter_fst: "distinct (map fst z) \<Longrightarrow> distinct (map fst (filter P z))"
  by (rule distinct_map_filter)

interpretation mem: sorted_set_client mem_client mem_zset mem_up
proof
  fix c key lo hi
  assume up: "mem_up c"
  then show "\<exists>n c'. cc_zRemRangeByScore mem_client key lo hi c = (Inr n, c') \<and> mem_up c' \<and>
      mem_zset c' = (mem_zset c)(key := (\<lambda>m. case mem_zset c key m of None \<Rightarrow> None
        | Some s \<Rightarrow> if lo \<le> s \<and> s \<le> hi then None else Some s))"
    using map_of_filter_value [of "mc_sets c key" "\<lambda>s. \<not> (lo \<le> s \<and> s \<le> hi)"]
    by (auto simp: mem_client_def Let_def mem_up_def mem_zset_def fun_eq_iff
        intro: distinct_filter_fst split: option.splits)
next
  fix c score s key m
  assume "mem_up c" "safe_integer score = Some s"
  then show "\<exists>n c'. cc_zAdd mem_client key [(score, m)] c = (Inr n, c') \<and> mem_up c' \<and>
      mem_zset c' = (mem_zset c)(key := (mem_zset c key)(m \<mapsto> s))"
    by (auto simp: mem_client_def mem_up_def mem_zset_def fun_eq_iff update_conv' distinct_update)
next
  fix c key
  assume "mem_up c"
  then show "\<exists>ms c'. cc_zRange mem_client key 0 (- 1) c = (Inr ms, c') \<and> mem_up c' \<and>
      mem_zset c' = mem_zset c \<and> distinct ms \<and> set ms = dom (mem_zset c key)"
    by (auto simp: mem_client_def mem_slice_all mem_up_def mem_zset_def dom_map_of_conv_image_fst
        distinct_map inj_on_def)
next
  fix c key
  assume "mem_up c"
  then show "finite (dom (mem_zset c key))" by (simp add: mem_zset_def finite_dom_map_of)
qed (auto simp: mem_client_def mem_up_def)

section \<open>What the callers rely on\<close>

text \<open>
  A run of the limiter on one key: hits of the caller, with steps of the environment (time passing,
  other workers and keys) before each. The trace holds the time and the answer of every hit.
\<close>

inductive limiter_run ::
    "'c limiter \<Rightarrow> ('c \<Rightarrow> 'c \<Rightarrow> bool) \<Rightarrow> ('c \<Rightarrow> int) \<Rightarrow> string \<Rightarrow> rate_limit \<Rightarrow> 'c \<Rightarrow>
       (int \<times> bool) list \<Rightarrow> 'c \<Rightarrow> bool"
  for h :: "'c limiter" and env :: "'c \<Rightarrow> 'c \<Rightarrow> bool" and clk :: "'c \<Rightarrow> int"
    and key :: string and opts :: rate_limit and c0 :: 'c where
  run_start: "limiter_run h env clk key opts c0 [] c0"
| run_hit: "limiter_run h env clk key opts c0 tr c1 \<Longrightarrow> env c1 c2 \<Longrightarrow>
     h key 1 opts c2 = (Inr b, c3) \<Longrightarrow>
     limiter_run h env clk key opts c0 (tr @ [(clk c2, b)]) c3"

inductive_cases limiter_run_snocE: "limiter_run h env clk key opts c0 (tr @ [x]) c"

text \<open>The times of the hits of a trace that lie in the window that ends at \<open>t\<close>.\<close>

definition hits_in_window :: "int \<Rightarrow> int \<Rightarrow> (int \<times> bool) list \<Rightarrow> int set" where
  "hits_in_window t period tr = {s \<in> fst ` set tr. t - period < s \<and> s \<le> t}"

context rate_limiter
begin

lemma hit_all_ok:
  assumes "ok c" and "\<And>rl. rl \<in> set rls \<Longrightarrow> applies rl \<Longrightarrow> 0 < rl_period rl"
  shows "\<exists>b c'. hit_all h key applies rls limited c = (Inr b, c') \<and> ok c' \<and> (limited \<longrightarrow> b) \<and>
    (\<forall>k. (\<forall>rl \<in> set rls. applies rl \<longrightarrow> key rl \<noteq> k) \<longrightarrow> bucket c' k = bucket c k)"
  using assms
proof (induction rls arbitrary: c limited)
  case Nil
  then show ?case by simp
next
  case (Cons rl rls)
  show ?case
  proof (cases "applies rl")
    case False
    then show ?thesis using Cons.IH [of c limited] Cons.prems by simp
  next
    case True
    then have "0 < rl_period (rate_limit.truncate rl)"
      using Cons.prems(2) by (simp add: rate_limit.truncate_def)
    from hit_window [OF Cons.prems(1) this, of "key rl"] obtain b c1 where
      1: "h (key rl) 1 (rate_limit.truncate rl) c = (Inr b, c1)" "ok c1"
         "\<And>k. k \<noteq> key rl \<Longrightarrow> bucket c1 k = bucket c k" by auto
    obtain b' c' where "hit_all h key applies rls (if b then True else limited) c1 = (Inr b', c')"
        "ok c'" "(if b then True else limited) \<longrightarrow> b'"
        "\<forall>k. (\<forall>rl \<in> set rls. applies rl \<longrightarrow> key rl \<noteq> k) \<longrightarrow> bucket c' k = bucket c1 k"
      using Cons.IH [of c1 "if b then True else limited"] 1(2) Cons.prems(2) by auto
    then show ?thesis using 1 True by auto
  qed
qed

lemma hit_all_below:
  assumes "ok c" and "\<And>rl. rl \<in> set rls \<Longrightarrow> applies rl \<Longrightarrow>
      0 < rl_period rl \<and> int (card (bucket c (key rl))) < rl_rate rl"
    and "distinct (map key (filter applies rls))"
  shows "\<exists>c'. hit_all h key applies rls limited c = (Inr limited, c') \<and> ok c'"
  using assms
proof (induction rls arbitrary: c)
  case Nil
  then show ?case by simp
next
  case (Cons rl rls)
  show ?case
  proof (cases "applies rl")
    case False
    then show ?thesis using Cons.IH [of c] Cons.prems by simp
  next
    case True
    let ?o = "rate_limit.truncate rl"
    have o: "0 < rl_period ?o" "rl_rate ?o = rl_rate rl" "rl_period ?o = rl_period rl"
      using True Cons.prems(2) [of rl] by (simp_all add: rate_limit.truncate_def)
    let ?w = "window_after (now c) (rl_period ?o) (bucket c (key rl))"
    have "card ?w \<le> Suc (card (bucket c (key rl)))"
      unfolding window_after_def using bucket_finite [OF Cons.prems(1)]
      by (intro order_trans [OF card_insert_le_m1 [of "Suc (card (bucket c (key rl)))"]])
         (auto intro: card_mono)
    then have "\<not> rl_rate ?o < int (card ?w)" using True Cons.prems(2) [of rl] o by auto
    with hit_window [OF Cons.prems(1) o(1), of "key rl"] obtain c1 where
      1: "h (key rl) 1 ?o c = (Inr False, c1)" "ok c1"
         "bucket c1 = (bucket c)(key rl := ?w)" by auto
    have "\<exists>c'. hit_all h key applies rls limited c1 = (Inr limited, c') \<and> ok c'"
    proof (rule Cons.IH [OF 1(2)])
      fix rl' assume "rl' \<in> set rls" "applies rl'"
      then have "rl' \<in> set (filter applies rls)" by simp
      then have "key rl' \<in> key ` set (filter applies rls)" by (rule imageI)
      moreover have "key rl \<notin> key ` set (filter applies rls)" using Cons.prems(3) True by simp
      ultimately have "key rl' \<noteq> key rl" by auto
      with \<open>rl' \<in> set rls\<close> \<open>applies rl'\<close> show "0 < rl_period rl' \<and> int (card (bucket c1 (key rl'))) < rl_rate rl'"
        using Cons.prems(2) [of rl'] 1(3) by simp
    qed (use Cons.prems(3) True in auto)
    then show ?thesis using 1(1) True by simp
  qed
qed

lemma run_bucket:
  assumes "limiter_run h env now key opts c0 tr c" and "ok c0" and "bucket c0 key = {}"
    and env: "\<And>c c'. env c c' \<Longrightarrow> ok c \<Longrightarrow> ok c' \<and> bucket c' key = bucket c key"
    and pos: "0 < rl_period opts"
  shows "sorted (map fst tr) \<Longrightarrow> ok c \<and>
     bucket c key = (if tr = [] then {}
       else hits_in_window (fst (last tr)) (rl_period opts) tr)"
  using assms(1)
proof (induction rule: limiter_run.induct)
  case run_start
  then show ?case using assms(2,3) by simp
next
  case (run_hit tr c1 c2 b c3)
  have s: "sorted (map fst tr)" "\<forall>t \<in> fst ` set tr. t \<le> now c2"
    using run_hit.prems by (auto simp: sorted_append)
  let ?B = "if tr = [] then {} else hits_in_window (fst (last tr)) (rl_period opts) tr"
  have "ok c1" "bucket c1 key = ?B" using run_hit.IH s(1) by simp_all
  then have c2: "ok c2" "bucket c2 key = ?B" using env [OF run_hit.hyps(2)] by auto
  have c3: "ok c3" "bucket c3 key = window_after (now c2) (rl_period opts) ?B"
    using hit_window [OF c2(1) pos, of key] run_hit.hyps(3) c2(2) by auto
  have last: "tr \<noteq> [] \<Longrightarrow> fst (last tr) \<le> now c2" using s(2) by simp
  have "window_after (now c2) (rl_period opts) ?B =
      hits_in_window (now c2) (rl_period opts) (tr @ [(now c2, b)])"
  proof (cases "tr = []")
    case True
    then show ?thesis using pos by (auto simp: window_after_def hits_in_window_def)
  next
    case False
    have le: "t \<le> fst (last tr)" if "t \<in> fst ` set tr" for t
    proof -
      from False obtain us x where tr: "tr = us @ [x]" by (metis rev_exhaust)
      then show ?thesis using that s(1) by (auto simp: sorted_append)
    qed
    let ?n = "now c2" and ?p = "rl_period opts"
    have "{s \<in> hits_in_window (fst (last tr)) ?p tr. ?n - ?p < s} = {s \<in> fst ` set tr. ?n - ?p < s}"
      unfolding hits_in_window_def using le last [OF False] by force
    moreover have "hits_in_window ?n ?p (tr @ [(?n, b)]) = insert ?n {s \<in> fst ` set tr. ?n - ?p < s}"
      unfolding hits_in_window_def using s(2) pos by auto
    ultimately show ?thesis using False by (simp add: window_after_def)
  qed
  then show ?case using c3 by simp
qed

lemma run_rate_bound:
  assumes run: "limiter_run h env now key opts c0 (tr @ [(t, False)]) c"
    and init: "ok c0" "bucket c0 key = {}"
    and env: "\<And>c c'. env c c' \<Longrightarrow> ok c \<Longrightarrow> ok c' \<and> bucket c' key = bucket c key"
    and pos: "0 < rl_period opts" and sorted: "sorted (map fst tr @ [t])"
  shows "int (card (hits_in_window t (rl_period opts) (tr @ [(t, False)]))) \<le> rl_rate opts"
proof -
  from run obtain c1 c2 where 1: "limiter_run h env now key opts c0 tr c1" "env c1 c2"
      "h key 1 opts c2 = (Inr False, c)" "now c2 = t"
    by (auto elim: limiter_run_snocE)
  have "ok c1" using run_bucket [OF 1(1) init env pos] sorted by (simp add: sorted_append)
  then have c2: "ok c2" using env [OF 1(2)] by blast
  from hit_window [OF c2 pos, of key] 1(3)
  have "\<not> rl_rate opts < int (card (bucket c key))" by auto
  moreover have "bucket c key = hits_in_window t (rl_period opts) (tr @ [(t, False)])"
    using run_bucket [OF run init env pos] sorted by simp
  ultimately show ?thesis by simp
qed

end

context sorted_set_client
begin

lemmas client_rate_bound = limiter.run_rate_bound
lemmas client_hit_window = limiter.hit_window

lemma hit_again_same_time:
  assumes up: "up c" "\<forall>k. limiter_members (zset c k)" and pos: "0 < rl_period opts"
    and same: "cc_now cl (snd (hit cl key 1 opts c)) = cc_now cl c"
  shows "fst (hit cl key 1 opts (snd (hit cl key 1 opts c))) = fst (hit cl key 1 opts c) \<and>
    ran (zset (snd (hit cl key 1 opts (snd (hit cl key 1 opts c)))) key) =
    ran (zset (snd (hit cl key 1 opts c)) key)"
proof -
  let ?w = "window_after (cc_now cl c) (rl_period opts) (ran (zset c key))"
  from client_hit_window [of c opts key] up pos obtain c1 where
    1: "hit cl key 1 opts c = (Inr (rl_rate opts < int (card ?w)), c1)" "up c1"
       "\<forall>k. limiter_members (zset c1 k)" "ran (zset c1 key) = ?w"
    by (auto simp: fun_eq_iff)
  from client_hit_window [of c1 opts key] 1 pos obtain c2 where
    "hit cl key 1 opts c1 = (Inr (rl_rate opts < int (card (window_after (cc_now cl c1) (rl_period opts) ?w))), c2)"
    "ran (zset c2 key) = window_after (cc_now cl c1) (rl_period opts) ?w"
    by (auto simp: fun_eq_iff)
  then show ?thesis using 1 same pos by (simp add: window_after_idem)
qed

end

lemma limiter_run_hitI:
  "limiter_run h env clk key opts c0 tr c1 \<Longrightarrow> env c1 c2 \<Longrightarrow> fst (h key 1 opts c2) = Inr b \<Longrightarrow>
     clk c2 = t \<Longrightarrow> limiter_run h env clk key opts c0 (tr @ [(t, b)]) (snd (h key 1 opts c2))"
  using run_hit [of h env clk key opts c0 tr c1 c2 b "snd (h key 1 opts c2)"]
  by (metis prod.collapse)

text \<open>Time passes in the in-memory client.\<close>

definition mem_tick :: "mem_cache \<Rightarrow> mem_cache \<Rightarrow> bool" where
  "mem_tick c c' \<longleftrightarrow> mc_sets c' = mc_sets c \<and> mc_now c \<le> mc_now c' \<and> mc_now c' < 2 ^ 53"

lemma mem_empty_up: "0 \<le> t \<Longrightarrow> t < 2 ^ 53 \<Longrightarrow> mem_up (mem_empty t)"
  by (simp add: mem_up_def mem_empty_def)

lemma mem_empty_members: "mem_zset (mem_empty t) k = Map.empty"
  by (simp add: mem_zset_def mem_empty_def)

lemma limiter_members_empty: "limiter_members Map.empty"
  by (simp add: limiter_members_def)

lemma mem_tick_stable:
  "mem_tick c c' \<Longrightarrow> mem_up c \<Longrightarrow> mem_up c' \<and> mem_zset c' = mem_zset c"
  by (auto simp: mem_tick_def mem_up_def mem_zset_def fun_eq_iff)

section \<open>Properties\<close>

text \<open>
  C7. The rate limit holds over every sliding window: whatever the Redis client, as long as its sorted
  sets behave as documented, when a hit at time \<open>t\<close> is let through, the hits of the key at
  pairwise different times in the \<open>period\<close> milliseconds that end at \<open>t\<close>, itself and the refused ones
  included, number at most \<open>rate\<close>. The other steps of the system (time passing, other keys) may
  come between the hits in any way that leaves the bucket of the key alone.
\<close>

theorem sliding_window_bound:
  assumes client: "sorted_set_client cl zset up"
    and run: "limiter_run (hit cl) env (cc_now cl) key opts c0 (tr @ [(t, False)]) c"
    and init: "up c0" "\<And>k. limiter_members (zset c0 k)" "zset c0 key = Map.empty"
    and env: "\<And>c c'. env c c' \<Longrightarrow> up c \<Longrightarrow> \<forall>k. limiter_members (zset c k) \<Longrightarrow>
      up c' \<and> (\<forall>k. limiter_members (zset c' k)) \<and> zset c' key = zset c key"
    and pos: "0 < rl_period opts" and sorted: "sorted (map fst tr @ [t])"
  shows "int (card (hits_in_window t (rl_period opts) (tr @ [(t, False)]))) \<le> rl_rate opts"
  using sorted_set_client.client_rate_bound [OF client run _ _ _ pos sorted] init env by auto

theorem sliding_window_bound_witness:
  "int (card (hits_in_window 61000 60000 [(1000, False), (61000, False)])) \<le> 1"
proof -
  let ?o = "\<lparr>rl_period = 60000, rl_rate = 1\<rparr>" and ?k = "''ab:events:60000''"
  let ?c1 = "snd (hit mem_client ?k 1 ?o (mem_empty 1000))"
  let ?c2 = "?c1\<lparr>mc_now := 61000\<rparr>"
  have f1: "fst (hit mem_client ?k 1 ?o (mem_empty 1000)) = Inr False" by code_simp
  have f2: "fst (hit mem_client ?k 1 ?o ?c2) = Inr False" by code_simp
  have n1: "mc_now ?c1 = 1000" by code_simp
  have clk: "cc_now mem_client = mc_now" by (simp add: mem_client_def)
  have r1: "limiter_run (hit mem_client) mem_tick (cc_now mem_client) ?k ?o (mem_empty 1000)
      ([] @ [(1000, False)]) ?c1"
    by (rule limiter_run_hitI [OF run_start])
       (simp_all only: f1 clk, simp_all add: mem_tick_def mem_empty_def)
  have r2: "limiter_run (hit mem_client) mem_tick (cc_now mem_client) ?k ?o (mem_empty 1000)
      ([(1000, False)] @ [(61000, False)]) (snd (hit mem_client ?k 1 ?o ?c2))"
    by (rule limiter_run_hitI [OF r1 [unfolded append_Nil]])
       (simp_all only: f2 clk, simp_all add: mem_tick_def n1)
  have "int (card (hits_in_window 61000 (rl_period ?o) ([(1000, False)] @ [(61000, False)]))) \<le> rl_rate ?o"
  proof (rule sliding_window_bound [OF mem.sorted_set_client_axioms r2])
    show "mem_up (mem_empty 1000)" by (rule mem_empty_up) simp_all
    show "limiter_members (mem_zset (mem_empty 1000) k)" for k
      by (simp add: mem_empty_members limiter_members_empty)
    show "mem_zset (mem_empty 1000) ?k = Map.empty" by (rule mem_empty_members)
  qed (use mem_tick_stable in \<open>auto\<close>)
  then show ?thesis by simp
qed

text \<open>
  Hits in the same millisecond are one hit: the member written to the sorted set is made of the
  timestamp and the step, so a second hit of a key in the same millisecond answers what the first
  answered and leaves the same bucket. A burst of requests within a millisecond therefore counts once
  against every limit.
\<close>

theorem same_millisecond_counts_once:
  assumes "sorted_set_client cl zset up" and "up c" and "\<forall>k. limiter_members (zset c k)"
    and "0 < rl_period opts" and "cc_now cl (snd (hit cl key 1 opts c)) = cc_now cl c"
  shows "fst (hit cl key 1 opts (snd (hit cl key 1 opts c))) = fst (hit cl key 1 opts c) \<and>
    ran (zset (snd (hit cl key 1 opts (snd (hit cl key 1 opts c)))) key) =
    ran (zset (snd (hit cl key 1 opts c)) key)"
  by (rule sorted_set_client.hit_again_same_time [OF assms])

theorem same_millisecond_counts_once_witness:
  "fst (hit mem_client ''k'' 1 \<lparr>rl_period = 1000, rl_rate = 1\<rparr>
     (snd (hit mem_client ''k'' 1 \<lparr>rl_period = 1000, rl_rate = 1\<rparr> (mem_empty 5)))) = Inr False"
proof -
  let ?o = "\<lparr>rl_period = 1000, rl_rate = 1\<rparr>"
  have now: "cc_now mem_client (snd (hit mem_client ''k'' 1 ?o (mem_empty 5))) = cc_now mem_client (mem_empty 5)"
    by code_simp
  have first: "fst (hit mem_client ''k'' 1 ?o (mem_empty 5)) = Inr False" by code_simp
  have mem: "\<forall>k. limiter_members (mem_zset (mem_empty 5) k)"
    by (simp add: mem_empty_members limiter_members_empty)
  have "mem_up (mem_empty 5)" by (rule mem_empty_up) simp_all
  from same_millisecond_counts_once [OF mem.sorted_set_client_axioms this mem _ now]
  show ?thesis by (simp only: first) simp
qed

end
