(* ===== verification/Event_Handler.thy ===== *)
theory Event_Handler
  imports Event_Strategies Rate_Limiter
begin

text \<open>
  \<open>src/handlers/event-message-handler.ts\<close> and \<open>auth-event-message-handler.ts\<close>: the checks an event
  passes before its strategy runs, in the order of the code, and the replies. The services the
  handlers call are the record \<open>services\<close> over one world \<open>'w\<close>: SHA-256 and the signature check of
  the secp256k1 package, the rate limiter, the user and event repositories, the clock and the relay's
  own public key (derived from the environment). \<open>st\<close> is the value of \<open>settings()\<close> while the
  message is handled.
\<close>

section \<open>Services\<close>

text \<open>\<open>sv_schnorr_verify sig id pubkey\<close> is what awaiting \<open>secp256k1.schnorr.verify\<close> does.\<close>

record 'w services =
  sv_sha256 :: "buffer \<Rightarrow> buffer"
  sv_schnorr_verify :: "string \<Rightarrow> string \<Rightarrow> string \<Rightarrow> bool result"
  sv_relay_pubkey :: string
  sv_now :: "'w \<Rightarrow> int"
  sv_hit :: "'w limiter"
  sv_findByPubkey :: "string \<Rightarrow> 'w \<Rightarrow> user option result \<times> 'w"
  sv_events :: "'w event_repository"

text \<open>What a handler reads of its adapter: \<open>getClientAddress()\<close>, \<open>getClientAuthChallengeData()\<close>.\<close>

record client_view =
  cv_address :: string
  cv_challenge :: "auth_challenge option"

definition isEventSignatureValid :: "'w services \<Rightarrow> nostr_event \<Rightarrow> bool result" where
  "isEventSignatureValid sv e = sv_schnorr_verify sv (ev_sig e) (ev_id e) (ev_pubkey e)"

definition isEventValid :: "'w services \<Rightarrow> nostr_event \<Rightarrow> string option result" where
  "isEventValid sv e =
     (if \<not> isEventIdValid (sv_sha256 sv) e then Inr (Some ''invalid: event id does not match'')
      else case isEventSignatureValid sv e of
             Inl x \<Rightarrow> Inl x
           | Inr v \<Rightarrow>
               if \<not> v then Inr (Some ''invalid: event signature verification failed'') else Inr None)"

section \<open>canAcceptEvent\<close>

text \<open>\<open>typeof x !== 'undefined' && x > 0 && p(x)\<close>.\<close>

definition positive_and :: "int option \<Rightarrow> (int \<Rightarrow> bool) \<Rightarrow> bool" where
  "positive_and v p = (case v of None \<Rightarrow> False | Some x \<Rightarrow> x > 0 \<and> p x)"

definition some_kind :: "nostr_event \<Rightarrow> kind_item list \<Rightarrow> bool" where
  "some_kind e ks = list_ex (isEventKindOrRangeMatch e) ks"

definition content_too_long :: "nostr_event \<Rightarrow> content_limits \<Rightarrow> bool" where
  "content_too_long e limit \<longleftrightarrow>
     positive_and (cl_maxLength limit) (\<lambda>m. int (length (ev_content e)) > m) \<and>
     (case cl_kinds limit of None \<Rightarrow> True | Some ks \<Rightarrow> some_kind e ks)"

definition content_reason :: "content_limits \<Rightarrow> string" where
  "content_reason limit =
     ''rejected: content is longer than '' @
     (case cl_maxLength limit of None \<Rightarrow> ''undefined'' | Some m \<Rightarrow> int_to_string m) @ '' bytes''"

definition content_check :: "nostr_event \<Rightarrow> event_limits \<Rightarrow> string option" where
  "content_check e limits =
     (case el_content limits of
        None \<Rightarrow> None
      | Some (ContentLimitList ls) \<Rightarrow> map_option content_reason (List.find (content_too_long e) ls)
      | Some (ContentLimit l) \<Rightarrow> if content_too_long e l then Some (content_reason l) else None)"

definition created_at_check :: "int \<Rightarrow> nostr_event \<Rightarrow> event_limits \<Rightarrow> string option" where
  "created_at_check now e limits =
     (case el_createdAt limits of
        None \<Rightarrow> None
      | Some c \<Rightarrow>
          if positive_and (ca_maxPositiveDelta c) (\<lambda>d. ev_created_at e > now + d)
          then Some (''rejected: created_at is more than '' @
                 int_to_string (the (ca_maxPositiveDelta c)) @ '' seconds in the future'')
          else if positive_and (ca_maxNegativeDelta c) (\<lambda>d. ev_created_at e < now - d)
          then Some (''rejected: created_at is more than '' @
                 int_to_string (the (ca_maxNegativeDelta c)) @ '' seconds in the past'')
          else None)"

definition pow_check :: "nostr_event \<Rightarrow> event_limits \<Rightarrow> string option" where
  "pow_check e limits =
     (let idBits = (case el_eventId limits of None \<Rightarrow> None | Some m \<Rightarrow> m);
          pubkeyBits = (case el_pubkey limits of None \<Rightarrow> None | Some p \<Rightarrow> pl_minLeadingZeroBits p) in
      if positive_and idBits (\<lambda>m. int (getEventProofOfWork (ev_id e)) < m)
      then Some (''pow: difficulty '' @ nat_to_string (getEventProofOfWork (ev_id e)) @ ''<'' @
             int_to_string (the idBits))
      else if positive_and pubkeyBits (\<lambda>m. int (getPubkeyProofOfWork (ev_pubkey e)) < m)
      then Some (''pow: pubkey difficulty '' @ nat_to_string (getPubkeyProofOfWork (ev_pubkey e)) @ ''<'' @
             int_to_string (the pubkeyBits))
      else None)"

definition pubkey_check :: "nostr_event \<Rightarrow> event_limits \<Rightarrow> string option" where
  "pubkey_check e limits =
     (case el_pubkey limits of
        None \<Rightarrow> None
      | Some p \<Rightarrow>
          if (case pl_whitelist p of None \<Rightarrow> False
              | Some l \<Rightarrow> length l > 0 \<and> \<not> list_ex (starts_with (ev_pubkey e)) l)
          then Some ''blocked: pubkey not allowed''
          else if (case pl_blacklist p of None \<Rightarrow> False
              | Some l \<Rightarrow> length l > 0 \<and> list_ex (starts_with (ev_pubkey e)) l)
          then Some ''blocked: pubkey not allowed''
          else None)"

definition kind_check :: "nostr_event \<Rightarrow> event_limits \<Rightarrow> string option" where
  "kind_check e limits =
     (case el_kind limits of
        None \<Rightarrow> None
      | Some k \<Rightarrow>
          if (case kl_whitelist k of None \<Rightarrow> False | Some l \<Rightarrow> length l > 0 \<and> \<not> some_kind e l)
          then Some (''blocked: event kind '' @ int_to_string (ev_kind e) @ '' not allowed'')
          else if (case kl_blacklist k of None \<Rightarrow> False | Some l \<Rightarrow> length l > 0 \<and> some_kind e l)
          then Some (''blocked: event kind '' @ int_to_string (ev_kind e) @ '' not allowed'')
          else None)"

text \<open>The first check that yields a reason.\<close>

fun first_reason :: "string option list \<Rightarrow> string option" where
  "first_reason [] = None"
| "first_reason (Some r # rs) = Some r"
| "first_reason (None # rs) = first_reason rs"

definition canAcceptEvent ::
    "'w services \<Rightarrow> relay_settings \<Rightarrow> nostr_event \<Rightarrow> 'w \<Rightarrow> string option" where
  "canAcceptEvent sv st e w =
     (if sv_relay_pubkey sv = ev_pubkey e then None
      else
        let now = sv_now sv w div 1000; limits = event_limits_of st in
        first_reason [content_check e limits, created_at_check now e limits, pow_check e limits,
          pubkey_check e limits, kind_check e limits])"

section \<open>isRateLimited\<close>

fun kind_item_to_string :: "kind_item \<Rightarrow> string" where
  "kind_item_to_string (Kind k) = int_to_string k"
| "kind_item_to_string (KindRange lo hi) = ''['' @ int_to_string lo @ '','' @ int_to_string hi @ '']''"

definition rate_limit_key :: "nostr_event \<Rightarrow> event_rate_limit \<Rightarrow> string" where
  "rate_limit_key e rl =
     (case rl_kinds rl of
        Some ks \<Rightarrow> ev_pubkey e @ '':events:'' @ int_to_string (rl_period rl) @ '':'' @
          ''['' @ join '','' (map kind_item_to_string ks) @ '']''
      | None \<Rightarrow> ev_pubkey e @ '':events:'' @ int_to_string (rl_period rl))"

definition rate_limit_applies :: "nostr_event \<Rightarrow> event_rate_limit \<Rightarrow> bool" where
  "rate_limit_applies e rl = (case rl_kinds rl of None \<Rightarrow> True | Some ks \<Rightarrow> some_kind e ks)"

definition whitelisted :: "string list option \<Rightarrow> string \<Rightarrow> bool" where
  "whitelisted l x = (case l of None \<Rightarrow> False | Some xs \<Rightarrow> x \<in> set xs)"

definition isRateLimited ::
    "'w services \<Rightarrow> client_view \<Rightarrow> relay_settings \<Rightarrow> nostr_event \<Rightarrow> 'w \<Rightarrow> bool result \<times> 'w" where
  "isRateLimited sv cv st e w =
     (if sv_relay_pubkey sv = ev_pubkey e then (Inr False, w)
      else
        let limits = event_limits_of st in
        case el_rateLimits limits of
          None \<Rightarrow> (Inr False, w)
        | Some rateLimits \<Rightarrow>
            if rateLimits = [] then (Inr False, w)
            else if (case el_whitelists limits of None \<Rightarrow> False
                     | Some wl \<Rightarrow> whitelisted (ew_pubkeys wl) (ev_pubkey e)) then (Inr False, w)
            else if (case el_whitelists limits of None \<Rightarrow> False
                     | Some wl \<Rightarrow> whitelisted (ew_ipAddresses wl) (cv_address cv)) then (Inr False, w)
            else hit_all (sv_hit sv) (rate_limit_key e) (rate_limit_applies e) rateLimits False w)"

section \<open>isUserAdmitted\<close>

definition isApplicableFee :: "nostr_event \<Rightarrow> fee_schedule \<Rightarrow> bool" where
  "isApplicableFee e fee \<longleftrightarrow> fs_enabled fee \<and>
     (case fs_whitelists fee of
        None \<Rightarrow> True
      | Some wl \<Rightarrow>
          (case fw_pubkeys wl of None \<Rightarrow> True | Some l \<Rightarrow> \<not> list_ex (starts_with (ev_pubkey e)) l) \<and>
          (case fw_event_kinds wl of None \<Rightarrow> True | Some l \<Rightarrow> \<not> some_kind e l))"

definition payments_enabled :: "relay_settings \<Rightarrow> bool" where
  "payments_enabled st = (case st_payments st of None \<Rightarrow> False | Some p \<Rightarrow> pay_enabled p)"

definition applicable_fees :: "relay_settings \<Rightarrow> nostr_event \<Rightarrow> fee_schedule list" where
  "applicable_fees st e =
     (case st_payments st of
        None \<Rightarrow> []
      | Some p \<Rightarrow> (case pay_admission p of None \<Rightarrow> [] | Some fs \<Rightarrow> filter (isApplicableFee e) fs))"

definition min_balance :: "relay_settings \<Rightarrow> int" where
  "min_balance st =
     (case el_pubkey (event_limits_of st) of
        None \<Rightarrow> 0
      | Some p \<Rightarrow> (case pl_minBalance p of None \<Rightarrow> 0 | Some b \<Rightarrow> b))"

definition isUserAdmitted ::
    "'w services \<Rightarrow> relay_settings \<Rightarrow> nostr_event \<Rightarrow> 'w \<Rightarrow> string option result \<times> 'w" where
  "isUserAdmitted sv st e w =
     (if \<not> (payments_enabled st \<or> st_requireAdmission st) then (Inr None, w)
      else if sv_relay_pubkey sv = ev_pubkey e then (Inr None, w)
      else if payments_enabled st \<and> applicable_fees st e = [] then (Inr None, w)
      else
        case sv_findByPubkey sv (ev_pubkey e) w of
          (Inl x, w') \<Rightarrow> (Inl x, w')
        | (Inr None, w') \<Rightarrow> (Inr (Some ''blocked: pubkey not admitted''), w')
        | (Inr (Some u), w') \<Rightarrow>
            if \<not> usr_isAdmitted u then (Inr (Some ''blocked: pubkey not admitted''), w')
            else if min_balance st > 0 \<and> usr_balance u < min_balance st
            then (Inr (Some ''blocked: insufficient balance''), w')
            else (Inr None, w'))"

section \<open>handleMessage\<close>

text \<open>\<open>!eventExpiration\<close> holds of undefined and of 0.\<close>

definition addExpirationMetadata :: "nostr_event \<Rightarrow> nostr_event" where
  "addExpirationMetadata e =
     (case getEventExpiration e of
        None \<Rightarrow> e
      | Some t \<Rightarrow> if t = 0 then e else e\<lparr>ev_expiration := Some t\<rparr>)"

definition reject :: "nostr_event \<Rightarrow> string \<Rightarrow> 'w \<Rightarrow> 'w outcome" where
  "reject e reason w = ([EmitMessage (createCommandResult (ev_id e) False reason)], Inr (), w)"

text \<open>\<open>try { await strategy.execute(event) } catch { ... }\<close>.\<close>

definition execute_caught ::
    "'w services \<Rightarrow> client_view \<Rightarrow> event_strategy \<Rightarrow> nostr_event \<Rightarrow> 'w \<Rightarrow> 'w outcome" where
  "execute_caught sv cv s e w =
     (case execute (sv_events sv) (cv_challenge cv) (sv_now sv w) s e w of
        (acts, Inr u, w') \<Rightarrow> (acts, Inr u, w')
      | (acts, Inl _, w') \<Rightarrow>
          (acts @ [EmitMessage (createCommandResult (ev_id e) False ''error: unable to process event'')],
           Inr (), w'))"

text \<open>The common tail of both handlers: rate limit, limits of the settings, admission, strategy.
  A rejected promise of one of the checks rejects the handler's.\<close>

definition admit_and_execute ::
    "'w services \<Rightarrow> client_view \<Rightarrow> relay_settings \<Rightarrow> (nostr_event \<Rightarrow> event_strategy) \<Rightarrow>
      nostr_event \<Rightarrow> 'w \<Rightarrow> 'w outcome" where
  "admit_and_execute sv cv st strategyFactory e w =
     (case isRateLimited sv cv st e w of
        (Inl x, w1) \<Rightarrow> ([], Inl x, w1)
      | (Inr True, w1) \<Rightarrow> reject e ''rate-limited: slow down'' w1
      | (Inr False, w1) \<Rightarrow>
          (case canAcceptEvent sv st e w1 of
             Some reason \<Rightarrow> reject e reason w1
           | None \<Rightarrow>
               (case isUserAdmitted sv st e w1 of
                  (Inl x, w2) \<Rightarrow> ([], Inl x, w2)
                | (Inr (Some reason), w2) \<Rightarrow> reject e reason w2
                | (Inr None, w2) \<Rightarrow> execute_caught sv cv (strategyFactory e) e w2)))"

definition event_handleMessage ::
    "'w services \<Rightarrow> client_view \<Rightarrow> relay_settings \<Rightarrow> nostr_event \<Rightarrow> string option \<Rightarrow> 'w \<Rightarrow> 'w outcome" where
  "event_handleMessage sv cv st event context w =
     (let e = event\<lparr>ev_context := context\<rparr> in
      case isEventValid sv e of
        Inl x \<Rightarrow> ([], Inl x, w)
      | Inr (Some reason) \<Rightarrow> reject e reason w
      | Inr None \<Rightarrow>
          if isExpiredEvent (sv_now sv w) e then reject e ''event is expired'' w
          else admit_and_execute sv cv st eventStrategyFactory (addExpirationMetadata e) w)"

text \<open>\<open>AuthEventMessageHandler.isEventValid\<close> and its \<open>handleMessage\<close>.\<close>

definition auth_isEventValid :: "'w services \<Rightarrow> nostr_event \<Rightarrow> string option result" where
  "auth_isEventValid sv e =
     (case isEventValid sv e of
        Inl x \<Rightarrow> Inl x
      | Inr (Some reason) \<Rightarrow> Inr (Some reason)
      | Inr None \<Rightarrow>
          if \<not> isSignedAuthEvent e then Inr (Some ''invalid: auth verification failed'') else Inr None)"

definition auth_handleMessage ::
    "'w services \<Rightarrow> client_view \<Rightarrow> relay_settings \<Rightarrow> nostr_event \<Rightarrow> 'w \<Rightarrow> 'w outcome" where
  "auth_handleMessage sv cv st e w =
     (case auth_isEventValid sv e of
        Inl x \<Rightarrow> ([], Inl x, w)
      | Inr (Some reason) \<Rightarrow> reject e reason w
      | Inr None \<Rightarrow> admit_and_execute sv cv st signedAuthEventStrategyFactory e w)"


section \<open>Lemmas on the checks\<close>

lemma first_reason_None: "first_reason rs = None \<longleftrightarrow> (\<forall>r \<in> set rs. r = None)"
  by (induction rs rule: first_reason.induct) auto

lemma positive_and_iff: "positive_and v p \<longleftrightarrow> (\<exists>x. v = Some x \<and> x > 0 \<and> p x)"
  by (simp add: positive_and_def split: option.splits)

lemma content_check_None:
  "content_check e limits = None \<longleftrightarrow>
     (\<forall>l. (el_content limits = Some (ContentLimit l) \<or>
           (\<exists>ls. el_content limits = Some (ContentLimitList ls) \<and> l \<in> set ls)) \<longrightarrow>
        \<not> content_too_long e l)"
  by (auto simp: content_check_def find_None_iff_none split: option.splits content_setting.splits)

lemma isEventValid_ok:
  "isEventValid sv e = Inr None \<longleftrightarrow>
     isEventIdValid (sv_sha256 sv) e \<and> sv_schnorr_verify sv (ev_sig e) (ev_id e) (ev_pubkey e) = Inr True"
  by (auto simp: isEventValid_def isEventSignatureValid_def split: sum.splits)

lemma isEventValid_Inl:
  "isEventValid sv e = Inl x \<Longrightarrow> sv_schnorr_verify sv (ev_sig e) (ev_id e) (ev_pubkey e) = Inl x"
  by (auto simp: isEventValid_def isEventSignatureValid_def split: if_splits sum.splits)

lemma context_irrelevant [simp]:
  "isEventIdValid h (e\<lparr>ev_context := c\<rparr>) = isEventIdValid h e"
  "isExpiredEvent t (e\<lparr>ev_context := c\<rparr>) = isExpiredEvent t e"
  by (simp_all add: isEventIdValid_def getEventHash_def serializeEvent_def isExpiredEvent_def
      getEventExpiration_def)

text \<open>The fields a client sends are those the handler passes on.\<close>

definition same_event :: "nostr_event \<Rightarrow> nostr_event \<Rightarrow> bool" where
  "same_event e e' \<longleftrightarrow> ev_id e = ev_id e' \<and> ev_pubkey e = ev_pubkey e' \<and>
     ev_created_at e = ev_created_at e' \<and> ev_kind e = ev_kind e' \<and> ev_tags e = ev_tags e' \<and>
     ev_sig e = ev_sig e' \<and> ev_content e = ev_content e'"

lemma same_event_addExpiration: "same_event (addExpirationMetadata (e\<lparr>ev_context := c\<rparr>)) e"
  by (auto simp: same_event_def addExpirationMetadata_def split: option.splits)

lemma same_event_checks:
  assumes "same_event e e'"
  shows "canAcceptEvent sv st e w = canAcceptEvent sv st e' w"
    and "isRateLimited sv cv st e w = isRateLimited sv cv st e' w"
    and "isUserAdmitted sv st e w = isUserAdmitted sv st e' w"
    and "isEphemeralEvent e = isEphemeralEvent e'"
proof -
  have eqs: "ev_id e = ev_id e'" "ev_pubkey e = ev_pubkey e'" "ev_created_at e = ev_created_at e'"
      "ev_kind e = ev_kind e'" "ev_content e = ev_content e'"
    using assms by (simp_all add: same_event_def)
  have match: "isEventKindOrRangeMatch e = isEventKindOrRangeMatch e'"
    using eqs by (intro ext) (case_tac x; simp)
  have kinds: "some_kind e = some_kind e'" by (intro ext) (simp add: some_kind_def match)
  have long: "content_too_long e = content_too_long e'"
    by (intro ext) (simp only: content_too_long_def eqs kinds)
  have fee: "isApplicableFee e = isApplicableFee e'"
    by (intro ext) (simp only: isApplicableFee_def eqs kinds)
  have key: "rate_limit_key e = rate_limit_key e'" "rate_limit_applies e = rate_limit_applies e'"
    by (intro ext, simp only: rate_limit_key_def rate_limit_applies_def eqs kinds)+
  show "canAcceptEvent sv st e w = canAcceptEvent sv st e' w"
    by (simp only: canAcceptEvent_def content_check_def created_at_check_def pow_check_def
        pubkey_check_def kind_check_def eqs kinds long)
  show "isRateLimited sv cv st e w = isRateLimited sv cv st e' w"
    by (simp only: isRateLimited_def eqs key)
  show "isUserAdmitted sv st e w = isUserAdmitted sv st e' w"
    by (simp only: isUserAdmitted_def applicable_fees_def eqs fee)
  show "isEphemeralEvent e = isEphemeralEvent e'" by (simp only: isEphemeralEvent_def eqs)
qed

section \<open>Rate limit keys\<close>

lemma int_char: "c \<in> set (int_to_string i) \<Longrightarrow> is_digit c \<or> c = CHR ''-''"
  using nat_to_string_digits by (auto simp: int_to_string_def list_all_iff split: if_splits)

lemma int_terminated:
  assumes eq: "int_to_string i @ c # r = int_to_string j @ d # s"
    and c: "\<not> is_digit c" "c \<noteq> CHR ''-''" and d: "\<not> is_digit d" "d \<noteq> CHR ''-''"
  shows "i = j \<and> c = d \<and> r = s"
proof -
  let ?P = "\<lambda>x. is_digit x \<or> x = CHR ''-''"
  have t: "takeWhile ?P (int_to_string k @ x # q) = int_to_string k" if "\<not> ?P x" for k x q
    using that int_char by (subst takeWhile_append2) auto
  have "int_to_string i = int_to_string j" using t [of c i r] t [of d j s] c d eq by simp
  then show ?thesis using eq by (simp add: int_to_string_inj)
qed

lemma kind_item_first: "\<exists>c s. kind_item_to_string k = c # s \<and> (c = CHR ''['' \<longleftrightarrow> (\<exists>lo hi. k = KindRange lo hi)) \<and> c \<noteq> CHR '']''"
proof (cases k)
  case (Kind i)
  obtain c s where cs: "int_to_string i = c # s"
    by (cases "int_to_string i") (auto simp: int_to_string_def split: if_splits)
  then have "is_digit c \<or> c = CHR ''-''" using int_char [of c i] by simp
  then have "c \<noteq> CHR ''[''" "c \<noteq> CHR '']''" by (auto simp: is_digit_def char_code_def)
  with Kind cs show ?thesis by simp
qed simp

lemma terminators: "c \<in> {CHR '','', CHR '']''} \<Longrightarrow> \<not> is_digit c \<and> c \<noteq> CHR ''-''"
  by (auto simp: is_digit_def char_code_def)

lemma kind_item_terminated:
  assumes "kind_item_to_string k @ c # r = kind_item_to_string k' @ d # s"
    and "c \<in> {CHR '','', CHR '']''}" "d \<in> {CHR '','', CHR '']''}"
  shows "k = k' \<and> c = d \<and> r = s"
proof (cases k; cases k')
  fix i j assume "k = Kind i" "k' = Kind j"
  then show ?thesis using assms int_terminated [of i c r j d s] terminators by auto
next
  fix i lo hi assume "k = Kind i" "k' = KindRange lo hi"
  then show ?thesis using assms kind_item_first [of k] kind_item_first [of k'] by auto
next
  fix i lo hi assume "k = KindRange lo hi" "k' = Kind i"
  then show ?thesis using assms kind_item_first [of k] kind_item_first [of k'] by auto
next
  fix lo hi lo' hi' assume k: "k = KindRange lo hi" "k' = KindRange lo' hi'"
  then have "int_to_string lo @ CHR '','' # (int_to_string hi @ CHR '']'' # c # r) =
      int_to_string lo' @ CHR '','' # (int_to_string hi' @ CHR '']'' # d # s)"
    using assms(1) by simp
  from int_terminated [OF this] terminators have "lo = lo'"
    "int_to_string hi @ CHR '']'' # c # r = int_to_string hi' @ CHR '']'' # d # s" by auto
  with int_terminated [OF this(2)] terminators k show ?thesis by auto
qed

lemma kind_items_Cons:
  "\<exists>c r. join '','' (map kind_item_to_string (x # xs)) @ '']'' = kind_item_to_string x @ c # r \<and>
     c \<in> {CHR '','', CHR '']''} \<and> (c = CHR '']'' \<longleftrightarrow> xs = []) \<and>
     (xs \<noteq> [] \<longrightarrow> r = join '','' (map kind_item_to_string xs) @ '']'')"
  by (cases xs) auto

lemma kind_items_not_Nil: "join '','' (map kind_item_to_string (x # xs)) @ '']'' \<noteq> '']''"
  using kind_items_Cons [of x xs] kind_item_first [of x] by (metis append_Cons list.inject)

lemma kind_items_inj:
  "join '','' (map kind_item_to_string ks) @ '']'' = join '','' (map kind_item_to_string ks') @ '']'' \<Longrightarrow>
     ks = ks'"
proof (induction ks arbitrary: ks')
  case Nil
  then show ?case using kind_items_not_Nil by (cases ks') auto
next
  case (Cons k ks)
  obtain c r where c: "join '','' (map kind_item_to_string (k # ks)) @ '']'' = kind_item_to_string k @ c # r"
      "c \<in> {CHR '','', CHR '']''}" "c = CHR '']'' \<longleftrightarrow> ks = []"
      "ks \<noteq> [] \<longrightarrow> r = join '','' (map kind_item_to_string ks) @ '']''" using kind_items_Cons by blast
  show ?case
  proof (cases ks')
    case Nil
    then show ?thesis using Cons.prems kind_items_not_Nil [of k ks] by simp
  next
    case (Cons k' xs')
    obtain d s where d: "join '','' (map kind_item_to_string (k' # xs')) @ '']'' = kind_item_to_string k' @ d # s"
        "d \<in> {CHR '','', CHR '']''}" "d = CHR '']'' \<longleftrightarrow> xs' = []"
        "xs' \<noteq> [] \<longrightarrow> s = join '','' (map kind_item_to_string xs') @ '']''" using kind_items_Cons by blast
    have "kind_item_to_string k @ c # r = kind_item_to_string k' @ d # s"
      using Cons.prems c(1) d(1) Cons by simp
    from kind_item_terminated [OF this c(2) d(2)] have "k = k'" "c = d" "r = s" by auto
    with Cons.IH [of xs'] c(3,4) d(3,4) Cons show ?thesis by (cases "ks = []") auto
  qed
qed


section \<open>The contract of the services\<close>

lemma hit_all_keeps:
  fixes rls :: "'r rate_limit_scheme list"
  assumes "\<And>k n opts w. f (snd (h k n opts w)) = f w"
  shows "f (snd (hit_all h key applies rls l w)) = f w"
proof (induction rls arbitrary: l w)
  case (Cons rl rls)
  have "f w' = f w" if "h (key rl) 1 (rate_limit.truncate rl) w = (r, w')" for r w'
    using assms [of "key rl" 1 "rate_limit.truncate rl" w] that by simp
  then show ?case using Cons.IH by (auto split: prod.splits sum.splits)
qed simp

text \<open>
  What the handlers rely on: the event repository is an \<open>event_store\<close>, and neither a hit of the
  rate limiter nor a lookup of a user touches the events.
\<close>

locale relay_services = event_store "sv_events sv" rows
    for sv :: "'w services" and rows :: "'w \<Rightarrow> event_row list" +
  assumes hit_rows: "rows (snd (sv_hit sv key step opts w)) = rows w"
    and user_rows: "rows (snd (sv_findByPubkey sv pk w)) = rows w"
begin

lemma isRateLimited_rows: "isRateLimited sv cv st e w = (r, w') \<Longrightarrow> rows w' = rows w"
  using hit_all_keeps [of rows "sv_hit sv" "rate_limit_key e" "rate_limit_applies e" _ False w] hit_rows
  by (auto simp: isRateLimited_def Let_def split: if_splits option.splits) (metis snd_conv)+

lemma isUserAdmitted_rows: "isUserAdmitted sv st e w = (r, w') \<Longrightarrow> rows w' = rows w"
  using user_rows [of "ev_pubkey e" w]
  by (auto simp: isUserAdmitted_def split: if_splits prod.splits sum.splits option.splits)

text \<open>What the tail of a handler has checked when it stores or broadcasts.\<close>

lemma admit_and_execute_checked:
  assumes "admit_and_execute sv cv st f e w = (acts, res, w')"
    and "rows w' \<noteq> rows w \<or> (\<exists>e'. EmitBroadcast e' \<in> set acts) \<or> SetClientToAuthenticated \<in> set acts"
  shows "\<exists>w1 w2 acts' res'. isRateLimited sv cv st e w = (Inr False, w1) \<and> canAcceptEvent sv st e w1 = None \<and>
    isUserAdmitted sv st e w1 = (Inr None, w2) \<and> rows w2 = rows w \<and>
    execute (sv_events sv) (cv_challenge cv) (sv_now sv w2) (f e) e w2 = (acts', res', w') \<and>
    (\<forall>e'. EmitBroadcast e' \<in> set acts \<longrightarrow> EmitBroadcast e' \<in> set acts')"
proof -
  obtain l w1 where l: "isRateLimited sv cv st e w = (l, w1)" by force
  have rows1: "rows w1 = rows w" using isRateLimited_rows [OF l] .
  obtain a w2 where a: "isUserAdmitted sv st e w1 = (a, w2)" by force
  have rows2: "rows w2 = rows w" using isUserAdmitted_rows [OF a] rows1 by simp
  have notlim: "l = Inr False"
    using assms l rows1 by (auto simp: admit_and_execute_def reject_def split: sum.splits bool.splits)
  then have acc: "canAcceptEvent sv st e w1 = None"
    using assms l rows1 by (auto simp: admit_and_execute_def reject_def split: option.splits)
  then have adm: "a = Inr None"
    using assms l notlim a rows1 rows2
    by (auto simp: admit_and_execute_def reject_def split: option.splits sum.splits)
  obtain acts' res' w3 where ex: "execute (sv_events sv) (cv_challenge cv) (sv_now sv w2) (f e) e w2 = (acts', res', w3)"
    using prod_cases3 by blast
  have "w3 = w' \<and> (\<forall>e'. EmitBroadcast e' \<in> set acts \<longrightarrow> EmitBroadcast e' \<in> set acts')"
    using assms(1) l notlim acc a adm ex
    by (auto simp: admit_and_execute_def execute_caught_def split: sum.splits)
  then show ?thesis using l notlim acc a adm rows2 ex by blast
qed

lemma event_handleMessage_checked:
  assumes run: "event_handleMessage sv cv st event ctx w = (acts, res, w')"
    and eff: "rows w' \<noteq> rows w \<or> (\<exists>e'. EmitBroadcast e' \<in> set acts)"
  shows "isEventIdValid (sv_sha256 sv) event \<and>
    sv_schnorr_verify sv (ev_sig event) (ev_id event) (ev_pubkey event) = Inr True \<and>
    \<not> isExpiredEvent (sv_now sv w) event \<and>
    (\<exists>w1 w2. isRateLimited sv cv st event w = (Inr False, w1) \<and> canAcceptEvent sv st event w1 = None \<and>
       isUserAdmitted sv st event w1 = (Inr None, w2))"
proof -
  let ?e = "event\<lparr>ev_context := ctx\<rparr>"
  have valid: "isEventValid sv ?e = Inr None"
    using run eff by (auto simp: event_handleMessage_def reject_def Let_def split: sum.splits option.splits)
  then have notexp: "\<not> isExpiredEvent (sv_now sv w) ?e"
    using run eff by (auto simp: event_handleMessage_def reject_def Let_def)
  have "admit_and_execute sv cv st eventStrategyFactory (addExpirationMetadata ?e) w = (acts, res, w')"
    using run valid notexp by (simp add: event_handleMessage_def Let_def)
  from admit_and_execute_checked [OF this] eff obtain w1 w2 where
      "isRateLimited sv cv st (addExpirationMetadata ?e) w = (Inr False, w1)"
      "canAcceptEvent sv st (addExpirationMetadata ?e) w1 = None"
      "isUserAdmitted sv st (addExpirationMetadata ?e) w1 = (Inr None, w2)" by blast
  then have "isRateLimited sv cv st event w = (Inr False, w1)" "canAcceptEvent sv st event w1 = None"
      "isUserAdmitted sv st event w1 = (Inr None, w2)"
    by (simp_all only: same_event_checks [OF same_event_addExpiration [where e = event and c = ctx]])
  then show ?thesis using valid [unfolded isEventValid_ok] notexp by auto
qed

end

text \<open>Each reply of a handler is one acknowledgement of the event.\<close>

lemma execute_Inl: "execute repo ch t s e w = (acts, Inl x, w') \<Longrightarrow> acts = []"
  by (cases s) (auto simp: strategy_defs Let_def split: prod.splits sum.splits exn.splits if_splits option.splits)

lemma execute_caught_one_reply:
  assumes "\<And>w. fst (repo_upsert (sv_events sv) e w) \<noteq> Inl NonErr"
    and "execute_caught sv cv s e w = (acts, res, w')"
  shows "res = Inr () \<and> reply_count (ev_id e) acts = 1"
proof -
  obtain acts' res' w1 where ex: "execute (sv_events sv) (cv_challenge cv) (sv_now sv w) s e w = (acts', res', w1)"
    using prod_cases3 by blast
  show ?thesis
  proof (cases res')
    case (Inl x)
    then show ?thesis using assms(2) ex execute_Inl [of "sv_events sv" "cv_challenge cv"]
      by (fastforce simp: execute_caught_def reply_simps)
  next
    case (Inr u)
    then show ?thesis using assms ex execute_one_reply [of "sv_events sv" "cv_challenge cv" "sv_now sv w" s e w]
      by (auto simp: execute_caught_def)
  qed
qed

lemma reject_one_reply:
  "reject e reason w = (acts, res, w') \<Longrightarrow> res = Inr () \<and> reply_count (ev_id e) acts = 1"
  by (auto simp: reject_def reply_simps)

lemma admit_and_execute_replies:
  assumes up: "\<And>w. fst (repo_upsert (sv_events sv) e w) \<noteq> Inl NonErr"
    and run: "admit_and_execute sv cv st f e w = (acts, res, w')"
  shows "reply_count (ev_id e) acts = (case res of Inl _ \<Rightarrow> 0 | Inr _ \<Rightarrow> 1) \<and>
    (\<forall>x. res = Inl x \<longrightarrow> (\<exists>w1. isRateLimited sv cv st e w = (Inl x, w1)) \<or>
       (\<exists>w1 w2. isUserAdmitted sv st e w1 = (Inl x, w2)))"
proof -
  obtain l w1 where l: "isRateLimited sv cv st e w = (l, w1)" by force
  obtain a w2 where a: "isUserAdmitted sv st e w1 = (a, w2)" by force
  have caught: "res = Inr () \<and> reply_count (ev_id e) acts = 1"
    if "execute_caught sv cv (f e) e w2 = (acts, res, w')"
    using execute_caught_one_reply [OF up that] .
  consider x where "l = Inl x" | "l = Inr True"
    | r where "l = Inr False" "canAcceptEvent sv st e w1 = Some r"
    | x where "l = Inr False" "canAcceptEvent sv st e w1 = None" "a = Inl x"
    | r where "l = Inr False" "canAcceptEvent sv st e w1 = None" "a = Inr (Some r)"
    | "l = Inr False" "canAcceptEvent sv st e w1 = None" "a = Inr None"
    by (cases l; cases a) (metis (full_types) option.exhaust)+
  then show ?thesis
  proof cases
    case 6
    then have "execute_caught sv cv (f e) e w2 = (acts, res, w')"
      using run l a by (simp add: admit_and_execute_def)
    then show ?thesis using caught by simp
  qed (use run l a in \<open>auto simp: admit_and_execute_def reject_def reply_simps\<close>)
qed

section \<open>A world\<close>

text \<open>The table of events, the in-memory cache of \<open>Rate_Limiter\<close> and a list of users; the two
  functions of the secp256k1 package are arguments.\<close>

record relay_world =
  rw_db :: table_db
  rw_cache :: mem_cache
  rw_users :: "user list"

definition world_exec :: "relay_world executor" where
  "world_exec st w = (case table_exec st (rw_db w) of (r, db) \<Rightarrow> (r, w\<lparr>rw_db := db\<rparr>))"

definition world_rows :: "relay_world \<Rightarrow> event_row list" where
  "world_rows w = tb_rows (rw_db w)"

definition world_hit :: "relay_world limiter" where
  "world_hit key step opts w =
     (case hit mem_client key step opts (rw_cache w) of (r, c) \<Rightarrow> (r, w\<lparr>rw_cache := c\<rparr>))"

definition world_services ::
    "(buffer \<Rightarrow> buffer) \<Rightarrow> (string \<Rightarrow> string \<Rightarrow> string \<Rightarrow> bool) \<Rightarrow> relay_world services" where
  "world_services sha256 verify = \<lparr>
     sv_sha256 = sha256,
     sv_schnorr_verify = (\<lambda>s i p. Inr (verify s i p)),
     sv_relay_pubkey = sample_id (CHR ''f''),
     sv_now = (\<lambda>w. mc_now (rw_cache w)),
     sv_hit = world_hit,
     sv_findByPubkey = (\<lambda>p w. (Inr (List.find (\<lambda>u. usr_pubkey u = p) (rw_users w)), w)),
     sv_events = EventRepository world_exec\<rparr>"

interpretation world_table: events_database world_exec world_rows "''events_hot_event_id_idx''"
proof
  fix st r and db db' :: relay_world
  assume "world_exec st db = (r, db')"
  then obtain t where "table_exec st (rw_db db) = (r, t)" "rw_db db' = t"
    by (auto simp: world_exec_def split: prod.splits)
  from table.exec_law [OF this(1)] this(2)
  show "(\<exists>x. r = Inl x) \<and> world_rows db' = world_rows db \<or>
      (\<exists>t. (r, world_rows db') = run_statement ''events_hot_event_id_idx'' t st (world_rows db))"
    by (simp add: world_rows_def)
qed

interpretation world: relay_services "world_services sha256 verify" world_rows
proof -
  have "event_store (sv_events (world_services sha256 verify)) world_rows"
    using world_table.event_store_axioms by (simp add: world_services_def)
  then show "relay_services (world_services sha256 verify) world_rows"
    by (intro relay_services.intro relay_services_axioms.intro)
       (auto simp: world_services_def world_hit_def world_rows_def split: prod.splits)
qed

definition zero_sha256 :: "buffer \<Rightarrow> buffer" where
  "zero_sha256 b = replicate 32 0"

definition note_event :: nostr_event where
  "note_event = sample_event\<lparr>ev_id := sample_id (CHR ''0'')\<rparr>"

definition open_settings :: relay_settings where
  "open_settings = plain_settings"

definition fresh_world :: relay_world where
  "fresh_world = \<lparr>rw_db = empty_table, rw_cache = mem_empty 1700000000000, rw_users = []\<rparr>"

abbreviation test_services :: "relay_world services" where
  "test_services \<equiv> world_services zero_sha256 (\<lambda>s i p. True)"

definition test_view :: client_view where
  "test_view = \<lparr>cv_address = ''::1'', cv_challenge = None\<rparr>"

section \<open>Properties\<close>

text \<open>
  C1. Nothing gets past the checks: when handling an EVENT message changes the stored events or
  broadcasts anything, the event's id is the hash of its content, its signature verifies, it has not
  expired, no applicable rate limit was exceeded, the limits of the settings accept it, and its
  author is admitted.
\<close>

theorem handled_event_passed_checks:
  assumes "relay_services sv rows" and "event_handleMessage sv cv st event ctx w = (acts, res, w')"
    and "rows w' \<noteq> rows w \<or> (\<exists>e'. EmitBroadcast e' \<in> set acts)"
  shows "isEventIdValid (sv_sha256 sv) event \<and>
    sv_schnorr_verify sv (ev_sig event) (ev_id event) (ev_pubkey event) = Inr True \<and>
    \<not> isExpiredEvent (sv_now sv w) event \<and>
    (\<exists>w1 w2. isRateLimited sv cv st event w = (Inr False, w1) \<and> canAcceptEvent sv st event w1 = None \<and>
       isUserAdmitted sv st event w1 = (Inr None, w2))"
  by (rule relay_services.event_handleMessage_checked [OF assms])

theorem handled_event_passed_checks_witness:
  "isEventIdValid zero_sha256 note_event"
proof -
  let ?run = "event_handleMessage test_services test_view open_settings note_event None fresh_world"
  have run: "?run = (fst ?run, fst (snd ?run), snd (snd ?run))" by simp
  have "fst ?run = stored_reply note_event 1" by code_simp
  then have "\<exists>e'. EmitBroadcast e' \<in> set (fst ?run)" by simp
  from handled_event_passed_checks [OF world.relay_services_axioms run disjI2 [OF this]]
  show ?thesis by (simp add: world_services_def)
qed


lemma table_exec_error: "fst (table_exec st db) \<noteq> Inl NonErr"
proof -
  have run: "fst (run_statement i t st rows) \<noteq> Inl NonErr" for i t rows
    by (cases st) (auto simp: duplicate_key_def split: option.splits)
  show ?thesis
  proof (cases "tb_faults db")
    case Nil
    then show ?thesis using run by (simp add: table_exec_def split_def)
  next
    case (Cons b fs)
    then show ?thesis using run by (cases b) (simp_all add: table_exec_def split_def)
  qed
qed

lemma world_upsert_error: "fst (repo_upsert (sv_events (world_services h v)) e w) \<noteq> Inl NonErr"
  using table_exec_error by (simp add: world_services_def upsert_def world_exec_def split_def)


text \<open>
  The admission rule: the event of an author other than the relay itself is let through without
  an account exactly when the settings require none for it; otherwise the author must have an
  account that is admitted and, where a minimum balance is set, holds it.
\<close>

theorem user_admitted_iff:
  assumes "sv_findByPubkey sv (ev_pubkey e) w = (Inr found, w2)"
  shows "fst (isUserAdmitted sv st e w) = Inr None \<longleftrightarrow>
    ev_pubkey e = sv_relay_pubkey sv \<or>
    (if payments_enabled st then \<not> (\<exists>fee \<in> set (applicable_fees st e). fs_enabled fee)
     else \<not> st_requireAdmission st) \<or>
    (\<exists>u. found = Some u \<and> usr_isAdmitted u \<and> (min_balance st \<le> 0 \<or> min_balance st \<le> usr_balance u))"
proof -
  have fees: "applicable_fees st e = [] \<longleftrightarrow> \<not> (\<exists>fee \<in> set (applicable_fees st e). fs_enabled fee)"
  proof -
    have "fs_enabled fee" if "fee \<in> set (applicable_fees st e)" for fee
      using that by (auto simp: applicable_fees_def isApplicableFee_def split: option.splits)
    then show ?thesis by (cases "applicable_fees st e") auto
  qed
  show ?thesis
    using assms fees by (cases found) (auto simp: isUserAdmitted_def not_le not_less split: if_splits)
qed

theorem user_admitted_iff_witness:
  "fst (isUserAdmitted test_services (open_settings\<lparr>st_requireAdmission := True\<rparr>) note_event fresh_world) \<noteq> Inr None"
proof -
  have "sv_findByPubkey test_services (ev_pubkey note_event) fresh_world = (Inr None, fresh_world)"
    by (simp add: world_services_def fresh_world_def)
  from user_admitted_iff [OF this, of "open_settings\<lparr>st_requireAdmission := True\<rparr>"]
  show ?thesis
    by (simp add: open_settings_def plain_settings_def payments_enabled_def world_services_def note_event_def
        sample_event_def sample_id_def)
qed

text \<open>
  Buckets of the event rate limiter are per author and per limit: for authors written as 64
  characters, two keys are equal exactly when author, period and kinds are, so no author's events
  ever count against another's quota, nor a limit's against a different one.
\<close>

theorem rate_limit_keys_separate:
  assumes "length (ev_pubkey e) = 64" and "length (ev_pubkey e') = 64"
  shows "rate_limit_key e rl = rate_limit_key e' rl' \<longleftrightarrow>
    ev_pubkey e = ev_pubkey e' \<and> rl_period rl = rl_period rl' \<and> rl_kinds rl = rl_kinds rl'"
proof
  assume eq: "rate_limit_key e rl = rate_limit_key e' rl'"
  let ?rest = "\<lambda>r :: event_rate_limit. case rl_kinds r of None \<Rightarrow> []
    | Some ks \<Rightarrow> CHR '':'' # CHR ''['' # join '','' (map kind_item_to_string ks) @ '']''"
  have key: "rate_limit_key x r = ev_pubkey x @ '':events:'' @ int_to_string (rl_period r) @ ?rest r" for x r
    by (cases "rl_kinds r") (simp_all add: rate_limit_key_def)
  from eq have pk: "ev_pubkey e = ev_pubkey e'"
    and rest: "int_to_string (rl_period rl) @ ?rest rl @ ''|'' = int_to_string (rl_period rl') @ ?rest rl' @ ''|''"
    using assms unfolding key by auto
  have front: "\<exists>c s. ?rest r @ ''|'' = c # s \<and> \<not> is_digit c \<and> c \<noteq> CHR ''-''" for r
    by (cases "rl_kinds r") (auto simp: is_digit_def char_code_def)
  obtain c s d t where cd: "?rest rl @ ''|'' = c # s" "\<not> is_digit c" "c \<noteq> CHR ''-''"
      "?rest rl' @ ''|'' = d # t" "\<not> is_digit d" "d \<noteq> CHR ''-''" using front by metis
  from rest have "rl_period rl = rl_period rl' \<and> c = d \<and> s = t"
    unfolding cd(1,4) using int_terminated cd by blast
  then have "rl_period rl = rl_period rl'" "?rest rl @ ''|'' = ?rest rl' @ ''|''" using cd by auto
  then have "rl_kinds rl = rl_kinds rl'"
    using kind_items_inj by (cases "rl_kinds rl"; cases "rl_kinds rl'") auto
  with pk \<open>rl_period rl = rl_period rl'\<close> show "ev_pubkey e = ev_pubkey e' \<and> rl_period rl = rl_period rl' \<and> rl_kinds rl = rl_kinds rl'"
    by simp
qed (simp add: rate_limit_key_def split: option.split)

theorem rate_limit_keys_separate_witness:
  "rate_limit_key sample_event \<lparr>rl_period = 60000, rl_rate = 10, rl_kinds = Some [Kind 1, KindRange 2 3]\<rparr> \<noteq>
   rate_limit_key sample_event \<lparr>rl_period = 60000, rl_rate = 10, rl_kinds = Some [Kind 1, Kind 2, Kind 3]\<rparr>"
proof -
  have "length (ev_pubkey sample_event) = 64" by (simp add: sample_event_def)
  then show ?thesis by (subst rate_limit_keys_separate) simp_all
qed

end
