(* ===== verification/Event_Queries.thy ===== *)
theory Event_Queries
  imports Event_Repository "HOL-Library.Multiset"
begin

text \<open>
  \<open>EventRepository.findByFilters\<close> (\<open>src/repositories/event-repository.ts\<close>): the query built from
  subscription filters, as the tree of conditions the query builder is given. Evaluating a query is
  PostgreSQL; \<open>holds\<close>, \<open>selected\<close> and \<open>query_result\<close> say what the constructs used mean
  (\<open>substring\<close> and \<open>BETWEEN\<close> on \<open>bytea\<close>, \<open>LEFT JOIN\<close>, \<open>UNION\<close>, \<open>ORDER BY ... LIMIT\<close>, the
  rejection of a column name that both joined tables have), and \<open>tag_rows\<close> is the trigger
  \<open>process_event_tags\<close> of \<open>migrations/20240108_130100_add_event_tags_table.js\<close> that fills the table
  \<open>event_tags\<close>. The properties compare the query with \<open>isEventMatchingFilter\<close>, which the relay
  applies to live events.
\<close>

section \<open>The query\<close>

datatype bytea_column = EventPubkeyColumn | EventIdColumn

datatype condition =
    Never
  | ColumnIn bytea_column "buffer list"
  | PrefixIs bytea_column nat buffer
  | PrefixBetween bytea_column nat string string
  | KindIn "int list"
  | CreatedSince int
  | CreatedUntil int
  | TagIs string string
  | AnyOf "condition list"

record event_query =
  q_where :: "condition list"
  q_limit :: nat
  q_desc :: bool
  q_join :: bool

text \<open>\<open>groupByLengthSpec\<close>: the groups \<open>exact\<close>, \<open>even\<close> and \<open>odd\<close>.\<close>

definition exact_group :: "string list \<Rightarrow> string list" where
  "exact_group ps = filter (\<lambda>p. length p = 64) ps"

definition even_group :: "string list \<Rightarrow> string list" where
  "even_group ps = filter (\<lambda>p. length p \<noteq> 64 \<and> even (length p)) ps"

definition odd_group :: "string list \<Rightarrow> string list" where
  "odd_group ps = filter (\<lambda>p. odd (length p)) ps"

definition bytea_text :: "string \<Rightarrow> char \<Rightarrow> string" where
  "bytea_text p c = [CHR 0x5C, CHR ''x''] @ p @ [c]"

text \<open>The conditions of one of \<open>authors\<close> and \<open>ids\<close>; an absent criterion adds no condition.\<close>

definition prefix_conditions :: "bytea_column \<Rightarrow> string list option \<Rightarrow> condition list" where
  "prefix_conditions col criteria =
     (case criteria of
        None \<Rightarrow> []
      | Some ps \<Rightarrow>
          if ps = [] then [Never]
          else [AnyOf
            ((if exact_group ps = [] then [] else [ColumnIn col (map toBuffer (exact_group ps))]) @
             map (\<lambda>p. PrefixIs col (length p div 2) (toBuffer p)) (even_group ps) @
             map (\<lambda>p. PrefixBetween col (length p div 2 + 1)
                    (bytea_text p (CHR ''0'')) (bytea_text p (CHR ''f''))) (odd_group ps))])"

text \<open>The entries whose key is a generic tag query; the schema admits only arrays as their values.\<close>

definition tag_entries :: "subscription_filter \<Rightarrow> (string \<times> string list) list" where
  "tag_entries f =
     concat (map (\<lambda>(key, v). case v of
               None \<Rightarrow> []
             | Some criteria \<Rightarrow> if isGenericTagQuery key then [(key, criteria)] else [])
       (f_entries f))"

definition tag_condition :: "string \<times> string list \<Rightarrow> condition" where
  "tag_condition entry =
     (case entry of (key, criteria) \<Rightarrow>
        if criteria = [] then Never
        else AnyOf (map (TagIs (case js_nth key 1 of None \<Rightarrow> [] | Some c \<Rightarrow> [c])) criteria))"

definition filter_query :: "subscription_filter \<Rightarrow> event_query" where
  "filter_query f = \<lparr>
     q_where =
       prefix_conditions EventPubkeyColumn (f_authors f) @
       prefix_conditions EventIdColumn (f_ids f) @
       (case f_kinds f of None \<Rightarrow> [] | Some ks \<Rightarrow> [KindIn ks]) @
       (case f_since f of None \<Rightarrow> [] | Some t \<Rightarrow> [CreatedSince t]) @
       (case f_until f of None \<Rightarrow> [] | Some t \<Rightarrow> [CreatedUntil t]) @
       map tag_condition (tag_entries f),
     q_limit = (case f_limit f of None \<Rightarrow> 500 | Some n \<Rightarrow> nat n),
     q_desc = (f_limit f \<noteq> None),
     q_join = (tag_entries f \<noteq> [])\<rparr>"

text \<open>The first query and the ones \<open>UNION\<close>ed to it.\<close>

definition findByFilters :: "subscription_filter list \<Rightarrow> (event_query \<times> event_query list) result" where
  "findByFilters filters =
     (case filters of
        [] \<Rightarrow> Inl (plain_error ''Filters cannot be empty'')
      | f # fs \<Rightarrow> Inr (filter_query f, map filter_query fs))"

section \<open>The table \<open>event_tags\<close>\<close>

text \<open>\<open>trim(x::text, '"')\<close> of a JSON string.\<close>

definition trim_quotes :: "string \<Rightarrow> string" where
  "trim_quotes s =
     rev (dropWhile (\<lambda>c. c = CHR 0x22) (rev (dropWhile (\<lambda>c. c = CHR 0x22) s)))"

definition trigger_text :: "string \<Rightarrow> string" where
  "trigger_text s = trim_quotes (json_string s)"

definition tag_row :: "tag \<Rightarrow> (string \<times> string) option" where
  "tag_row t =
     (case js_nth t 0 of
        None \<Rightarrow> None
      | Some name \<Rightarrow>
          (case js_nth t 1 of
             None \<Rightarrow> None
           | Some v \<Rightarrow>
               if length (trigger_text name) = 1 \<and> trigger_text v \<noteq> []
               then Some (trigger_text name, trigger_text v) else None))"

definition tag_rows :: "event_row \<Rightarrow> (string \<times> string) list" where
  "tag_rows r = List.map_filter tag_row (event_tags r)"

section \<open>What a query means\<close>

type_synonym joined_row = "event_row \<times> (string \<times> string) option"

fun bytes_le :: "buffer \<Rightarrow> buffer \<Rightarrow> bool" where
  "bytes_le [] ys = True"
| "bytes_le (x # xs) [] = False"
| "bytes_le (x # xs) (y # ys) = (x < y \<or> x = y \<and> bytes_le xs ys)"

fun column_value :: "event_row \<Rightarrow> bytea_column \<Rightarrow> buffer" where
  "column_value r EventPubkeyColumn = event_pubkey r"
| "column_value r EventIdColumn = event_id r"

text \<open>A literal \<open>\x...\<close> read as \<open>bytea\<close>.\<close>

definition bytea_in :: "string \<Rightarrow> buffer" where
  "bytea_in s = toBuffer (drop 2 s)"

primrec holds :: "joined_row \<Rightarrow> condition \<Rightarrow> bool" where
  "holds j Never = False"
| "holds j (ColumnIn col bs) = (column_value (fst j) col \<in> set bs)"
| "holds j (PrefixIs col n b) = (take n (column_value (fst j) col) = b)"
| "holds j (PrefixBetween col n lo hi) =
     (bytes_le (bytea_in lo) (take n (column_value (fst j) col)) \<and>
      bytes_le (take n (column_value (fst j) col)) (bytea_in hi))"
| "holds j (KindIn ks) = (event_kind (fst j) \<in> set ks)"
| "holds j (CreatedSince t) = (event_created_at (fst j) \<ge> t)"
| "holds j (CreatedUntil t) = (event_created_at (fst j) \<le> t)"
| "holds j (TagIs name v) = (snd j = Some (name, v))"
| "holds j (AnyOf cs) = list_ex (\<lambda>b. b) (map (holds j) cs)"

definition joined :: "event_query \<Rightarrow> event_row \<Rightarrow> joined_row list" where
  "joined q r =
     (if q_join q \<and> tag_rows r \<noteq> [] then map (\<lambda>t. (r, Some t)) (tag_rows r) else [(r, None)])"

definition selected :: "event_query \<Rightarrow> event_row list \<Rightarrow> event_row list" where
  "selected q rows =
     map fst (filter (\<lambda>j. list_all (holds j) (q_where q)) (concat (map (joined q) rows)))"

primrec mentions_event_id :: "condition \<Rightarrow> bool" where
  "mentions_event_id Never = False"
| "mentions_event_id (ColumnIn col bs) = (col = EventIdColumn)"
| "mentions_event_id (PrefixIs col n b) = (col = EventIdColumn)"
| "mentions_event_id (PrefixBetween col n lo hi) = (col = EventIdColumn)"
| "mentions_event_id (KindIn ks) = False"
| "mentions_event_id (CreatedSince t) = False"
| "mentions_event_id (CreatedUntil t) = False"
| "mentions_event_id (TagIs name v) = False"
| "mentions_event_id (AnyOf cs) = list_ex (\<lambda>b. b) (map mentions_event_id cs)"

text \<open>Both \<open>events\<close> and \<open>event_tags\<close> have a column \<open>event_id\<close>, and the builder's conditions
  name the column without its table.\<close>

definition ambiguous :: "event_query \<Rightarrow> bool" where
  "ambiguous q \<longleftrightarrow> q_join q \<and> list_ex mentions_event_id (q_where q)"

definition in_order :: "bool \<Rightarrow> event_row list \<Rightarrow> bool" where
  "in_order desc rows \<longleftrightarrow>
     sorted_wrt (\<lambda>r s. if desc then event_created_at s \<le> event_created_at r
                        else event_created_at r \<le> event_created_at s) rows"

text \<open>\<open>ORDER BY event_created_at LIMIT n\<close>: ties come in any order.\<close>

definition limited :: "event_query \<Rightarrow> event_row list \<Rightarrow> event_row list \<Rightarrow> bool" where
  "limited q rows out \<longleftrightarrow>
     (\<exists>xs. mset xs = mset rows \<and> in_order (q_desc q) xs \<and> out = take (q_limit q) xs)"

text \<open>
  The query builder puts the order and the limit of the first query behind the whole union
  (\<open>test/unit/repositories/event-repository.spec.ts\<close>, "2 filters").
\<close>

definition query_result ::
    "event_query \<times> event_query list \<Rightarrow> event_row list \<Rightarrow> event_row list result \<Rightarrow> bool" where
  "query_result fq rows res \<longleftrightarrow>
     (case fq of (q, qs) \<Rightarrow>
        if list_ex ambiguous (q # qs)
        then res = Inl (Err ''error'' ''column reference \"event_id\" is ambiguous'')
        else if qs = [] then (\<exists>out. res = Inr out \<and> limited q (selected q rows) out)
        else (\<exists>outs out. res = Inr out \<and> list_all2 (\<lambda>q' o'. limited q' (selected q' rows) o') qs outs \<and>
               limited q (remdups (selected q rows @ concat outs)) out))"


section \<open>Prefixes of hexadecimal strings\<close>

lemma hex_pair_eq:
  fixes w v :: "8 word"
  shows "hex_char (unat w div 16) = hex_char (unat v div 16) \<and>
    hex_char (unat w mod 16) = hex_char (unat v mod 16) \<longleftrightarrow> w = v"
  using fromBuffer_inj [of "[w]" "[v]"] by simp

lemma prefix_fromBuffer: "prefix (fromBuffer q) (fromBuffer b) \<longleftrightarrow> prefix q b"
proof (induction q arbitrary: b)
  case (Cons w q)
  note IH = Cons.IH
  show ?case
  proof (cases b)
    case (Cons v bs)
    then show ?thesis using IH [of bs] hex_pair_eq [of w v] by simp blast
  qed simp
qed simp

lemma prefix_take: "prefix q b \<longleftrightarrow> take (length q) b = q"
  by (metis append_eq_conv_conj prefix_def)

lemma toBuffer_append: "toBuffer (fromBuffer q @ s) = q @ toBuffer s"
  by (induction q) simp_all

lemma odd_hex_split:
  assumes "list_all is_lower_hex_char p" and "odd (length p)"
  obtains q x where "p = fromBuffer q @ [hex_char x]" "x < 16" "length p div 2 = length q"
proof -
  from assms(2) have "p \<noteq> []" by auto
  then have p: "p = butlast p @ [last p]" by simp
  have "fromBuffer (toBuffer (butlast p)) = butlast p"
    using assms p by (intro fromBuffer_toBuffer) (auto simp: list_all_iff dest: in_set_butlastD)
  moreover obtain x where "x < 16" "hex_char x = last p"
    using assms \<open>p \<noteq> []\<close> hex_val_lower [of "last p"] by (auto simp: list_all_iff)
  ultimately have "p = fromBuffer (toBuffer (butlast p)) @ [hex_char x]" "x < 16" using p by simp_all
  moreover from this have "length p div 2 = length (toBuffer (butlast p))"
    by (metis add_diff_cancel_left' length_append_singleton length_fromBuffer nonzero_mult_div_cancel_left
        odd_two_times_div_two_nat diff_Suc_1 assms(2) zero_neq_numeral)
  ultimately show ?thesis using that by blast
qed

lemma odd_prefix_iff:
  "x < 16 \<Longrightarrow> length q < length b \<Longrightarrow>
     prefix (fromBuffer q @ [hex_char x]) (fromBuffer b) \<longleftrightarrow>
     take (length q) b = q \<and> unat (b ! length q) div 16 = x"
proof (induction q arbitrary: b)
  case Nil
  then show ?case by (cases b) (auto simp: hex_char_inj)
next
  case (Cons w q)
  then obtain v bs where b: "b = v # bs" "length q < length bs" by (cases b) auto
  show ?case using Cons.IH [OF Cons.prems(1) b(2)] hex_pair_eq [of w v] by (simp add: b(1)) blast
qed

lemma bytes_between:
  "length c = length q \<Longrightarrow>
     bytes_le (q @ [lo]) (c @ [m]) \<and> bytes_le (c @ [m]) (q @ [hi]) \<longleftrightarrow> c = q \<and> lo \<le> m \<and> m \<le> hi"
proof (induction q arbitrary: c)
  case Nil
  then show ?case by auto
next
  case (Cons w q)
  then show ?case by (cases c) auto
qed

lemma nibble_range:
  fixes m :: "8 word"
  assumes "x < 16"
  shows "word_of_nat (16 * x) \<le> m \<and> m \<le> word_of_nat (16 * x + 15) \<longleftrightarrow> unat m div 16 = x"
proof -
  have "unat (word_of_nat (16 * x) :: 8 word) = 16 * x" "unat (word_of_nat (16 * x + 15) :: 8 word) = 16 * x + 15"
    using assms by (simp_all only: unat_byte_of_nat)
  then show ?thesis unfolding word_le_nat_alt by linarith
qed

text \<open>The three forms of prefix condition agree with \<open>startsWith\<close> on the hexadecimal text.\<close>

lemma exact_prefix:
  assumes "is_lower_hex 64 p" and "length b = 32"
  shows "b = toBuffer p \<longleftrightarrow> prefix p (fromBuffer b)"
proof -
  have "prefix p (fromBuffer b) \<longleftrightarrow> p = fromBuffer b"
    using assms by (metis is_lower_hex_def length_fromBuffer append_Nil2 append_eq_conv_conj prefix_def
        mult_2 numeral_Bit0 take_all_iff order_refl)
  then show ?thesis using assms fromBuffer_toBuffer [of p] by (auto simp: is_lower_hex_def)
qed

lemma even_prefix:
  assumes "list_all is_lower_hex_char p" and "even (length p)"
  shows "take (length p div 2) b = toBuffer p \<longleftrightarrow> prefix p (fromBuffer b)"
  using prefix_fromBuffer [of "toBuffer p" b] fromBuffer_toBuffer [OF assms]
    length_toBuffer_hex [OF assms(1)] prefix_take by metis

lemma odd_prefix:
  assumes p: "list_all is_lower_hex_char p" "odd (length p)" and len: "length p < 2 * length b"
  shows "bytes_le (bytea_in (bytea_text p (CHR ''0''))) (take (length p div 2 + 1) b) \<and>
      bytes_le (take (length p div 2 + 1) b) (bytea_in (bytea_text p (CHR ''f''))) \<longleftrightarrow>
    prefix p (fromBuffer b)"
proof -
  obtain q x where q: "p = fromBuffer q @ [hex_char x]" "x < 16" "length p div 2 = length q"
    using odd_hex_split p by metis
  have hex: "hex_val (CHR ''0'') = Some 0" "hex_val (CHR ''f'') = Some 15" by code_simp+
  have ends: "bytea_in (bytea_text p (CHR ''0'')) = q @ [word_of_nat (16 * x)]"
      "bytea_in (bytea_text p (CHR ''f'')) = q @ [word_of_nat (16 * x + 15)]"
    using q(2) by (simp_all add: bytea_in_def bytea_text_def q(1) toBuffer_append hex)
  have lt: "length q < length b" using len q by simp
  then have t: "take (length p div 2 + 1) b = take (length q) b @ [b ! length q]"
    by (simp add: q(3) take_Suc_conv_app_nth)
  show ?thesis
    unfolding t ends using bytes_between [of "take (length q) b" q] lt
      odd_prefix_iff [OF q(2) lt] nibble_range [OF q(2)] q(1) by (simp add: min_def)
qed


section \<open>The trigger and plain text\<close>

text \<open>Text that JSON prints as it is; the schema of filters excludes empty criteria.\<close>

definition plain_text :: "string \<Rightarrow> bool" where
  "plain_text s \<longleftrightarrow> s \<noteq> [] \<and> list_all (\<lambda>c. json_escape c = [c]) s"

lemma quote_escaped: "json_escape c = [c] \<Longrightarrow> c \<noteq> CHR 0x22 \<and> c \<noteq> CHR 0x5C"
  by (auto simp: json_escape_def char_code_def)

lemma trim_quotes_id:
  "CHR 0x22 \<notin> set s \<Longrightarrow> trim_quotes (CHR 0x22 # s @ [CHR 0x22]) = s"
proof -
  assume s: "CHR 0x22 \<notin> set s"
  have drop: "dropWhile (\<lambda>c. c = CHR 0x22) xs = xs" if "CHR 0x22 \<notin> set xs" for xs
    using that by (cases xs) auto
  show ?thesis
  proof (cases "s = []")
    case False
    then have "dropWhile (\<lambda>c. c = CHR 0x22) (s @ [CHR 0x22]) = s @ [CHR 0x22]"
      using s by (cases s) auto
    then show ?thesis using drop [of "rev s"] s by (simp add: trim_quotes_def)
  qed (simp add: trim_quotes_def)
qed

lemma in_trim_quotes: "c \<in> set s \<Longrightarrow> c \<noteq> CHR 0x22 \<Longrightarrow> c \<in> set (trim_quotes s)"
proof -
  have "c \<in> set xs \<Longrightarrow> c \<noteq> CHR 0x22 \<Longrightarrow> c \<in> set (dropWhile (\<lambda>c. c = CHR 0x22) xs)" for xs
    by (induction xs) auto
  then show "c \<in> set s \<Longrightarrow> c \<noteq> CHR 0x22 \<Longrightarrow> c \<in> set (trim_quotes s)"
    by (simp add: trim_quotes_def)
qed

lemma escape_backslash: "json_escape c \<noteq> [c] \<Longrightarrow> CHR 0x5C \<in> set (json_escape c)"
  by (auto simp: json_escape_def Let_def split: if_splits)

lemma trigger_text_unescaped: "list_all (\<lambda>c. json_escape c = [c]) s \<Longrightarrow> trigger_text s = s"
proof -
  assume s: "list_all (\<lambda>c. json_escape c = [c]) s"
  then have "concat (map json_escape s) = s" by (induction s) auto
  moreover have "CHR 0x22 \<notin> set s" using s quote_escaped by (auto simp: list_all_iff)
  ultimately show ?thesis using trim_quotes_id by (simp add: trigger_text_def json_string_def)
qed

lemma trigger_text_plain: "plain_text w \<Longrightarrow> trigger_text v = w \<longleftrightarrow> v = w"
proof
  assume w: "plain_text w" and t: "trigger_text v = w"
  have "list_all (\<lambda>c. json_escape c = [c]) v"
  proof (rule ccontr)
    assume "\<not> ?thesis"
    then obtain c where "c \<in> set v" "json_escape c \<noteq> [c]" by (auto simp: list_all_iff)
    then have "CHR 0x5C \<in> set (json_string v)"
      using escape_backslash by (auto simp: json_string_def)
    then have "CHR 0x5C \<in> set w" using in_trim_quotes [of "CHR 0x5C" "json_string v"] t
      by (simp add: trigger_text_def)
    then show False using w quote_escaped by (auto simp: plain_text_def list_all_iff)
  qed
  then show "v = w" using trigger_text_unescaped t by simp
qed (auto simp: plain_text_def trigger_text_unescaped)

lemma letter_plain: "is_letter c \<Longrightarrow> plain_text [c]"
  by (auto simp: plain_text_def is_letter_def json_escape_def Let_def)

lemma tag_rows_iff:
  assumes "is_letter c" and "plain_text w"
  shows "([c], w) \<in> set (tag_rows r) \<longleftrightarrow> (\<exists>rest. ([c] # w # rest) \<in> set (event_tags r))"
proof -
  have "tag_row t = Some ([c], w) \<longleftrightarrow> (\<exists>rest. t = [c] # w # rest)" for t
  proof (cases t)
    case (Cons name rest)
    show ?thesis
    proof (cases rest)
      case (Cons v rest')
      have w: "w \<noteq> []" using assms(2) by (simp add: plain_text_def)
      have "trigger_text [c] = [c]" "trigger_text w = w"
        using trigger_text_plain assms letter_plain by blast+
      moreover have "trigger_text name = [c] \<longleftrightarrow> name = [c]" "trigger_text v = w \<longleftrightarrow> v = w"
        using trigger_text_plain assms letter_plain by blast+
      ultimately show ?thesis using w Cons \<open>t = name # rest\<close>
        by (cases "name = [c] \<and> v = w") (auto simp: tag_row_def)
    qed (use Cons in \<open>simp add: tag_row_def\<close>)
  qed (simp add: tag_row_def)
  then show ?thesis
    by (auto simp: tag_rows_def List.map_filter_def image_iff) (metis option.sel option.distinct(1))+
qed

section \<open>Conditions and filters\<close>

definition hex_prefixes :: "string list option \<Rightarrow> bool" where
  "hex_prefixes ps =
     (case ps of None \<Rightarrow> True
      | Some l \<Rightarrow> list_all (\<lambda>p. length p \<le> 64 \<and> list_all is_lower_hex_char p) l)"

text \<open>A filter the schema admits, with criteria that JSON prints as they are.\<close>

definition plain_filter :: "subscription_filter \<Rightarrow> bool" where
  "plain_filter f \<longleftrightarrow> hex_prefixes (f_ids f) \<and> hex_prefixes (f_authors f) \<and>
     list_all (\<lambda>(key, criteria). list_all plain_text criteria) (tag_entries f)"

definition stored_row :: "event_row \<Rightarrow> bool" where
  "stored_row r \<longleftrightarrow> length (event_id r) = 32 \<and> length (event_pubkey r) = 32"

lemma holds_AnyOf: "holds j (AnyOf cs) \<longleftrightarrow> (\<exists>c \<in> set cs. holds j c)"
  by (simp add: list_ex_iff)

lemma prefix_conditions_iff:
  assumes "hex_prefixes criteria" and len: "length (column_value (fst j) col) = 32"
  shows "list_all (holds j) (prefix_conditions col criteria) \<longleftrightarrow>
    (case criteria of None \<Rightarrow> True
     | Some ps \<Rightarrow> \<exists>p \<in> set ps. prefix p (fromBuffer (column_value (fst j) col)))"
proof (cases criteria)
  case (Some ps)
  let ?b = "column_value (fst j) col"
  have ok: "length p \<le> 64" "list_all is_lower_hex_char p" if "p \<in> set ps" for p
    using assms(1) Some that by (auto simp: hex_prefixes_def list_all_iff)
  have "list_all (holds j) (prefix_conditions col criteria) \<longleftrightarrow>
      (\<exists>p \<in> set (exact_group ps). ?b = toBuffer p) \<or>
      (\<exists>p \<in> set (even_group ps). take (length p div 2) ?b = toBuffer p) \<or>
      (\<exists>p \<in> set (odd_group ps).
         bytes_le (bytea_in (bytea_text p (CHR ''0''))) (take (length p div 2 + 1) ?b) \<and>
         bytes_le (take (length p div 2 + 1) ?b) (bytea_in (bytea_text p (CHR ''f''))))"
  proof (cases "ps = []")
    case True
    then show ?thesis
      by (simp add: Some prefix_conditions_def exact_group_def even_group_def odd_group_def)
  next
    case False
    then show ?thesis
      by (cases "exact_group ps = []")
         (simp_all add: Some prefix_conditions_def holds_AnyOf bex_Un image_iff
           del: holds.simps(9))
  qed
  also have "(\<exists>p \<in> set (exact_group ps). ?b = toBuffer p) \<longleftrightarrow>
      (\<exists>p \<in> set (exact_group ps). prefix p (fromBuffer ?b))"
    using ok exact_prefix [OF _ len] by (auto simp: exact_group_def is_lower_hex_def)
  also have "(\<exists>p \<in> set (even_group ps). take (length p div 2) ?b = toBuffer p) \<longleftrightarrow>
      (\<exists>p \<in> set (even_group ps). prefix p (fromBuffer ?b))"
    using ok even_prefix by (auto simp: even_group_def)
  also have "(\<exists>p \<in> set (odd_group ps).
         bytes_le (bytea_in (bytea_text p (CHR ''0''))) (take (length p div 2 + 1) ?b) \<and>
         bytes_le (take (length p div 2 + 1) ?b) (bytea_in (bytea_text p (CHR ''f'')))) \<longleftrightarrow>
      (\<exists>p \<in> set (odd_group ps). prefix p (fromBuffer ?b))"
  proof (rule bex_cong)
    fix p assume p: "p \<in> set (odd_group ps)"
    then have "length p \<noteq> 64" by (auto simp: odd_group_def)
    then have "length p < 2 * length ?b" using ok [of p] p len by (simp add: odd_group_def)
    then show "bytes_le (bytea_in (bytea_text p (CHR ''0''))) (take (length p div 2 + 1) ?b) \<and>
         bytes_le (take (length p div 2 + 1) ?b) (bytea_in (bytea_text p (CHR ''f''))) \<longleftrightarrow>
       prefix p (fromBuffer ?b)"
      using p ok [of p] by (intro odd_prefix) (auto simp: odd_group_def)
  qed simp
  finally show ?thesis using Some by (auto simp: exact_group_def even_group_def odd_group_def)
qed (simp add: prefix_conditions_def)

text \<open>The conjuncts of \<open>isEventMatchingFilter\<close> that are not about tags.\<close>

definition matches_columns :: "subscription_filter \<Rightarrow> nostr_event \<Rightarrow> bool" where
  "matches_columns f e \<longleftrightarrow> isEventMatchingFilter (f\<lparr>f_entries := []\<rparr>) e"

lemma matching_split:
  "isEventMatchingFilter f e \<longleftrightarrow> matches_columns f e \<and>
     (\<forall>(key, criteria) \<in> set (tag_entries f). list_ex (tag_matches key criteria) (ev_tags e))"
proof -
  have "(\<forall>entry \<in> set (f_entries f). \<not> entry_excludes e entry) \<longleftrightarrow>
      (\<forall>(key, criteria) \<in> set (tag_entries f). list_ex (tag_matches key criteria) (ev_tags e))"
    by (fastforce simp: tag_entries_def entry_excludes_def split: option.splits if_splits)
  then show ?thesis by (auto simp: matches_columns_def isEventMatchingFilter_iff)
qed

lemma toNostrEvent_simps [simp]:
  "ev_id (toNostrEvent r) = fromBuffer (event_id r)"
  "ev_pubkey (toNostrEvent r) = fromBuffer (event_pubkey r)"
  "ev_created_at (toNostrEvent r) = event_created_at r" "ev_kind (toNostrEvent r) = event_kind r"
  "ev_tags (toNostrEvent r) = event_tags r"
  by (simp_all add: toNostrEvent_def)

lemma holds_iff:
  assumes "plain_filter f" and "stored_row (fst j)"
  shows "list_all (holds j) (q_where (filter_query f)) \<longleftrightarrow>
    matches_columns f (toNostrEvent (fst j)) \<and>
    list_all (holds j) (map tag_condition (tag_entries f))"
  using assms prefix_conditions_iff [of "f_authors f" j EventPubkeyColumn]
    prefix_conditions_iff [of "f_ids f" j EventIdColumn]
  by (auto simp: filter_query_def plain_filter_def stored_row_def matches_columns_def
      isEventMatchingFilter_iff split: option.splits)

lemma in_selected_iff:
  "r \<in> set (selected q rows) \<longleftrightarrow>
     r \<in> set rows \<and> (\<exists>j \<in> set (joined q r). list_all (holds j) (q_where q))"
proof -
  have "fst j = r" if "j \<in> set (joined q r)" for j r
    using that by (auto simp: joined_def split: if_splits)
  then show ?thesis by (auto simp: selected_def image_iff) (metis fst_conv)+
qed

lemma tag_entries_generic:
  "(key, criteria) \<in> set (tag_entries f) \<Longrightarrow> \<exists>c. key = [CHR ''#'', c] \<and> is_letter c"
  by (auto simp: tag_entries_def isGenericTagQuery_iff split: option.splits if_splits)

lemma tag_condition_iff:
  "holds (r, t) (tag_condition ([CHR ''#'', c], criteria)) \<longleftrightarrow>
     (\<exists>v \<in> set criteria. t = Some ([c], v))"
  by (auto simp: tag_condition_def list_ex_iff)

lemma tag_condition_row:
  assumes "plain_filter f" and "(key, criteria) \<in> set (tag_entries f)"
  shows "(\<exists>t \<in> set (tag_rows r). holds (r, Some t) (tag_condition (key, criteria))) \<longleftrightarrow>
    list_ex (tag_matches key criteria) (event_tags r)"
proof -
  obtain c where c: "key = [CHR ''#'', c]" "is_letter c" using tag_entries_generic assms(2) by blast
  have plain: "plain_text v" if "v \<in> set criteria" for v
    using assms that by (auto simp: plain_filter_def list_all_iff)
  have "(\<exists>t \<in> set (tag_rows r). holds (r, Some t) (tag_condition (key, criteria))) \<longleftrightarrow>
      (\<exists>v \<in> set criteria. ([c], v) \<in> set (tag_rows r))"
    unfolding c(1) tag_condition_iff by auto
  also have "\<dots> \<longleftrightarrow> (\<exists>v \<in> set criteria. \<exists>rest. ([c] # v # rest) \<in> set (event_tags r))"
    using tag_rows_iff [OF c(2)] plain by auto
  finally show ?thesis unfolding c(1) list_ex_iff tag_matches_iff by blast
qed


lemma tag_entries_join [simp]:
  "q_join (filter_query f) \<longleftrightarrow> tag_entries f \<noteq> []" "q_limit (filter_query f) = (case f_limit f of None \<Rightarrow> 500 | Some n \<Rightarrow> nat n)"
  by (simp_all add: filter_query_def)

lemma joined_cases:
  assumes "j \<in> set (joined q r)"
  obtains "j = (r, None)" | t where "j = (r, Some t)" "t \<in> set (tag_rows r)"
  using assms by (auto simp: joined_def split: if_splits)

text \<open>Soundness holds for any number of tag entries.\<close>

lemma selected_matches:
  assumes "plain_filter f" and "stored_row r" and "r \<in> set (selected (filter_query f) rows)"
  shows "r \<in> set rows \<and> isEventMatchingFilter f (toNostrEvent r)"
proof -
  obtain j where j: "j \<in> set (joined (filter_query f) r)" "list_all (holds j) (q_where (filter_query f))"
    using assms(3) in_selected_iff by blast
  then have fst: "fst j = r" by (auto elim: joined_cases)
  with holds_iff [of f j] assms j have h: "matches_columns f (toNostrEvent r)"
      "list_all (holds j) (map tag_condition (tag_entries f))" by auto
  have "list_ex (tag_matches key criteria) (event_tags r)" if entry: "(key, criteria) \<in> set (tag_entries f)" for key criteria
  proof -
    obtain c where c: "key = [CHR ''#'', c]" using tag_entries_generic entry by blast
    have hc: "holds j (tag_condition (key, criteria))" using h(2) entry by (force simp: list_all_iff)
    from j(1) show ?thesis
    proof (cases rule: joined_cases)
      case 1
      then show ?thesis using hc by (simp add: c tag_condition_iff del: holds.simps)
    next
      case (2 t)
      then show ?thesis using hc tag_condition_row [OF assms(1) entry, of r] by blast
    qed
  qed
  then have "isEventMatchingFilter f (toNostrEvent r)"
    unfolding matching_split [of f] using h(1) by auto
  then show ?thesis using assms(3) in_selected_iff by blast
qed

lemma selected_complete:
  assumes plain: "plain_filter f" and row: "stored_row r" "r \<in> set rows"
    and one: "length (tag_entries f) \<le> 1" and match: "isEventMatchingFilter f (toNostrEvent r)"
  shows "r \<in> set (selected (filter_query f) rows)"
proof (cases "tag_entries f")
  case Nil
  then have j: "(r, None) \<in> set (joined (filter_query f) r)" by (simp add: joined_def)
  moreover have "list_all (holds (r, None)) (q_where (filter_query f))"
    using holds_iff [OF plain, of "(r, None)"] row match Nil by (simp add: matching_split [of f])
  ultimately show ?thesis using row in_selected_iff by blast
next
  case (Cons entry rest)
  with one have entries: "tag_entries f = [entry]" by simp
  obtain key criteria where entry: "entry = (key, criteria)" by force
  have "list_ex (tag_matches key criteria) (event_tags r)"
    using match entries entry by (simp add: matching_split [of f])
  then obtain t where t: "t \<in> set (tag_rows r)" "holds (r, Some t) (tag_condition (key, criteria))"
    using tag_condition_row [OF plain, of key criteria r] entries entry by auto
  have j: "(r, Some t) \<in> set (joined (filter_query f) r)" using t(1) entries by (auto simp: joined_def)
  moreover have "list_all (holds (r, Some t)) (q_where (filter_query f))"
    using holds_iff [OF plain, of "(r, Some t)"] row match entries entry t(2)
    by (simp add: matching_split [of f])
  ultimately show ?thesis using row in_selected_iff by blast
qed

lemma findByFilters_Cons: "findByFilters (f # fs) = Inr (filter_query f, map filter_query fs)"
  by (simp add: findByFilters_def)

lemma limited_subset: "limited q rows out \<Longrightarrow> set out \<subseteq> set rows \<and> length out \<le> q_limit q"
  unfolding limited_def by (metis length_take min.cobounded2 set_mset_mset set_take_subset)

lemma list_all2_in_concat:
  "list_all2 P qs outs \<Longrightarrow> r \<in> set (concat outs) \<Longrightarrow>
     \<exists>q out. q \<in> set qs \<and> P q out \<and> r \<in> set out"
  by (induction rule: list_all2_induct) auto

lemma query_result_in_selected:
  assumes "findByFilters filters = Inr fq" and "query_result fq rows (Inr out)" and "r \<in> set out"
  shows "\<exists>f \<in> set filters. r \<in> set (selected (filter_query f) rows)"
proof -
  obtain f fs where f: "filters = f # fs" "fq = (filter_query f, map filter_query fs)"
    using assms(1) by (auto simp: findByFilters_def split: list.splits)
  show ?thesis
  proof (cases "fs = []")
    case True
    then show ?thesis
      using assms(2,3) f limited_subset by (fastforce simp: query_result_def split: if_splits)
  next
    case False
    then obtain outs where outs: "list_all2 (\<lambda>q' o'. limited q' (selected q' rows) o') (map filter_query fs) outs"
        "limited (filter_query f) (remdups (selected (filter_query f) rows @ concat outs)) out"
      using assms(2) f by (auto simp: query_result_def split: if_splits)
    then have "r \<in> set (selected (filter_query f) rows) \<or> r \<in> set (concat outs)"
      using limited_subset assms(3) by fastforce
    then show ?thesis
    proof
      assume "r \<in> set (concat outs)"
      from list_all2_in_concat [OF outs(1) this] obtain g o' where
          "g \<in> set fs" "limited (filter_query g) (selected (filter_query g) rows) o'" "r \<in> set o'"
        by auto
      then show ?thesis using limited_subset f(1) by fastforce
    qed (simp add: f(1))
  qed
qed

section \<open>Properties\<close>


definition tagged_event :: nostr_event where
  "tagged_event = sample_event\<lparr>ev_tags := [[''e'', ''x''], [''p'', ''y'']]\<rparr>"

definition tag_filter :: subscription_filter where
  "tag_filter = empty_filter\<lparr>f_authors := Some [''bbbbb''], f_entries := [(''#e'', Some [''x''])]\<rparr>"




text \<open>
  C14. A filter with entries for two different tags selects no stored event: both conditions are put
  on the same joined row of \<open>event_tags\<close>, which has one name. Live events with both tags do satisfy
  such a filter.
\<close>

theorem two_tag_entries_select_nothing:
  assumes "(key, criteria) \<in> set (tag_entries f)" and "(key', criteria') \<in> set (tag_entries f)"
    and "key \<noteq> key'"
  shows "selected (filter_query f) rows = []"
proof -
  obtain c c' where c: "key = [CHR ''#'', c]" "key' = [CHR ''#'', c']"
    using tag_entries_generic assms(1,2) by meson
  have "\<not> list_all (holds (r, t)) (q_where (filter_query f))" for r t
  proof
    assume "list_all (holds (r, t)) (q_where (filter_query f))"
    then have "list_all (holds (r, t)) (map tag_condition (tag_entries f))" by (simp add: filter_query_def)
    then have "holds (r, t) (tag_condition (key, criteria))" "holds (r, t) (tag_condition (key', criteria'))"
      using assms(1,2) by (force simp: list_all_iff)+
    then have "[c] = [c']" unfolding c tag_condition_iff by force
    then show False using assms(3) c by simp
  qed
  then show ?thesis by (auto simp: selected_def filter_empty_conv)
qed

theorem two_tag_entries_select_nothing_witness:
  "(let f = empty_filter\<lparr>f_entries := [(''#e'', Some [''x'']), (''#p'', Some [''y''])]\<rparr> in
    isEventMatchingFilter f tagged_event \<and> selected (filter_query f) [insert_row tagged_event] = [])"
proof -
  let ?f = "empty_filter\<lparr>f_entries := [(''#e'', Some [''x'']), (''#p'', Some [''y''])]\<rparr>"
  have "tag_entries ?f = [(''#e'', [''x'']), (''#p'', [''y''])]" by code_simp
  then have "selected (filter_query ?f) [insert_row tagged_event] = []"
    by (intro two_tag_entries_select_nothing [of "''#e''" "[''x'']" _ "''#p''" "[''y'']"]) simp_all
  moreover have "isEventMatchingFilter ?f tagged_event" by code_simp
  ultimately show ?thesis by simp
qed

end
