(* ===== verification/Subscription_Handler.thy ===== *)
theory Subscription_Handler
  imports Event_Queries Event_Strategies
begin

text \<open>
  \<open>src/handlers/subscribe-message-handler.ts\<close> and \<open>unsubscribe-message-handler.ts\<close> with the stream
  helpers of \<open>src/utils/stream.ts\<close>: the limits on subscriptions, the answer to a REQ from storage and
  its end marker. Streaming the rows of a query is the parameter \<open>fetch\<close>: the rows it produced and
  the error it ended with, if any. What the handler relies on of it is the locale \<open>query_stream\<close>.
\<close>

section \<open>Equality of filters\<close>

text \<open>Ramda's \<open>equals\<close> on two filter objects: same properties with equal values; the order of the
  properties of an object does not matter, that of the elements of an array does.\<close>

definition filter_equals :: "subscription_filter \<Rightarrow> subscription_filter \<Rightarrow> bool" where
  "filter_equals f g \<longleftrightarrow>
     f_ids f = f_ids g \<and> f_kinds f = f_kinds g \<and> f_since f = f_since g \<and> f_until f = f_until g \<and>
     f_authors f = f_authors g \<and> f_limit f = f_limit g \<and> set (f_entries f) = set (f_entries g)"

definition filters_equal :: "subscription_filter list \<Rightarrow> subscription_filter list \<Rightarrow> bool" where
  "filters_equal fs gs = list_all2 filter_equals fs gs"

text \<open>\<open>uniqWith(equals, filters)\<close> keeps the first of equal elements.\<close>

fun uniqWith_loop :: "('a \<Rightarrow> 'a \<Rightarrow> bool) \<Rightarrow> 'a list \<Rightarrow> 'a list \<Rightarrow> 'a list" where
  "uniqWith_loop eq acc [] = acc"
| "uniqWith_loop eq acc (x # xs) =
     (if list_ex (eq x) acc then uniqWith_loop eq acc xs else uniqWith_loop eq (acc @ [x]) xs)"

definition uniqWith :: "('a \<Rightarrow> 'a \<Rightarrow> bool) \<Rightarrow> 'a list \<Rightarrow> 'a list" where
  "uniqWith eq xs = uniqWith_loop eq [] xs"

section \<open>canSubscribe\<close>

text \<open>The subscriptions of a client, a \<open>Map\<close> in insertion order.\<close>

type_synonym subscriptions = "(string \<times> subscription_filter list) list"

definition subscription_limits :: "relay_settings \<Rightarrow> client_subscription_limits option" where
  "subscription_limits st =
     (case st_limits st of None \<Rightarrow> None | Some l \<Rightarrow> lm_client_subscription l)"

definition limit_or_zero :: "int option \<Rightarrow> int" where
  "limit_or_zero v = (case v of None \<Rightarrow> 0 | Some x \<Rightarrow> x)"

definition maxSubscriptions :: "relay_settings \<Rightarrow> int" where
  "maxSubscriptions st =
     (case subscription_limits st of None \<Rightarrow> 0 | Some l \<Rightarrow> limit_or_zero (cs_maxSubscriptions l))"

definition maxFilters :: "relay_settings \<Rightarrow> int" where
  "maxFilters st =
     (case subscription_limits st of None \<Rightarrow> 0 | Some l \<Rightarrow> limit_or_zero (cs_maxFilters l))"

text \<open>\<open>existingSubscription?.length\<close> as a condition.\<close>

definition has_filters :: "subscription_filter list option \<Rightarrow> bool" where
  "has_filters existing = (case existing of None \<Rightarrow> False | Some fs \<Rightarrow> fs \<noteq> [])"

text \<open>Without subscription limits in the settings the last test reads a property of undefined.\<close>

definition canSubscribe ::
    "relay_settings \<Rightarrow> subscriptions \<Rightarrow> string \<Rightarrow> subscription_filter list \<Rightarrow> string option result" where
  "canSubscribe st subscriptions subscriptionId filters =
     (let existingSubscription = map_of subscriptions subscriptionId in
      if has_filters existingSubscription \<and> filters_equal filters (the existingSubscription)
      then Inr (Some (''Duplicate subscription '' @ subscriptionId @ '': Ignoring''))
      else if maxSubscriptions st > 0 \<and> \<not> has_filters existingSubscription \<and>
              int (length subscriptions) + 1 > maxSubscriptions st
      then Inr (Some (''Too many subscriptions: Number of subscriptions must be less than or equal to '' @
             int_to_string (maxSubscriptions st)))
      else if maxFilters st > 0 \<and> int (length filters) > maxFilters st
      then Inr (Some (''Too many filters: Number of filters per susbscription must be less then or equal to '' @
             int_to_string (maxFilters st)))
      else case subscription_limits st of
             None \<Rightarrow> Inl (type_error ''Cannot read properties of undefined (reading 'maxSubscriptionIdLength')'')
           | Some l \<Rightarrow>
               (case cs_maxSubscriptionIdLength l of
                  None \<Rightarrow> Inr None
                | Some m \<Rightarrow>
                    if int (length subscriptionId) > m
                    then Inr (Some (''Subscription ID too long: Subscription ID must be less or equal to '' @
                           int_to_string m))
                    else Inr None))"

section \<open>fetchAndSend\<close>

type_synonym 'w row_stream = "event_query \<times> event_query list \<Rightarrow> 'w \<Rightarrow> (event_row list \<times> exn option) \<times> 'w"

definition isClientSubscribedToEvent :: "subscription_filter list \<Rightarrow> nostr_event \<Rightarrow> bool" where
  "isClientSubscribedToEvent filters e = list_ex (\<lambda>f. isEventMatchingFilter f e) filters"

text \<open>The pipeline \<open>streamFilter\<close>, \<open>streamMap\<close>, \<open>streamFilter\<close>, \<open>streamEach\<close>, as list functions.\<close>

definition stream_events :: "subscription_filter list \<Rightarrow> event_row list \<Rightarrow> nostr_event list" where
  "stream_events filters rows =
     filter (isClientSubscribedToEvent filters)
       (map toNostrEvent (filter (\<lambda>r. deleted_at r = None) rows))"

definition fetchAndSend ::
    "'w row_stream \<Rightarrow> string \<Rightarrow> subscription_filter list \<Rightarrow> 'w \<Rightarrow> 'w outcome" where
  "fetchAndSend fetch subscriptionId filters w =
     (case findByFilters filters of
        Inl x \<Rightarrow> ([], Inl x, w)
      | Inr query \<Rightarrow>
          (case fetch query w of
             ((rows, err), w') \<Rightarrow>
               let sent = map (\<lambda>e. EmitMessage (createOutgoingEventMessage subscriptionId e))
                            (stream_events filters rows) in
               (case err of
                  Some x \<Rightarrow> (sent, Inl x, w')
                | None \<Rightarrow>
                    (sent @ [EmitMessage (createEndOfStoredEventsNoticeMessage subscriptionId)], Inr (), w'))))"

section \<open>The handlers\<close>

definition subscribe_handleMessage ::
    "'w row_stream \<Rightarrow> subscriptions \<Rightarrow> relay_settings \<Rightarrow> string \<Rightarrow> subscription_filter list \<Rightarrow> 'w \<Rightarrow> 'w outcome" where
  "subscribe_handleMessage fetch subscriptions st subscriptionId raw_filters w =
     (let filters = uniqWith filter_equals raw_filters in
      case canSubscribe st subscriptions subscriptionId filters of
        Inl x \<Rightarrow> ([], Inl x, w)
      | Inr (Some reason) \<Rightarrow>
          ([EmitMessage (createNoticeMessage (''Subscription rejected: '' @ reason))], Inr (), w)
      | Inr None \<Rightarrow>
          (case fetchAndSend fetch subscriptionId filters w of
             (acts, res, w') \<Rightarrow> (EmitSubscribe subscriptionId filters # acts, res, w')))"

definition unsubscribe_handleMessage :: "string \<Rightarrow> 'w \<Rightarrow> 'w outcome" where
  "unsubscribe_handleMessage subscriptionId w = ([EmitUnsubscribe subscriptionId], Inr (), w)"

section \<open>Lemmas\<close>

lemma filter_equals_matching: "filter_equals f g \<Longrightarrow> isEventMatchingFilter f e = isEventMatchingFilter g e"
  by (simp add: filter_equals_def isEventMatchingFilter_iff)

lemma uniqWith_loop_sub: "set (uniqWith_loop eq acc xs) \<subseteq> set acc \<union> set xs"
  by (induction xs arbitrary: acc) (fastforce split: if_splits)+

lemma uniqWith_subset: "set (uniqWith eq xs) \<subseteq> set xs"
  using uniqWith_loop_sub [of eq "[]" xs] by (simp add: uniqWith_def)

lemma uniqWith_loop_acc: "set acc \<subseteq> set (uniqWith_loop eq acc xs)"
proof (induction xs arbitrary: acc)
  case (Cons x xs)
  show ?case using Cons.IH [of acc] Cons.IH [of "acc @ [x]"] by auto
qed simp

lemma uniqWith_loop_represents:
  "(\<And>x. eq x x) \<Longrightarrow> x \<in> set acc \<union> set xs \<Longrightarrow> \<exists>y \<in> set (uniqWith_loop eq acc xs). eq x y"
proof (induction xs arbitrary: acc)
  case Nil
  then show ?case by auto
next
  case (Cons z xs)
  show ?case
  proof (cases "list_ex (eq z) acc")
    case True
    then have "\<exists>y \<in> set (uniqWith_loop eq acc xs). eq z y"
      using uniqWith_loop_acc [of acc eq xs] by (auto simp: list_ex_iff)
    then show ?thesis using True Cons.IH [of acc] Cons.prems by auto
  next
    case False
    then show ?thesis using Cons.IH [of "acc @ [z]"] Cons.prems by auto
  qed
qed

text \<open>Removing duplicate filters does not change what a subscription matches.\<close>

lemma uniqWith_matching:
  "isClientSubscribedToEvent (uniqWith filter_equals fs) e = isClientSubscribedToEvent fs e"
proof
  show "isClientSubscribedToEvent (uniqWith filter_equals fs) e \<Longrightarrow> isClientSubscribedToEvent fs e"
    using uniqWith_subset [of filter_equals fs] by (auto simp: isClientSubscribedToEvent_def list_ex_iff)
next
  assume "isClientSubscribedToEvent fs e"
  then obtain f where f: "f \<in> set fs" "isEventMatchingFilter f e"
    by (auto simp: isClientSubscribedToEvent_def list_ex_iff)
  have refl: "filter_equals x x" for x by (simp add: filter_equals_def)
  obtain g where "g \<in> set (uniqWith filter_equals fs)" "filter_equals f g"
    using uniqWith_loop_represents [of filter_equals f "[]" fs, OF refl] f(1) by (auto simp: uniqWith_def)
  then show "isClientSubscribedToEvent (uniqWith filter_equals fs) e"
    using filter_equals_matching f(2) by (auto simp: isClientSubscribedToEvent_def list_ex_iff)
qed

lemma uniqWith_Cons_not_Nil: "uniqWith eq (x # xs) \<noteq> []"
  using uniqWith_loop_acc [of "[x]" eq xs] by (auto simp: uniqWith_def)

lemma uniqWith_single [simp]: "uniqWith eq [x] = [x]"
  by (simp add: uniqWith_def)

text \<open>An accepted subscription fits the limits.\<close>

lemma canSubscribe_cap:
  assumes "canSubscribe st subs sid fs = Inr None" and "0 < maxSubscriptions st"
    and "map_of subs sid = None"
  shows "int (length subs) + 1 \<le> maxSubscriptions st"
  using assms by (auto simp: canSubscribe_def Let_def has_filters_def split: if_splits option.splits)

lemma canSubscribe_filters:
  assumes "canSubscribe st subs sid fs = Inr None" and "0 < maxFilters st"
  shows "int (length fs) \<le> maxFilters st"
  using assms by (auto simp: canSubscribe_def Let_def split: if_splits option.splits)

section \<open>The stream behind a query\<close>

text \<open>
  What is relied on of streaming a query: the rows delivered begin some result of the query over the
  stored rows, all of it if the stream does not fail; an ambiguous query fails at once; streaming
  changes nothing.
\<close>

locale query_stream =
  fixes fetch :: "'w row_stream" and rows :: "'w \<Rightarrow> event_row list"
  assumes fetch_result:
    "fetch q w = ((out, err), w') \<Longrightarrow>
       rows w' = rows w \<and>
       (out = [] \<and> err \<noteq> None \<or>
        (\<exists>all. query_result q (rows w) (Inr all) \<and> prefix out all \<and> (err = None \<longrightarrow> out = all)))"
begin

lemma fetched_row:
  assumes "fetch q w = ((out, err), w')" and "r \<in> set out"
  shows "\<exists>all. query_result q (rows w) (Inr all) \<and> r \<in> set all"
  using fetch_result [OF assms(1)] assms(2) by (auto dest: set_mono_prefix)

lemma fetchAndSend_matches:
  assumes run: "fetchAndSend fetch sid filters w = (acts, res, w')"
    and sent: "EmitMessage (OutEvent sid' e) \<in> set acts"
  shows "sid' = sid \<and> isClientSubscribedToEvent filters e \<and>
    (\<exists>r \<in> set (rows w). e = toNostrEvent r \<and> deleted_at r = None)"
proof -
  obtain q where q: "findByFilters filters = Inr q"
    using run sent by (auto simp: fetchAndSend_def split: sum.splits)
  obtain out err w1 where f: "fetch q w = ((out, err), w1)" using prod_cases3 by (metis prod.collapse)
  have "sid' = sid \<and> e \<in> set (stream_events filters out)"
    using run sent q f by (auto simp: fetchAndSend_def Let_def reply_simps split: option.splits)
  moreover from this obtain r where r: "r \<in> set out" "e = toNostrEvent r" "deleted_at r = None"
      "isClientSubscribedToEvent filters e"
    by (auto simp: stream_events_def)
  moreover have "r \<in> set (rows w)"
  proof -
    obtain all where "query_result q (rows w) (Inr all)" "r \<in> set all" using fetched_row [OF f r(1)] by blast
    from query_result_in_selected [OF q this] obtain g where "r \<in> set (selected (filter_query g) (rows w))"
      by blast
    then show ?thesis using in_selected_iff by blast
  qed
  ultimately show ?thesis by blast
qed

text \<open>One filter with at most one tag entry whose result fits its limit: everything stored is sent.\<close>

lemma fetchAndSend_complete:
  assumes plain: "plain_filter f" "length (tag_entries f) \<le> 1" and row: "r \<in> set (rows w)" "stored_row r"
    and live: "deleted_at r = None" and match: "isEventMatchingFilter f (toNostrEvent r)"
    and fits: "length (selected (filter_query f) (rows w)) \<le> q_limit (filter_query f)"
    and run: "fetchAndSend fetch sid [f] w = (acts, Inr (), w')"
  shows "EmitMessage (OutEvent sid (toNostrEvent r)) \<in> set acts"
proof -
  let ?q = "(filter_query f, [])"
  have q: "findByFilters [f] = Inr ?q" by (simp add: findByFilters_def)
  obtain out err w1 where f: "fetch ?q w = ((out, err), w1)" using prod_cases3 by (metis prod.collapse)
  have noerr: "err = None" using run q f by (auto simp: fetchAndSend_def Let_def split: option.splits)
  then have "query_result ?q (rows w) (Inr out)" using fetch_result [OF f] by auto
  then obtain xs where xs: "mset xs = mset (selected (filter_query f) (rows w))"
      "out = take (q_limit (filter_query f)) xs"
    by (auto simp: query_result_def limited_def split: if_splits)
  then have "set out = set (selected (filter_query f) (rows w))"
    using fits by (metis mset_eq_length mset_eq_setD take_all)
  then have "r \<in> set out" using selected_complete [OF plain(1) row(2,1) plain(2) match] by simp
  then have "toNostrEvent r \<in> set (stream_events [f] out)"
    using live match by (auto simp: stream_events_def isClientSubscribedToEvent_def)
  then show ?thesis using run q f noerr
    by (auto simp: fetchAndSend_def Let_def reply_simps)
qed

lemma subscribe_events:
  assumes run: "subscribe_handleMessage fetch subs st sid raw w = (acts, res, w')"
    and sent: "EmitMessage (OutEvent sid' e) \<in> set acts"
  shows "sid' = sid \<and> isClientSubscribedToEvent raw e \<and>
    (\<exists>r \<in> set (rows w). e = toNostrEvent r \<and> deleted_at r = None)"
proof -
  let ?fs = "uniqWith filter_equals raw"
  have ok: "canSubscribe st subs sid ?fs = Inr None"
    using run sent by (auto simp: subscribe_handleMessage_def Let_def reply_simps split: sum.splits option.splits)
  then obtain acts' where "fetchAndSend fetch sid ?fs w = (acts', res, w')" "acts = EmitSubscribe sid ?fs # acts'"
    using run by (auto simp: subscribe_handleMessage_def Let_def split: prod.splits)
  then show ?thesis using fetchAndSend_matches sent uniqWith_matching by fastforce
qed

lemma subscribe_complete:
  assumes plain: "plain_filter f" "length (tag_entries f) \<le> 1" and row: "r \<in> set (rows w)" "stored_row r"
    and live: "deleted_at r = None" and match: "isEventMatchingFilter f (toNostrEvent r)"
    and fits: "length (selected (filter_query f) (rows w)) \<le> q_limit (filter_query f)"
    and ok: "canSubscribe st subs sid [f] = Inr None"
    and run: "subscribe_handleMessage fetch subs st sid [f] w = (acts, Inr (), w')"
  shows "EmitMessage (OutEvent sid (toNostrEvent r)) \<in> set acts"
proof -
  obtain acts' where "fetchAndSend fetch sid [f] w = (acts', Inr (), w')" "acts = EmitSubscribe sid [f] # acts'"
    using run ok by (auto simp: subscribe_handleMessage_def Let_def split: prod.splits)
  then show ?thesis using fetchAndSend_complete [OF plain row live match fits] by auto
qed

end

text \<open>A stream over a list of rows: the query evaluated with a stable sort.\<close>

definition run_limited :: "event_query \<Rightarrow> event_row list \<Rightarrow> event_row list" where
  "run_limited q rs =
     take (q_limit q) (sort_key (\<lambda>r. if q_desc q then - event_created_at r else event_created_at r) rs)"

definition run_query :: "event_query \<times> event_query list \<Rightarrow> event_row list \<Rightarrow> event_row list result" where
  "run_query fq rs =
     (case fq of (q, qs) \<Rightarrow>
        if list_ex ambiguous (q # qs)
        then Inl (Err ''error'' ''column reference \"event_id\" is ambiguous'')
        else if qs = [] then Inr (run_limited q (selected q rs))
        else Inr (run_limited q
               (remdups (selected q rs @ concat (map (\<lambda>q'. run_limited q' (selected q' rs)) qs)))))"

definition table_stream :: "event_row list row_stream" where
  "table_stream fq rs = (case run_query fq rs of Inl x \<Rightarrow> (([], Some x), rs) | Inr out \<Rightarrow> ((out, None), rs))"

lemma run_limited_limited: "limited q rs (run_limited q rs)"
proof -
  let ?key = "\<lambda>r. if q_desc q then - event_created_at r else event_created_at r"
  have "sorted (map ?key (sort_key ?key rs))" by (rule sorted_sort_key)
  then have "sorted_wrt (\<lambda>r s. ?key r \<le> ?key s) (sort_key ?key rs)" by (simp add: sorted_wrt_map)
  then have "in_order (q_desc q) (sort_key ?key rs)"
    unfolding in_order_def by (rule sorted_wrt_mono_rel [rotated]) (auto split: if_splits)
  then show ?thesis unfolding limited_def run_limited_def
    by (intro exI [of _ "sort_key ?key rs"]) simp
qed

lemma run_query_result: "run_query fq rs = res \<Longrightarrow> query_result fq rs res"
proof -
  obtain q qs where fq: "fq = (q, qs)" by force
  have "list_all2 (\<lambda>q' o'. limited q' (selected q' rs) o') qs (map (\<lambda>q'. run_limited q' (selected q' rs)) qs)"
    by (simp add: list_all2_map2 list.rel_refl run_limited_limited)
  then show "run_query fq rs = res \<Longrightarrow> query_result fq rs res"
    using run_limited_limited by (auto simp: fq run_query_def query_result_def) blast+
qed

interpretation streamed: query_stream table_stream "\<lambda>rs. rs"
proof
  fix q and w w' :: "event_row list" and out err
  assume "table_stream q w = ((out, err), w')"
  then show "w' = w \<and> (out = [] \<and> err \<noteq> None \<or>
      (\<exists>all. query_result q w (Inr all) \<and> prefix out all \<and> (err = None \<longrightarrow> out = all)))"
    using run_query_result [of q w] by (auto simp: table_stream_def split: sum.splits)
qed

section \<open>Properties\<close>

text \<open>
  C18. The answer to a REQ from storage is sound: every event sent while handling it goes out under
  the subscription's id, satisfies one of the filters the client sent, and is a stored event that
  has not been deleted.
\<close>

theorem req_events_sound:
  assumes "query_stream fetch rows" and "subscribe_handleMessage fetch subs st sid raw w = (acts, res, w')"
    and "EmitMessage (OutEvent sid' e) \<in> set acts"
  shows "sid' = sid \<and> (\<exists>f \<in> set raw. isEventMatchingFilter f e) \<and>
    (\<exists>r \<in> set (rows w). e = toNostrEvent r \<and> deleted_at r = None)"
  using query_stream.subscribe_events [OF assms] by (auto simp: isClientSubscribedToEvent_def list_ex_iff)

definition limits_settings :: relay_settings where
  "limits_settings = plain_settings\<lparr>st_authentication_enabled := True,
     st_limits := Some \<lparr>lm_invoice = None, lm_admissionCheck = None, lm_connection = None,
       lm_client_subscription = Some \<lparr>cs_maxSubscriptions = Some 1, cs_maxFilters = Some 2,
         cs_maxFilterValues = None, cs_maxLimit = None, cs_minPrefixLength = None,
         cs_maxSubscriptionIdLength = Some 64\<rparr>,
       lm_event = None, lm_message = None\<rparr>\<rparr>"

theorem req_events_sound_witness:
  "isEventMatchingFilter tag_filter (toNostrEvent (insert_row tagged_event))"
proof -
  let ?rs = "[insert_row tagged_event]"
  let ?run = "subscribe_handleMessage table_stream [] limits_settings ''s'' [tag_filter] ?rs"
  have run: "?run = (fst ?run, fst (snd ?run), snd (snd ?run))" by simp
  have "fst ?run = [EmitSubscribe ''s'' [tag_filter],
      EmitMessage (OutEvent ''s'' (toNostrEvent (insert_row tagged_event))), EmitMessage (OutEose ''s'')]"
    by code_simp
  then have "EmitMessage (OutEvent ''s'' (toNostrEvent (insert_row tagged_event))) \<in> set (fst ?run)" by simp
  from req_events_sound [OF streamed.query_stream_axioms run this] show ?thesis by simp
qed




end
