(* ===== verification/WebSocket_Adapter.thy ===== *)
theory WebSocket_Adapter
  imports Event_Handler Subscription_Handler
begin

text \<open>
  \<open>src/adapters/web-socket-adapter.ts\<close> with \<open>src/factories/message-handler-factory.ts\<close>: the state of
  one client connection, what each of its listeners does to that state and to the socket, and the
  life of a connection as a step relation in which a message is dispatched in one step and its
  handler finishes in a later one, anything else happening in between.
\<close>

section \<open>State and effects\<close>

text \<open>\<open>wa_open\<close> is \<open>client.readyState === OPEN\<close>; \<open>wa_listening\<close> tells that the listeners of the
  adapter have not been removed.\<close>

record ws_adapter =
  wa_alive :: bool
  wa_subscriptions :: subscriptions
  wa_authChallenge :: "auth_challenge option"
  wa_authenticated :: bool
  wa_address :: string
  wa_open :: bool
  wa_listening :: bool

definition new_adapter :: "string \<Rightarrow> ws_adapter" where
  "new_adapter address = \<lparr>wa_alive = True, wa_subscriptions = [], wa_authChallenge = None,
     wa_authenticated = False, wa_address = address, wa_open = True, wa_listening = True\<rparr>"

text \<open>Calls on the socket, on the server adapter and on the process.\<close>

datatype socket_effect =
    SendMessage outgoing_message
  | SendPing
  | SendPong string
  | CloseClient
  | ServerBroadcast nostr_event
  | ProcessSend nostr_event

section \<open>The environment of an adapter\<close>

text \<open>
  \<open>env_decode\<close> is \<open>JSON.parse\<close> followed by \<open>attemptValidation(messageSchema)\<close>, \<open>env_randomBytes\<close> is
  \<open>randomBytes(16)\<close>, \<open>env_is_worker\<close> is \<open>cluster.isWorker && typeof process.send === 'function'\<close>.
\<close>

record 'w relay_env =
  env_services :: "'w services"
  env_fetch :: "'w row_stream"
  env_decode :: "string \<Rightarrow> incoming_body result"
  env_randomBytes :: "'w \<Rightarrow> buffer \<times> 'w"
  env_is_worker :: bool

section \<open>Listeners\<close>

definition sendMessage :: "ws_adapter \<Rightarrow> outgoing_message \<Rightarrow> socket_effect list" where
  "sendMessage a m = (if \<not> wa_open a then [] else [SendMessage m])"

definition onSubscribed :: "string \<Rightarrow> subscription_filter list \<Rightarrow> ws_adapter \<Rightarrow> ws_adapter" where
  "onSubscribed subscriptionId filters a =
     a\<lparr>wa_subscriptions := AList.update subscriptionId filters (wa_subscriptions a)\<rparr>"

definition onUnsubscribed :: "string \<Rightarrow> ws_adapter \<Rightarrow> ws_adapter" where
  "onUnsubscribed subscriptionId a =
     a\<lparr>wa_subscriptions := AList.delete subscriptionId (wa_subscriptions a)\<rparr>"

definition setNewAuthChallenge ::
    "'w relay_env \<Rightarrow> ws_adapter \<Rightarrow> 'w \<Rightarrow> string \<times> ws_adapter \<times> 'w" where
  "setNewAuthChallenge env a w =
     (case env_randomBytes env w of (bytes, w') \<Rightarrow>
        let challenge = fromBuffer bytes in
        (challenge,
         a\<lparr>wa_authChallenge := Some \<lparr>ac_challenge = challenge, ac_createdAt = sv_now (env_services env) w\<rparr>\<rparr>,
         w'))"

definition setClientToAuthenticated :: "ws_adapter \<Rightarrow> ws_adapter" where
  "setClientToAuthenticated a = a\<lparr>wa_authenticated := True, wa_authChallenge := None\<rparr>"

definition onBroadcast :: "'w relay_env \<Rightarrow> nostr_event \<Rightarrow> socket_effect list" where
  "onBroadcast env e = ServerBroadcast e # (if env_is_worker env then [ProcessSend e] else [])"

definition onSendEvent :: "ws_adapter \<Rightarrow> nostr_event \<Rightarrow> socket_effect list" where
  "onSendEvent a e =
     concat (map (\<lambda>(subscriptionId, filters).
         if list_ex (\<lambda>f. isEventMatchingFilter f e) filters
         then sendMessage a (createOutgoingEventMessage subscriptionId e) else [])
       (wa_subscriptions a))"

definition onHeartbeat :: "ws_adapter \<Rightarrow> ws_adapter \<times> socket_effect list" where
  "onHeartbeat a =
     (if \<not> wa_alive a \<and> length (wa_subscriptions a) = 0 then (a, [CloseClient])
      else (a\<lparr>wa_alive := False\<rparr>, [SendPing]))"

definition onClientPong :: "ws_adapter \<Rightarrow> ws_adapter" where
  "onClientPong a = a\<lparr>wa_alive := True\<rparr>"

definition onClientPing :: "string \<Rightarrow> ws_adapter \<Rightarrow> ws_adapter \<times> socket_effect list" where
  "onClientPing data a = (a\<lparr>wa_alive := True\<rparr>, [SendPong data])"

text \<open>The listener of the socket's \<open>error\<close> event: it logs one of three messages and closes.\<close>

definition onClientError :: "ws_adapter \<Rightarrow> ws_adapter \<times> socket_effect list" where
  "onClientError a = (a, [CloseClient])"

text \<open>Aborting the message handlers does nothing: the body of \<open>abort\<close> is commented out.\<close>

definition onClientClose :: "ws_adapter \<Rightarrow> ws_adapter" where
  "onClientClose a = a\<lparr>wa_alive := False, wa_subscriptions := [], wa_open := False, wa_listening := False\<rparr>"

text \<open>A handler acting on its adapter: the events it emits reach the listeners while there are any.\<close>

fun apply_action :: "'w relay_env \<Rightarrow> adapter_action \<Rightarrow> ws_adapter \<Rightarrow> ws_adapter \<times> socket_effect list" where
  "apply_action env (EmitMessage m) a = (a, if wa_listening a then sendMessage a m else [])"
| "apply_action env (EmitBroadcast e) a = (a, if wa_listening a then onBroadcast env e else [])"
| "apply_action env (EmitSubscribe sid fs) a = (if wa_listening a then onSubscribed sid fs a else a, [])"
| "apply_action env (EmitUnsubscribe sid) a = (if wa_listening a then onUnsubscribed sid a else a, [])"
| "apply_action env SetClientToAuthenticated a = (setClientToAuthenticated a, [])"

fun apply_actions :: "'w relay_env \<Rightarrow> adapter_action list \<Rightarrow> ws_adapter \<Rightarrow> ws_adapter \<times> socket_effect list" where
  "apply_actions env [] a = (a, [])"
| "apply_actions env (x # xs) a =
     (case apply_action env x a of
        (a1, effs) \<Rightarrow> (case apply_actions env xs a1 of (a2, effs') \<Rightarrow> (a2, effs @ effs')))"

section \<open>isRateLimited\<close>

definition message_limit_key :: "string \<Rightarrow> rate_limit \<Rightarrow> string" where
  "message_limit_key client rl = client @ '':message:'' @ int_to_string (rl_period rl)"

definition message_isRateLimited ::
    "'w services \<Rightarrow> relay_settings \<Rightarrow> string \<Rightarrow> 'w \<Rightarrow> bool result \<times> 'w" where
  "message_isRateLimited sv st client w =
     (case (case st_limits st of None \<Rightarrow> None | Some l \<Rightarrow> lm_message l) of
        None \<Rightarrow> (Inr False, w)
      | Some ml \<Rightarrow>
          (case al_rateLimits ml of
             None \<Rightarrow> (Inr False, w)
           | Some rateLimits \<Rightarrow>
               if rateLimits = [] \<or> whitelisted (al_ipWhitelist ml) client then (Inr False, w)
               else hit_all (sv_hit sv) (message_limit_key client) (\<lambda>_. True) rateLimits False w))"

section \<open>Messages\<close>

datatype message_handler =
    EventMessageHandler nostr_event
  | SubscribeMessageHandler string "subscription_filter list"
  | AuthEventMessageHandler nostr_event
  | UnsubscribeMessageHandler string

fun messageHandlerFactory :: "incoming_body \<Rightarrow> message_handler result" where
  "messageHandlerFactory (InEvent e) = Inr (EventMessageHandler e)"
| "messageHandlerFactory (InReq sid fs) = Inr (SubscribeMessageHandler sid fs)"
| "messageHandlerFactory (InAuth e) = Inr (AuthEventMessageHandler e)"
| "messageHandlerFactory (InClose sid) = Inr (UnsubscribeMessageHandler sid)"
| "messageHandlerFactory (InUnknown type) =
     Inl (plain_error (''Unknown message type: '' @ take 64 type))"

text \<open>
  \<open>isAuthenticationRequired\<close>. The first case of its \<open>switch\<close> is under a condition that excludes it;
  the default case reads \<open>message[1].id\<close> of a message the schema does not admit (an undefined id,
  which \<open>JSON.stringify\<close> prints as \<open>null\<close>).
\<close>

definition isAuthenticationRequired ::
    "'w relay_env \<Rightarrow> relay_settings \<Rightarrow> incoming_body \<Rightarrow> ws_adapter \<Rightarrow> 'w \<Rightarrow>
      bool \<times> socket_effect list \<times> ws_adapter \<times> 'w" where
  "isAuthenticationRequired env st message a w =
     (if \<not> wa_authenticated a \<and>
         (case message of InAuth _ \<Rightarrow> False | _ \<Rightarrow> True) \<and>
         (case message of InClose _ \<Rightarrow> False | _ \<Rightarrow> True) \<and>
         (case message of InReq _ _ \<Rightarrow> False | _ \<Rightarrow> True) \<and>
         st_authentication_enabled st
      then
        (case setNewAuthChallenge env a w of (challenge, a', w') \<Rightarrow>
           (case message of
              InReq _ _ \<Rightarrow> (True, sendMessage a' (createAuthMessage challenge), a', w')
            | InEvent e \<Rightarrow>
                (True, sendMessage a' (createCommandResult (ev_id e) False ''rejected: unauthorized'') @
                       sendMessage a' (createAuthMessage challenge), a', w')
            | _ \<Rightarrow>
                (True, sendMessage a' (createCommandResult ''null'' False ''rejected: unauthorized'') @
                       sendMessage a' (createAuthMessage challenge), a', w')))
      else (False, [], a, w))"

text \<open>The \<open>catch\<close> of \<open>onClientMessage\<close>: only malformed messages are answered.\<close>

definition catch_effects :: "ws_adapter \<Rightarrow> exn \<Rightarrow> socket_effect list" where
  "catch_effects a x =
     (case x of
        NonErr \<Rightarrow> []
      | Err name message \<Rightarrow>
          if name = ''AbortError'' then []
          else if name = ''SyntaxError'' \<or> name = ''ValidationError''
          then sendMessage a (createNoticeMessage (''invalid: '' @ message))
          else [])"

text \<open>\<open>onClientMessage\<close> up to the creation of the message handler.\<close>

definition dispatch ::
    "'w relay_env \<Rightarrow> relay_settings \<Rightarrow> string \<Rightarrow> ws_adapter \<Rightarrow> 'w \<Rightarrow>
      message_handler option \<times> socket_effect list \<times> ws_adapter \<times> 'w" where
  "dispatch env st raw a w =
     (let a0 = a\<lparr>wa_alive := True\<rparr> in
      case message_isRateLimited (env_services env) st (wa_address a0) w of
        (Inl x, w1) \<Rightarrow> (None, catch_effects a0 x, a0, w1)
      | (Inr True, w1) \<Rightarrow> (None, sendMessage a0 (createNoticeMessage ''rate limited''), a0, w1)
      | (Inr False, w1) \<Rightarrow>
          (case env_decode env raw of
             Inl x \<Rightarrow> (None, catch_effects a0 x, a0, w1)
           | Inr message \<Rightarrow>
               (case isAuthenticationRequired env st message a0 w1 of
                  (True, effs, a1, w2) \<Rightarrow> (None, effs, a1, w2)
                | (False, effs, a1, w2) \<Rightarrow>
                    (case messageHandlerFactory message of
                       Inl x \<Rightarrow> (None, effs @ catch_effects a1 x, a1, w2)
                     | Inr h \<Rightarrow> (Some h, effs, a1, w2)))))"

text \<open>The context of a message is the client's address.\<close>

definition view_of :: "ws_adapter \<Rightarrow> client_view" where
  "view_of a = \<lparr>cv_address = wa_address a, cv_challenge = wa_authChallenge a\<rparr>"

fun handleMessage ::
    "'w relay_env \<Rightarrow> relay_settings \<Rightarrow> message_handler \<Rightarrow> ws_adapter \<Rightarrow> 'w \<Rightarrow> 'w outcome" where
  "handleMessage env st (EventMessageHandler e) a w =
     event_handleMessage (env_services env) (view_of a) st e (Some (wa_address a)) w"
| "handleMessage env st (SubscribeMessageHandler sid fs) a w =
     subscribe_handleMessage (env_fetch env) (wa_subscriptions a) st sid fs w"
| "handleMessage env st (AuthEventMessageHandler e) a w =
     auth_handleMessage (env_services env) (view_of a) st e w"
| "handleMessage env st (UnsubscribeMessageHandler sid) a w = unsubscribe_handleMessage sid w"

text \<open>\<open>await messageHandler.handleMessage(message)\<close> inside the \<open>try\<close>.\<close>

definition run_handler ::
    "'w relay_env \<Rightarrow> relay_settings \<Rightarrow> message_handler \<Rightarrow> ws_adapter \<Rightarrow> 'w \<Rightarrow>
      socket_effect list \<times> ws_adapter \<times> 'w" where
  "run_handler env st h a w =
     (case handleMessage env st h a w of
        (acts, res, w') \<Rightarrow>
          (case apply_actions env acts a of
             (a', effs) \<Rightarrow>
               (effs @ (case res of Inl x \<Rightarrow> catch_effects a' x | Inr _ \<Rightarrow> []), a', w')))"

definition onClientMessage ::
    "'w relay_env \<Rightarrow> relay_settings \<Rightarrow> string \<Rightarrow> ws_adapter \<Rightarrow> 'w \<Rightarrow>
      socket_effect list \<times> ws_adapter \<times> 'w" where
  "onClientMessage env st raw a w =
     (case dispatch env st raw a w of
        (None, effs, a', w') \<Rightarrow> (effs, a', w')
      | (Some h, effs, a', w') \<Rightarrow>
          (case run_handler env st h a' w' of (effs', a'', w'') \<Rightarrow> (effs @ effs', a'', w'')))"


section \<open>Effects of the actions\<close>

lemma onSubscribed_simps [effect_simps]:
  "wa_authenticated (onSubscribed sid fs a) = wa_authenticated a"
  "wa_authChallenge (onSubscribed sid fs a) = wa_authChallenge a"
  "wa_subscriptions (onSubscribed sid fs a) = AList.update sid fs (wa_subscriptions a)"
  "wa_open (onSubscribed sid fs a) = wa_open a" "wa_listening (onSubscribed sid fs a) = wa_listening a"
  by (simp_all add: onSubscribed_def)

lemma onUnsubscribed_simps [effect_simps]:
  "wa_authenticated (onUnsubscribed sid a) = wa_authenticated a"
  "wa_authChallenge (onUnsubscribed sid a) = wa_authChallenge a"
  "wa_subscriptions (onUnsubscribed sid a) = AList.delete sid (wa_subscriptions a)"
  "wa_open (onUnsubscribed sid a) = wa_open a" "wa_listening (onUnsubscribed sid a) = wa_listening a"
  by (simp_all add: onUnsubscribed_def)

lemma setClientToAuthenticated_simps [effect_simps]:
  "wa_authenticated (setClientToAuthenticated a)"
  "wa_authChallenge (setClientToAuthenticated a) = None"
  "wa_subscriptions (setClientToAuthenticated a) = wa_subscriptions a"
  "wa_open (setClientToAuthenticated a) = wa_open a"
  "wa_listening (setClientToAuthenticated a) = wa_listening a"
  by (simp_all add: setClientToAuthenticated_def)

text \<open>What a list of actions does to authentication and broadcasts, and that it leaves the
  subscriptions alone when it contains no subscription action.\<close>

lemma apply_actions_auth:
  "wa_authenticated (fst (apply_actions env acts a)) \<longleftrightarrow>
     wa_authenticated a \<or> SetClientToAuthenticated \<in> set acts"
proof (induction acts arbitrary: a)
  case (Cons x acts)
  then show ?case by (cases x) (simp_all add: split_def effect_simps)
qed simp

lemma apply_actions_challenge:
  "wa_authChallenge (fst (apply_actions env acts a)) = wa_authChallenge a \<or>
   wa_authChallenge (fst (apply_actions env acts a)) = None"
proof (induction acts arbitrary: a)
  case (Cons x acts)
  have "wa_authChallenge (fst (apply_action env x a)) = wa_authChallenge a \<or>
      wa_authChallenge (fst (apply_action env x a)) = None"
    by (cases x) (simp_all add: effect_simps)
  then show ?case using Cons.IH [of "fst (apply_action env x a)"] by (auto simp: split_def)
qed simp

lemma sendMessage_set: "x \<in> set (sendMessage a m) \<Longrightarrow> x = SendMessage m"
  by (simp add: sendMessage_def split: if_splits)

lemma apply_actions_broadcast:
  "ServerBroadcast e \<in> set (snd (apply_actions env acts a)) \<Longrightarrow> EmitBroadcast e \<in> set acts"
proof (induction acts arbitrary: a)
  case (Cons x acts)
  then show ?case
    by (cases x) (auto simp: split_def onBroadcast_def dest: sendMessage_set split: if_splits)
qed simp

definition plain_action :: "adapter_action \<Rightarrow> bool" where
  "plain_action x = (case x of EmitSubscribe _ _ \<Rightarrow> False | EmitUnsubscribe _ \<Rightarrow> False | _ \<Rightarrow> True)"

lemma apply_actions_plain:
  "list_all plain_action acts \<Longrightarrow> wa_subscriptions (fst (apply_actions env acts a)) = wa_subscriptions a"
proof (induction acts arbitrary: a)
  case (Cons x acts)
  then show ?case by (cases x) (simp_all add: split_def effect_simps plain_action_def)
qed simp

text \<open>The actions of the two event handlers are plain.\<close>

lemma execute_plain: "execute repo ch t s e w = (acts, res, w') \<Longrightarrow> list_all plain_action acts"
  by (cases s) (auto simp: strategy_defs stored_reply_def Let_def plain_action_def
      split: prod.splits sum.splits exn.splits if_splits option.splits)

lemma execute_caught_plain: "execute_caught sv cv s e w = (acts, res, w') \<Longrightarrow> list_all plain_action acts"
  using execute_plain [of "sv_events sv" "cv_challenge cv" "sv_now sv w" s e w]
  by (auto simp: execute_caught_def plain_action_def split: prod.splits sum.splits)

lemma reject_plain: "reject e reason w = (acts, res, w') \<Longrightarrow> list_all plain_action acts"
  by (auto simp: reject_def plain_action_def)

lemma admit_and_execute_plain:
  "admit_and_execute sv cv st f e w = (acts, res, w') \<Longrightarrow> list_all plain_action acts"
  unfolding admit_and_execute_def
  by (auto split: prod.splits sum.splits bool.splits option.splits
      intro: reject_plain execute_caught_plain)

lemma event_handleMessage_plain:
  "event_handleMessage sv cv st e ctx w = (acts, res, w') \<Longrightarrow> list_all plain_action acts"
  unfolding event_handleMessage_def Let_def
  by (auto split: sum.splits option.splits if_splits intro: reject_plain admit_and_execute_plain)

lemma auth_handleMessage_plain:
  "auth_handleMessage sv cv st e w = (acts, res, w') \<Longrightarrow> list_all plain_action acts"
  unfolding auth_handleMessage_def
  by (auto split: sum.splits option.splits intro: reject_plain admit_and_execute_plain)

text \<open>Authentication comes from the authentication handler only, broadcasts from the event handler only.\<close>

lemma execute_no_auth:
  "execute repo ch t (eventStrategyFactory e) e w = (acts, res, w') \<Longrightarrow> SetClientToAuthenticated \<notin> set acts"
  by (cases "eventStrategyFactory e")
     (auto simp: strategy_defs Let_def eventStrategyFactory_def
       split: prod.splits sum.splits exn.splits if_splits option.splits)

lemma execute_caught_actions:
  assumes "execute_caught sv cv s e w = (acts, res, w')" and "\<not> (\<exists>m. x = EmitMessage m)" and "x \<in> set acts"
  shows "\<exists>acts' res' w1. execute (sv_events sv) (cv_challenge cv) (sv_now sv w) s e w = (acts', res', w1) \<and> x \<in> set acts'"
  using assms by (auto simp: execute_caught_def split: prod.splits sum.splits)

lemma admit_and_execute_actions:
  assumes "admit_and_execute sv cv st f e w = (acts, res, w')" and "\<not> (\<exists>m. x = EmitMessage m)" and "x \<in> set acts"
  shows "\<exists>acts' res' w1 w2. execute (sv_events sv) (cv_challenge cv) (sv_now sv w1) (f e) e w1 = (acts', res', w2) \<and> x \<in> set acts'"
  using assms execute_caught_actions [of sv cv "f e" e _ acts res w' x]
  unfolding admit_and_execute_def
  by (auto simp: reject_def split: prod.splits sum.splits bool.splits option.splits) blast

lemma event_handleMessage_no_auth:
  assumes "event_handleMessage sv cv st e ctx w = (acts, res, w')"
  shows "SetClientToAuthenticated \<notin> set acts"
proof
  assume auth: "SetClientToAuthenticated \<in> set acts"
  then obtain e' where "admit_and_execute sv cv st eventStrategyFactory e' w = (acts, res, w')"
    using assms by (auto simp: event_handleMessage_def Let_def reject_def
        split: sum.splits option.splits if_splits)
  from admit_and_execute_actions [OF this _ auth] show False using execute_no_auth by fastforce
qed

lemma auth_handleMessage_actions:
  assumes "auth_handleMessage sv cv st e w = (acts, res, w')" and "\<not> (\<exists>m. x = EmitMessage m)" and "x \<in> set acts"
  shows "x = SetClientToAuthenticated \<and> isEventIdValid (sv_sha256 sv) e \<and>
    sv_schnorr_verify sv (ev_sig e) (ev_id e) (ev_pubkey e) = Inr True \<and>
    (\<exists>d. cv_challenge cv = Some d \<and> isValidSignedAuthEvent e (ac_challenge d))"
proof -
  have valid: "auth_isEventValid sv e = Inr None"
    using assms by (auto simp: auth_handleMessage_def reject_def split: sum.splits option.splits)
  then have run: "admit_and_execute sv cv st signedAuthEventStrategyFactory e w = (acts, res, w')"
    using assms(1) by (simp add: auth_handleMessage_def)
  obtain acts' res' w1 w2 where
    "signed_auth_execute (cv_challenge cv) (sv_now sv w1) e w1 = (acts', res', w2)" "x \<in> set acts'"
    using admit_and_execute_actions [OF run assms(2,3)] by (auto simp: signedAuthEventStrategyFactory_def)
  then have "x = SetClientToAuthenticated \<and> (\<exists>d. cv_challenge cv = Some d \<and> isValidSignedAuthEvent e (ac_challenge d))"
    using assms(2) by (auto simp: signed_auth_execute_def Let_def split: option.splits if_splits)
  moreover have "isEventValid sv e = Inr None"
    using valid by (auto simp: auth_isEventValid_def split: sum.splits option.splits if_splits)
  ultimately show ?thesis using isEventValid_ok by blast
qed

lemma subscribe_actions:
  assumes "subscribe_handleMessage fetch subs st sid raw w = (acts, res, w')"
    and "x \<in> set acts" and "\<not> (\<exists>m. x = EmitMessage m)"
  shows "x = EmitSubscribe sid (uniqWith filter_equals raw) \<and>
    canSubscribe st subs sid (uniqWith filter_equals raw) = Inr None"
  using assms by (auto simp: subscribe_handleMessage_def fetchAndSend_def Let_def
      split: sum.splits option.splits prod.splits)


section \<open>The life of a connection\<close>

text \<open>
  A connection: its adapter, the handlers that were created and have not finished, the world, the
  effects so far, and two history variables: the challenges the adapter has held and the
  authentication events whose handlers have finished. \<open>Elsewhere\<close> steps are everything the rest of
  the system does to the world.
\<close>

record 'w connection =
  cx_adapter :: ws_adapter
  cx_pending :: "message_handler list"
  cx_world :: 'w
  cx_effects :: "socket_effect list"
  cx_challenges :: "auth_challenge set"
  cx_answers :: "nostr_event list"

definition new_connection :: "string \<Rightarrow> 'w \<Rightarrow> 'w connection" where
  "new_connection address w = \<lparr>cx_adapter = new_adapter address, cx_pending = [], cx_world = w,
     cx_effects = [], cx_challenges = {}, cx_answers = []\<rparr>"

definition answer_of :: "message_handler \<Rightarrow> nostr_event list" where
  "answer_of h = (case h of AuthEventMessageHandler e \<Rightarrow> [e] | _ \<Rightarrow> [])"

inductive connection_step ::
    "'w relay_env \<Rightarrow> relay_settings \<Rightarrow> 'w connection \<Rightarrow> 'w connection \<Rightarrow> bool" for env st where
  dispatched:
    "dispatch env st raw (cx_adapter c) (cx_world c) = (h, effs, a, w) \<Longrightarrow>
     connection_step env st c
       (c\<lparr>cx_adapter := a, cx_world := w, cx_effects := cx_effects c @ effs,
          cx_pending := cx_pending c @ (case h of None \<Rightarrow> [] | Some h' \<Rightarrow> [h']),
          cx_challenges := cx_challenges c \<union> set_option (wa_authChallenge a)\<rparr>)"
| finished:
    "cx_pending c = us @ h # vs \<Longrightarrow>
     run_handler env st h (cx_adapter c) (cx_world c) = (effs, a, w) \<Longrightarrow>
     connection_step env st c
       (c\<lparr>cx_adapter := a, cx_world := w, cx_effects := cx_effects c @ effs, cx_pending := us @ vs,
          cx_answers := cx_answers c @ answer_of h\<rparr>)"
| delivered:
    "wa_listening (cx_adapter c) \<Longrightarrow>
     connection_step env st c (c\<lparr>cx_effects := cx_effects c @ onSendEvent (cx_adapter c) e\<rparr>)"
| heartbeat:
    "wa_listening (cx_adapter c) \<Longrightarrow> onHeartbeat (cx_adapter c) = (a, effs) \<Longrightarrow>
     connection_step env st c (c\<lparr>cx_adapter := a, cx_effects := cx_effects c @ effs\<rparr>)"
| pinged:
    "onClientPing data (cx_adapter c) = (a, effs) \<Longrightarrow>
     connection_step env st c (c\<lparr>cx_adapter := a, cx_effects := cx_effects c @ effs\<rparr>)"
| errored:
    "onClientError (cx_adapter c) = (a, effs) \<Longrightarrow>
     connection_step env st c (c\<lparr>cx_adapter := a, cx_effects := cx_effects c @ effs\<rparr>)"
| ponged: "connection_step env st c (c\<lparr>cx_adapter := onClientPong (cx_adapter c)\<rparr>)"
| closed: "connection_step env st c (c\<lparr>cx_adapter := onClientClose (cx_adapter c)\<rparr>)"
| elsewhere: "connection_step env st c (c\<lparr>cx_world := w\<rparr>)"

inductive connection_run ::
    "'w relay_env \<Rightarrow> relay_settings \<Rightarrow> 'w connection \<Rightarrow> 'w connection \<Rightarrow> bool" for env st where
  start: "connection_run env st c c"
| more: "connection_run env st c c1 \<Longrightarrow> connection_step env st c1 c2 \<Longrightarrow> connection_run env st c c2"

text \<open>Dispatching: what it does to the adapter, and the gate it is.\<close>

definition same_gate :: "ws_adapter \<Rightarrow> ws_adapter \<Rightarrow> bool" where
  "same_gate a a' \<longleftrightarrow> wa_subscriptions a' = wa_subscriptions a \<and>
     wa_authenticated a' = wa_authenticated a \<and> wa_listening a' = wa_listening a \<and> wa_open a' = wa_open a"

definition quiet :: "socket_effect list \<Rightarrow> bool" where
  "quiet effs \<longleftrightarrow> (\<forall>e. ServerBroadcast e \<notin> set effs)"

lemma quiet_simps [simp]:
  "quiet []" "quiet (sendMessage a m)" "quiet (effs @ effs') \<longleftrightarrow> quiet effs \<and> quiet effs'"
  "quiet (catch_effects a x)" "quiet (onSendEvent a e)"
  by (auto simp: quiet_def sendMessage_def catch_effects_def onSendEvent_def split: exn.splits if_splits)

lemma setNewAuthChallenge_gate: "setNewAuthChallenge env a w = (c, a', w') \<Longrightarrow> same_gate a a'"
  by (auto simp: setNewAuthChallenge_def Let_def same_gate_def split: prod.splits)

lemma isAuthenticationRequired_gate:
  assumes "isAuthenticationRequired env st m a w = (r, effs, a', w')"
  shows "same_gate a a' \<and> quiet effs \<and>
    (\<not> r \<and> st_authentication_enabled st \<and> m = InEvent e \<longrightarrow> wa_authenticated a)"
proof -
  obtain c a1 w1 where ch: "setNewAuthChallenge env a w = (c, a1, w1)" by (metis prod.collapse)
  have "same_gate a a" by (simp add: same_gate_def)
  then show ?thesis using assms setNewAuthChallenge_gate [OF ch]
    by (cases m) (auto simp: isAuthenticationRequired_def ch split: if_splits)
qed

lemma dispatch_cases:
  assumes run: "dispatch env st raw a w = (h, effs, a', w')"
  shows "same_gate a a' \<and> quiet effs \<and>
    (h = Some (EventMessageHandler e) \<and> st_authentication_enabled st \<longrightarrow> wa_authenticated a)"
proof -
  let ?a = "a\<lparr>wa_alive := True\<rparr>"
  have a: "same_gate a ?a" by (simp add: same_gate_def)
  obtain l w1 where l: "message_isRateLimited (env_services env) st (wa_address ?a) w = (l, w1)" by force
  show ?thesis
  proof (cases "\<exists>m. l = Inr False \<and> env_decode env raw = Inr m")
    case False
    then show ?thesis using run l a
      by (auto simp: dispatch_def Let_def split: sum.splits bool.splits)
  next
    case True
    then obtain m where m: "l = Inr False" "env_decode env raw = Inr m" by blast
    obtain r fx a1 w2 where q: "isAuthenticationRequired env st m ?a w1 = (r, fx, a1, w2)" by (metis prod.collapse)
    have "same_gate a a1" using isAuthenticationRequired_gate [OF q] a by (simp add: same_gate_def)
    moreover have "messageHandlerFactory m = Inr (EventMessageHandler e) \<Longrightarrow> m = InEvent e"
      by (cases m) auto
    ultimately show ?thesis using run l m q isAuthenticationRequired_gate [OF q, of e]
      by (cases r) (auto simp: dispatch_def Let_def split: sum.splits)
  qed
qed

lemma run_handler_eq:
  "run_handler env st h a w = (effs, a', w') \<Longrightarrow>
     \<exists>acts res. handleMessage env st h a w = (acts, res, w') \<and> a' = fst (apply_actions env acts a) \<and>
       effs = snd (apply_actions env acts a) @ (case res of Inl x \<Rightarrow> catch_effects a' x | Inr _ \<Rightarrow> [])"
  by (auto simp: run_handler_def split: prod.splits)

lemma handler_authenticates:
  assumes "handleMessage env st h a w = (acts, res, w')" and "SetClientToAuthenticated \<in> set acts"
  shows "\<exists>e d. h = AuthEventMessageHandler e \<and> wa_authChallenge a = Some d \<and>
    isValidSignedAuthEvent e (ac_challenge d) \<and> isEventIdValid (sv_sha256 (env_services env)) e \<and>
    sv_schnorr_verify (env_services env) (ev_sig e) (ev_id e) (ev_pubkey e) = Inr True"
proof (cases h)
  case (EventMessageHandler e)
  then show ?thesis using assms event_handleMessage_no_auth [of "env_services env"] by fastforce
next
  case (AuthEventMessageHandler e)
  then show ?thesis using assms auth_handleMessage_actions [of "env_services env" "view_of a" st e w acts res w' SetClientToAuthenticated]
    by (auto simp: view_of_def)
next
  case (SubscribeMessageHandler sid fs)
  then show ?thesis using assms subscribe_actions [of "env_fetch env" _ st sid fs w acts res w' SetClientToAuthenticated] by simp
next
  case (UnsubscribeMessageHandler sid)
  then show ?thesis using assms by (auto simp: unsubscribe_handleMessage_def)
qed

lemma handler_broadcasts:
  assumes "handleMessage env st h a w = (acts, res, w')" and "EmitBroadcast e \<in> set acts"
  shows "\<exists>e'. h = EventMessageHandler e'"
proof (cases h)
  case (AuthEventMessageHandler e')
  then show ?thesis using assms auth_handleMessage_actions [of "env_services env" "view_of a" st e' w acts res w' "EmitBroadcast e"]
    by simp
next
  case (SubscribeMessageHandler sid fs)
  then show ?thesis using assms subscribe_actions [of "env_fetch env" _ st sid fs w acts res w' "EmitBroadcast e"] by simp
qed (use assms in \<open>auto simp: unsubscribe_handleMessage_def\<close>)


section \<open>Invariants of a connection\<close>

lemma length_update: "length (AList.update k v al) = (if k \<in> fst ` set al then length al else length al + 1)"
  by (induction al) auto

lemma apply_actions_subscribe:
  assumes "\<forall>x \<in> set acts. plain_action x \<or> x = EmitSubscribe sid fs"
  shows "wa_subscriptions (fst (apply_actions env acts a)) = wa_subscriptions a \<or>
    wa_subscriptions (fst (apply_actions env acts a)) = AList.update sid fs (wa_subscriptions a)"
  using assms
proof (induction acts arbitrary: a)
  case (Cons x acts)
  have "wa_subscriptions (fst (apply_action env x a)) = wa_subscriptions a \<or>
      wa_subscriptions (fst (apply_action env x a)) = AList.update sid fs (wa_subscriptions a)"
    using Cons.prems by (cases x) (auto simp: effect_simps plain_action_def)
  then show ?case using Cons.IH [of "fst (apply_action env x a)"] Cons.prems
    by (auto simp: split_def)
qed simp

lemma handler_subscriptions:
  assumes "handleMessage env st h a w = (acts, res, w')"
  defines "subs' \<equiv> wa_subscriptions (fst (apply_actions env acts a))"
  shows "subs' = wa_subscriptions a \<or> (\<exists>sid. subs' = AList.delete sid (wa_subscriptions a)) \<or>
    (\<exists>sid fs. subs' = AList.update sid fs (wa_subscriptions a) \<and>
       canSubscribe st (wa_subscriptions a) sid fs = Inr None)"
proof (cases h)
  case (EventMessageHandler e)
  then have "list_all plain_action acts" using assms(1) event_handleMessage_plain by simp
  then show ?thesis using apply_actions_plain [of acts env a] by (simp add: subs'_def)
next
  case (AuthEventMessageHandler e)
  then have "list_all plain_action acts" using assms(1) auth_handleMessage_plain by simp
  then show ?thesis using apply_actions_plain [of acts env a] by (simp add: subs'_def)
next
  case (UnsubscribeMessageHandler sid)
  then show ?thesis using assms(1)
    by (auto simp: subs'_def unsubscribe_handleMessage_def effect_simps)
next
  case (SubscribeMessageHandler sid raw)
  let ?fs = "uniqWith filter_equals raw"
  have run: "subscribe_handleMessage (env_fetch env) (wa_subscriptions a) st sid raw w = (acts, res, w')"
    using assms(1) SubscribeMessageHandler by simp
  have "plain_action x \<or> x = EmitSubscribe sid ?fs" if "x \<in> set acts" for x
    using subscribe_actions [OF run that] by (cases x) (simp_all add: plain_action_def)
  then have cases: "subs' = wa_subscriptions a \<or> subs' = AList.update sid ?fs (wa_subscriptions a)"
    using apply_actions_subscribe [of acts sid ?fs env a] by (auto simp: subs'_def)
  show ?thesis
  proof (cases "EmitSubscribe sid ?fs \<in> set acts")
    case True
    then show ?thesis using cases subscribe_actions [OF run True] by auto
  next
    case False
    then have "list_all plain_action acts"
      using \<open>\<And>x. x \<in> set acts \<Longrightarrow> plain_action x \<or> x = EmitSubscribe sid ?fs\<close> by (auto simp: list_all_iff)
    then show ?thesis using apply_actions_plain [of acts env a] by (simp add: subs'_def)
  qed
qed

definition subscriptions_ok :: "relay_settings \<Rightarrow> subscriptions \<Rightarrow> bool" where
  "subscriptions_ok st subs \<longleftrightarrow> distinct (map fst subs) \<and>
     (0 < maxSubscriptions st \<longrightarrow> int (length subs) \<le> maxSubscriptions st) \<and>
     (0 < maxFilters st \<longrightarrow> (\<forall>(sid, fs) \<in> set subs. int (length fs) \<le> maxFilters st))"

lemma subscriptions_ok_update [inv_intros]:
  assumes ok: "subscriptions_ok st subs" and can: "canSubscribe st subs sid fs = Inr None"
  shows "subscriptions_ok st (AList.update sid fs subs)"
proof -
  have "int (length (AList.update sid fs subs)) \<le> maxSubscriptions st" if pos: "0 < maxSubscriptions st"
  proof (cases "map_of subs sid")
    case None
    then have "sid \<notin> fst ` set subs" by (simp add: map_of_eq_None_iff)
    then show ?thesis using canSubscribe_cap [OF can pos None] by (simp add: length_update)
  next
    case (Some old)
    then have "sid \<in> fst ` set subs" by (metis map_of_eq_None_iff option.distinct(1))
    then show ?thesis using ok pos by (simp add: length_update subscriptions_ok_def)
  qed
  moreover have "\<forall>(i, gs) \<in> set (AList.update sid fs subs). int (length gs) \<le> maxFilters st"
    if pos: "0 < maxFilters st"
  proof -
    have "set (AList.update sid fs subs) \<subseteq> insert (sid, fs) (set subs)"
      by (induction subs) auto
    then show ?thesis using ok pos canSubscribe_filters [OF can pos] by (auto simp: subscriptions_ok_def)
  qed
  ultimately show ?thesis using ok distinct_update [of subs sid fs] by (auto simp: subscriptions_ok_def)
qed

lemma subscriptions_ok_delete [inv_intros]:
  assumes "subscriptions_ok st subs"
  shows "subscriptions_ok st (AList.delete sid subs)"
proof -
  have "length (AList.delete sid subs) \<le> length subs" "set (AList.delete sid subs) \<subseteq> set subs"
    by (auto simp: AList.delete_eq)
  then show ?thesis using assms distinct_delete [of subs sid] by (fastforce simp: subscriptions_ok_def)
qed

text \<open>Authentication: who is authenticated has answered a challenge the adapter held.\<close>

definition challenge_answered :: "'w relay_env \<Rightarrow> 'w connection \<Rightarrow> bool" where
  "challenge_answered env c \<longleftrightarrow>
     (\<exists>e \<in> set (cx_answers c). \<exists>d \<in> cx_challenges c.
        isValidSignedAuthEvent e (ac_challenge d) \<and> isEventIdValid (sv_sha256 (env_services env)) e \<and>
        sv_schnorr_verify (env_services env) (ev_sig e) (ev_id e) (ev_pubkey e) = Inr True)"

definition gate_ok :: "'w relay_env \<Rightarrow> relay_settings \<Rightarrow> 'w connection \<Rightarrow> bool" where
  "gate_ok env st c \<longleftrightarrow>
     set_option (wa_authChallenge (cx_adapter c)) \<subseteq> cx_challenges c \<and>
     (wa_authenticated (cx_adapter c) \<longrightarrow> challenge_answered env c) \<and>
     (st_authentication_enabled st \<longrightarrow>
        ((\<exists>e. EventMessageHandler e \<in> set (cx_pending c)) \<or> \<not> quiet (cx_effects c)) \<longrightarrow>
        wa_authenticated (cx_adapter c))"

lemma challenge_answered_mono:
  "challenge_answered env c \<Longrightarrow> set (cx_answers c) \<subseteq> set (cx_answers c') \<Longrightarrow>
     cx_challenges c \<subseteq> cx_challenges c' \<Longrightarrow> challenge_answered env c'"
  unfolding challenge_answered_def by blast

lemma quiet_other [simp]: "quiet [SendPing]" "quiet [SendPong d]" "quiet [CloseClient]"
  by (simp_all add: quiet_def)

lemma heartbeat_gate: "onHeartbeat a = (a', effs) \<Longrightarrow> same_gate a a' \<and> quiet effs \<and> wa_authChallenge a' = wa_authChallenge a"
  by (auto simp: onHeartbeat_def same_gate_def split: if_splits)

lemma connection_step_ok:
  assumes "connection_step env st c c'" and "gate_ok env st c" and "subscriptions_ok st (wa_subscriptions (cx_adapter c))"
  shows "gate_ok env st c' \<and> subscriptions_ok st (wa_subscriptions (cx_adapter c'))"
  using assms
proof (induction rule: connection_step.induct)
  case (dispatched raw c h effs a w)
  note d = dispatch_cases [OF dispatched.hyps]
  let ?c = "c\<lparr>cx_adapter := a, cx_world := w, cx_effects := cx_effects c @ effs,
    cx_pending := cx_pending c @ (case h of None \<Rightarrow> [] | Some h' \<Rightarrow> [h']),
    cx_challenges := cx_challenges c \<union> set_option (wa_authChallenge a)\<rparr>"
  have "challenge_answered env c \<Longrightarrow> challenge_answered env ?c"
    by (erule challenge_answered_mono) auto
  moreover have "EventMessageHandler e \<in> set (cx_pending ?c) \<longleftrightarrow>
      EventMessageHandler e \<in> set (cx_pending c) \<or> h = Some (EventMessageHandler e)" for e
    by (auto split: option.splits)
  ultimately show ?case using dispatched.prems d unfolding gate_ok_def
    by (auto simp: same_gate_def)
next
  case (finished c us h vs effs a w)
  obtain acts res where r: "handleMessage env st h (cx_adapter c) (cx_world c) = (acts, res, w)"
      "a = fst (apply_actions env acts (cx_adapter c))"
      "effs = snd (apply_actions env acts (cx_adapter c)) @ (case res of Inl x \<Rightarrow> catch_effects a x | Inr _ \<Rightarrow> [])"
    using run_handler_eq [OF finished.hyps(2)] by blast
  let ?c = "c\<lparr>cx_adapter := a, cx_world := w, cx_effects := cx_effects c @ effs, cx_pending := us @ vs,
    cx_answers := cx_answers c @ answer_of h\<rparr>"
  have auth: "wa_authenticated a \<longleftrightarrow> wa_authenticated (cx_adapter c) \<or> SetClientToAuthenticated \<in> set acts"
    unfolding r(2) by (rule apply_actions_auth)
  have answered: "challenge_answered env ?c" if "wa_authenticated a"
  proof (cases "wa_authenticated (cx_adapter c)")
    case True
    then have "challenge_answered env c" using finished.prems(1) by (simp add: gate_ok_def)
    then show ?thesis by (rule challenge_answered_mono) auto
  next
    case False
    then have "SetClientToAuthenticated \<in> set acts" using auth that by simp
    from handler_authenticates [OF r(1) this] obtain e d where
        h: "h = AuthEventMessageHandler e" and d: "wa_authChallenge (cx_adapter c) = Some d"
        and v: "isValidSignedAuthEvent e (ac_challenge d)" "isEventIdValid (sv_sha256 (env_services env)) e"
          "sv_schnorr_verify (env_services env) (ev_sig e) (ev_id e) (ev_pubkey e) = Inr True" by blast
    have "d \<in> cx_challenges c" using d finished.prems(1) by (simp add: gate_ok_def)
    moreover have "e \<in> set (cx_answers ?c)" using h by (simp add: answer_of_def)
    ultimately show ?thesis using v unfolding challenge_answered_def by auto
  qed
  have "quiet (cx_effects ?c) \<or> wa_authenticated a" if en: "st_authentication_enabled st"
  proof (cases "quiet (cx_effects c) \<and> \<not> quiet effs")
    case True
    then obtain e where "ServerBroadcast e \<in> set (snd (apply_actions env acts (cx_adapter c)))"
      unfolding r(3) by (auto simp: quiet_def catch_effects_def split: sum.splits exn.splits if_splits dest: sendMessage_set)
    then obtain e' where "h = EventMessageHandler e'"
      using apply_actions_broadcast handler_broadcasts [OF r(1)] by blast
    then show ?thesis using finished.prems(1) finished.hyps(1) en auth by (auto simp: gate_ok_def)
  next
    case False
    then show ?thesis using finished.prems(1) en auth by (auto simp: gate_ok_def)
  qed
  moreover have "wa_authChallenge a = wa_authChallenge (cx_adapter c) \<or> wa_authChallenge a = None"
    unfolding r(2) by (rule apply_actions_challenge)
  moreover have "subscriptions_ok st (wa_subscriptions a)"
    using handler_subscriptions [OF r(1)] finished.prems(2) inv_intros unfolding r(2) by auto
  ultimately show ?case using finished.prems(1) finished.hyps(1) answered auth unfolding gate_ok_def by auto
next
  case (heartbeat c a effs)
  then show ?case using heartbeat_gate [of "cx_adapter c" a effs]
    by (auto simp: gate_ok_def same_gate_def challenge_answered_def)
next
  case closed
  then show ?case by (auto simp: gate_ok_def onClientClose_def challenge_answered_def subscriptions_ok_def)
qed (auto simp: gate_ok_def challenge_answered_def onClientPing_def onClientPong_def onClientError_def)

lemma connection_run_ok:
  assumes "connection_run env st (new_connection address w) c"
  shows "gate_ok env st c \<and> subscriptions_ok st (wa_subscriptions (cx_adapter c))"
  using assms
proof (induction "new_connection address w" c rule: connection_run.induct)
  case start
  then show ?case
    by (auto simp: gate_ok_def subscriptions_ok_def new_connection_def new_adapter_def)
next
  case (more c1 c2)
  then show ?case using connection_step_ok by blast
qed


section \<open>Delivery of live events\<close>

lemma filter_sent: "filter ((=) (SendMessage m)) (sendMessage a m') = (if wa_open a \<and> m = m' then [SendMessage m] else [])"
  by (simp add: sendMessage_def)

lemma delivery_count:
  assumes "distinct (map fst (wa_subscriptions a))"
  shows "count_list (onSendEvent a e) (SendMessage (OutEvent sid e)) =
    (if wa_open a \<and> (\<exists>fs. map_of (wa_subscriptions a) sid = Some fs \<and>
         (\<exists>f \<in> set fs. isEventMatchingFilter f e)) then 1 else 0)"
proof -
  let ?send = "\<lambda>(i, fs). if list_ex (\<lambda>f. isEventMatchingFilter f e) fs
    then sendMessage a (createOutgoingEventMessage i e) else []"
  have "count_list (concat (map ?send subs)) (SendMessage (OutEvent sid e)) =
      (if wa_open a \<and> (\<exists>fs. map_of subs sid = Some fs \<and> (\<exists>f \<in> set fs. isEventMatchingFilter f e)) then 1 else 0)"
    if "distinct (map fst subs)" for subs
    using that
  proof (induction subs)
    case (Cons s subs)
    obtain i fs where s: "s = (i, fs)" by force
    have hd: "count_list (?send s) (SendMessage (OutEvent sid e)) =
        (if i = sid \<and> wa_open a \<and> (\<exists>f \<in> set fs. isEventMatchingFilter f e) then 1 else 0)"
      by (auto simp: s sendMessage_def reply_simps list_ex_iff)
    have none: "map_of subs sid = None" if "i = sid"
      using Cons.prems that s by (simp add: map_of_eq_None_iff)
    show ?case using Cons.IH Cons.prems hd none by (auto simp: s)
  qed simp
  then show ?thesis using assms by (simp add: onSendEvent_def)
qed

lemma onSendEvent_only: "x \<in> set (onSendEvent a e) \<Longrightarrow> \<exists>sid. x = SendMessage (OutEvent sid e)"
  by (auto simp: onSendEvent_def reply_simps dest!: sendMessage_set split: if_splits)

section \<open>A connection for the witnesses\<close>

definition do_dispatch :: "'w relay_env \<Rightarrow> relay_settings \<Rightarrow> string \<Rightarrow> 'w connection \<Rightarrow> 'w connection" where
  "do_dispatch env st raw c =
     (case dispatch env st raw (cx_adapter c) (cx_world c) of (h, effs, a, w) \<Rightarrow>
        c\<lparr>cx_adapter := a, cx_world := w, cx_effects := cx_effects c @ effs,
          cx_pending := cx_pending c @ (case h of None \<Rightarrow> [] | Some h' \<Rightarrow> [h']),
          cx_challenges := cx_challenges c \<union> set_option (wa_authChallenge a)\<rparr>)"

definition do_finish :: "'w relay_env \<Rightarrow> relay_settings \<Rightarrow> 'w connection \<Rightarrow> 'w connection" where
  "do_finish env st c =
     (case cx_pending c of
        [] \<Rightarrow> c
      | h # vs \<Rightarrow>
          (case run_handler env st h (cx_adapter c) (cx_world c) of (effs, a, w) \<Rightarrow>
             c\<lparr>cx_adapter := a, cx_world := w, cx_effects := cx_effects c @ effs, cx_pending := vs,
               cx_answers := cx_answers c @ answer_of h\<rparr>))"

lemma do_dispatch_run:
  "connection_run env st c0 c \<Longrightarrow> connection_run env st c0 (do_dispatch env st raw c)"
  by (cases "dispatch env st raw (cx_adapter c) (cx_world c)")
     (auto simp: do_dispatch_def intro: connection_run.more connection_step.dispatched)

lemma do_finish_run:
  assumes "connection_run env st c0 c"
  shows "connection_run env st c0 (do_finish env st c)"
proof (cases "cx_pending c")
  case Nil
  then show ?thesis using assms by (simp add: do_finish_def)
next
  case (Cons h vs)
  obtain effs a w where r: "run_handler env st h (cx_adapter c) (cx_world c) = (effs, a, w)"
    by (metis prod.collapse)
  have "connection_step env st c (do_finish env st c)"
    using connection_step.finished [of c "[]" h vs env st effs a w] Cons r by (simp add: do_finish_def)
  then show ?thesis using assms connection_run.more by blast
qed

definition auth_event :: nostr_event where
  "auth_event = note_event\<lparr>ev_kind := 22242,
     ev_tags := [[''relay'', ''wss://relay.example''], [''challenge'', replicate 32 (CHR ''0'')]]\<rparr>"

definition test_decode :: "string \<Rightarrow> incoming_body result" where
  "test_decode raw =
     (if raw = ''note'' then Inr (InEvent note_event)
      else if raw = ''auth'' then Inr (InAuth auth_event)
      else if raw = ''req a'' then Inr (InReq ''a'' [empty_filter])
      else if raw = ''req b'' then Inr (InReq ''b'' [empty_filter])
      else Inl (Err ''SyntaxError'' ''Unexpected token''))"

definition test_env :: "relay_world relay_env" where
  "test_env = \<lparr>env_services = test_services,
     env_fetch = (\<lambda>q w. case run_query q (world_rows w) of
        Inl x \<Rightarrow> (([], Some x), w) | Inr out \<Rightarrow> ((out, None), w)),
     env_decode = test_decode, env_randomBytes = (\<lambda>w. (replicate 16 0, w)), env_is_worker = True\<rparr>"

section \<open>Properties\<close>

text \<open>
  C15. Authentication (NIP-42) cannot be bypassed: with authentication enabled, if a connection ever
  broadcasts an event, or has the handler of an EVENT message running, then an AUTH message of the
  connection before has been handled whose event has a valid id and signature and answers a challenge
  that this connection's adapter issued, whatever messages, closes and other steps came in between.
\<close>

theorem authentication_required:
  assumes "st_authentication_enabled st" and "connection_run env st (new_connection address w) c"
    and "(\<exists>e. ServerBroadcast e \<in> set (cx_effects c)) \<or> (\<exists>e. EventMessageHandler e \<in> set (cx_pending c))"
  shows "\<exists>e \<in> set (cx_answers c). \<exists>d \<in> cx_challenges c.
    isValidSignedAuthEvent e (ac_challenge d) \<and> isEventIdValid (sv_sha256 (env_services env)) e \<and>
    sv_schnorr_verify (env_services env) (ev_sig e) (ev_id e) (ev_pubkey e) = Inr True"
  using connection_run_ok [OF assms(2)] assms(1,3)
  unfolding gate_ok_def challenge_answered_def quiet_def by blast

definition authenticated_connection :: "relay_world connection" where
  "authenticated_connection =
     do_dispatch test_env limits_settings ''note''
       (do_finish test_env limits_settings
         (do_dispatch test_env limits_settings ''auth''
           (do_dispatch test_env limits_settings ''note'' (new_connection ''::1'' fresh_world))))"

theorem authentication_required_witness:
  "cx_answers authenticated_connection \<noteq> []"
proof -
  have pending: "cx_pending authenticated_connection = [EventMessageHandler note_event]" by code_simp
  have "connection_run test_env limits_settings (new_connection ''::1'' fresh_world) authenticated_connection"
    unfolding authenticated_connection_def
    by (intro do_dispatch_run do_finish_run connection_run.start)
  from authentication_required [OF _ this] show ?thesis
    by (auto simp: pending limits_settings_def plain_settings_def)
qed

text \<open>
  C16. The limits on subscriptions hold at every moment of a connection: the ids are distinct, there
  are never more subscriptions than the configured maximum, nor more filters in one, however REQ and
  CLOSE messages interleave.
\<close>

theorem subscription_limits_hold:
  assumes "connection_run env st (new_connection address w) c"
  shows "distinct (map fst (wa_subscriptions (cx_adapter c))) \<and>
    (maxSubscriptions st \<le> 0 \<or> int (length (wa_subscriptions (cx_adapter c))) \<le> maxSubscriptions st) \<and>
    (maxFilters st \<le> 0 \<or> list_all (\<lambda>(sid, fs). int (length fs) \<le> maxFilters st) (wa_subscriptions (cx_adapter c)))"
  using connection_run_ok [OF assms] by (auto simp: subscriptions_ok_def list_all_iff)

theorem subscription_limits_hold_witness:
  "(let c = do_finish test_env limits_settings (do_dispatch test_env limits_settings ''req b''
        (do_finish test_env limits_settings (do_dispatch test_env limits_settings ''req a''
          (new_connection ''::1'' fresh_world)))) in
    length (wa_subscriptions (cx_adapter c)) \<le> 1)"
proof -
  let ?c = "do_finish test_env limits_settings (do_dispatch test_env limits_settings ''req b''
        (do_finish test_env limits_settings (do_dispatch test_env limits_settings ''req a''
          (new_connection ''::1'' fresh_world))))"
  have run: "connection_run test_env limits_settings (new_connection ''::1'' fresh_world) ?c"
    by (intro do_dispatch_run do_finish_run connection_run.start)
  have "maxSubscriptions limits_settings = 1" by code_simp
  with subscription_limits_hold [OF run] show ?thesis by (simp add: Let_def)
qed

text \<open>
  C17. Live events reach a subscription exactly once: when the server hands a broadcast event to the
  adapter of an open connection, the client is sent the event once for every subscription that has a
  matching filter, under that subscription's id, and nothing else.
\<close>

theorem live_event_delivered_once:
  assumes "connection_run env st (new_connection address w) c"
  defines "a \<equiv> cx_adapter c"
  shows "count_list (onSendEvent a e) (SendMessage (OutEvent sid e)) =
      (if wa_open a \<and> (\<exists>fs. map_of (wa_subscriptions a) sid = Some fs \<and> list_ex (\<lambda>f. isEventMatchingFilter f e) fs)
       then 1 else 0) \<and>
    set (onSendEvent a e) \<subseteq> range (\<lambda>i. SendMessage (OutEvent i e))"
proof -
  have "distinct (map fst (wa_subscriptions a))"
    using connection_run_ok [OF assms(1)] by (simp add: a_def subscriptions_ok_def)
  then show ?thesis using delivery_count [of a e sid] onSendEvent_only [of _ a e]
    by (auto simp: list_ex_iff)
qed

theorem live_event_delivered_once_witness:
  "count_list (onSendEvent (cx_adapter (do_finish test_env limits_settings
      (do_dispatch test_env limits_settings ''req a'' (new_connection ''::1'' fresh_world)))) note_event)
    (SendMessage (OutEvent ''a'' note_event)) = 1"
proof -
  let ?c = "do_finish test_env limits_settings
      (do_dispatch test_env limits_settings ''req a'' (new_connection ''::1'' fresh_world))"
  have run: "connection_run test_env limits_settings (new_connection ''::1'' fresh_world) ?c"
    by (intro do_dispatch_run do_finish_run connection_run.start)
  have "wa_subscriptions (cx_adapter ?c) = [(''a'', [empty_filter])]" "wa_open (cx_adapter ?c)"
    by code_simp+
  moreover have "isEventMatchingFilter empty_filter note_event" by code_simp
  ultimately show ?thesis using live_event_delivered_once [OF run, of note_event "''a''"] by simp
qed

text \<open>
  Dead idle clients are disconnected: two heartbeats with no message, ping or pong between them
  close the socket of a client without subscriptions; a client that has a subscription, or that
  answered the ping, is pinged again instead.
\<close>

lemma heartbeat_closes_dead_clients:
  "(CloseClient \<in> set (snd (onHeartbeat (fst (onHeartbeat a)))) \<longleftrightarrow> wa_subscriptions a = []) \<and>
   snd (onHeartbeat (onClientPong (fst (onHeartbeat a)))) = [SendPing] \<and>
   snd (onHeartbeat (fst (onClientPing data (fst (onHeartbeat a))))) = [SendPing]"
  by (auto simp: onHeartbeat_def onClientPong_def onClientPing_def)

text \<open>
  Errors stay inside the message: if a message cannot be decoded, the adapter's state does not
  change (but for being alive), and the client gets one notice with the reason if the message was
  malformed, and nothing for any other exception.
\<close>

theorem undecodable_message:
  assumes "message_isRateLimited (env_services env) st (wa_address a) w = (Inr False, w1)"
    and "env_decode env raw = Inl x"
  shows "onClientMessage env st raw a w =
    ((case x of
        Err name m \<Rightarrow>
          if wa_open a \<and> (name = ''SyntaxError'' \<or> name = ''ValidationError'')
          then [SendMessage (OutNotice (''invalid: '' @ m))] else []
      | NonErr \<Rightarrow> []), a\<lparr>wa_alive := True\<rparr>, w1)"
  using assms
  by (cases x) (auto simp: onClientMessage_def dispatch_def Let_def catch_effects_def sendMessage_def reply_simps)

theorem undecodable_message_witness:
  "fst (onClientMessage test_env limits_settings ''{'' (new_adapter ''::1'') fresh_world) =
     [SendMessage (OutNotice ''invalid: Unexpected token'')]"
proof -
  have 1: "message_isRateLimited (env_services test_env) limits_settings (wa_address (new_adapter ''::1'')) fresh_world =
      (Inr False, fresh_world)"
    by (simp add: message_isRateLimited_def limits_settings_def plain_settings_def)
  have 2: "env_decode test_env ''{'' = Inl (Err ''SyntaxError'' ''Unexpected token'')"
    by (simp add: test_env_def test_decode_def)
  show ?thesis unfolding undecodable_message [OF 1 2] by (simp add: new_adapter_def)
qed

end
