(* ===== verification/Http_Access.thy ===== *)
theory Http_Access
  imports Event_Handler
begin

text \<open>
  What the HTTP side of the relay shares: \<open>src/utils/http.ts\<close>, the connection rate limiter of
  \<open>src/handlers/request-handlers/rate-limiter-middleware.ts\<close>, page templates, and requests and responses
  as the controllers see them.
\<close>

section \<open>Requests\<close>

record http_request =
  hq_headers :: "(string \<times> string) list"
  hq_socket_address :: "string option"

record http_response =
  hr_status :: nat
  hr_body :: string

section \<open>getRemoteAddress\<close>

text \<open>\<open>headers[undefined]\<close> reads the header \<open>undefined\<close>.\<close>

definition address_header :: "network_settings \<Rightarrow> string" where
  "address_header network =
     (case (case nw_remote_ip_header network of Some header \<Rightarrow> header | None \<Rightarrow> nw_remoteIpHeader network) of
        None \<Rightarrow> ''undefined'' | Some header \<Rightarrow> header)"

text \<open>\<open>result.split(',')[0]\<close>.\<close>

definition before_comma :: "string \<Rightarrow> string" where
  "before_comma s = takeWhile (\<lambda>c. c \<noteq> CHR '','') s"

definition getRemoteAddress :: "http_request \<Rightarrow> relay_settings \<Rightarrow> string result" where
  "getRemoteAddress request st =
     (case (case map_of (hq_headers request) (address_header (st_network st)) of
              Some v \<Rightarrow> Some v | None \<Rightarrow> hq_socket_address request) of
        None \<Rightarrow> Inl (type_error ''Cannot read properties of undefined (reading 'split')'')
      | Some result \<Rightarrow> Inr (before_comma result))"

section \<open>The rate limit on connections\<close>

definition connection_limit_key :: "string \<Rightarrow> rate_limit \<Rightarrow> string" where
  "connection_limit_key remoteAddress rl = remoteAddress @ '':connection:'' @ int_to_string (rl_period rl)"

definition connection_isRateLimited ::
    "'w limiter \<Rightarrow> string \<Rightarrow> relay_settings \<Rightarrow> ('w, bool) task" where
  "connection_isRateLimited h remoteAddress st w =
     (case (case st_limits st of None \<Rightarrow> None | Some l \<Rightarrow> lm_connection l) of
        None \<Rightarrow> (Inr False, w)
      | Some cl \<Rightarrow>
          (case al_rateLimits cl of
             None \<Rightarrow> (Inr False, w)
           | Some rateLimits \<Rightarrow>
               if whitelisted (al_ipWhitelist cl) remoteAddress then (Inr False, w)
               else hit_all h (connection_limit_key remoteAddress) (\<lambda>_. True) rateLimits False w))"

text \<open>The middleware: the request is destroyed (\<open>False\<close>) or handed on (\<open>True\<close>).\<close>

definition rateLimiterMiddleware ::
    "'w limiter \<Rightarrow> http_request \<Rightarrow> relay_settings \<Rightarrow> ('w, bool) task" where
  "rateLimiterMiddleware h request st =
     (case getRemoteAddress request st of
        Inl x \<Rightarrow> throwing x
      | Inr address \<Rightarrow>
          await (connection_isRateLimited h (before_comma address) st) (\<lambda>limited. returning (\<not> limited)))"

section \<open>Page templates\<close>

text \<open>
  \<open>body.replaceAll(pattern, value)\<close> for a string pattern. The value is a template itself: two dollar
  signs stand for one, a dollar sign before \<open>&\<close>, a backquote or a quote for the match, the text before
  it or the text after it; any other dollar sign stands for itself. \<open>replace(/pattern/g, value)\<close> does
  the same.
\<close>

fun expand_replacement :: "string \<Rightarrow> string \<Rightarrow> string \<Rightarrow> string \<Rightarrow> string" where
  "expand_replacement matched before after [] = []"
| "expand_replacement matched before after [c] = [c]"
| "expand_replacement matched before after (c # d # t) =
     (if c \<noteq> CHR ''$'' then c # expand_replacement matched before after (d # t)
      else if d = CHR ''$'' then CHR ''$'' # expand_replacement matched before after t
      else if d = CHR ''&'' then matched @ expand_replacement matched before after t
      else if d = CHR 0x60 then before @ expand_replacement matched before after t
      else if d = CHR 0x27 then after @ expand_replacement matched before after t
      else c # expand_replacement matched before after (d # t))"

text \<open>\<open>before\<close> is what has been read of the text.\<close>

function replace_from :: "string \<Rightarrow> string \<Rightarrow> string \<Rightarrow> string \<Rightarrow> string" where
  "replace_from pat val before [] = []"
| "replace_from pat val before (c # s) =
     (if pat \<noteq> [] \<and> starts_with (c # s) pat
      then expand_replacement pat before (drop (length pat) (c # s)) val @
        replace_from pat val (before @ pat) (drop (length pat) (c # s))
      else c # replace_from pat val (before @ [c]) s)"
  by pat_completeness auto
termination by (relation "measure (\<lambda>(pat, val, before, s). length s)") auto

definition replace_all :: "string \<Rightarrow> string \<Rightarrow> string \<Rightarrow> string" where
  "replace_all pat val s = replace_from pat val [] s"

definition fill_template :: "(string \<times> string) list \<Rightarrow> string \<Rightarrow> string" where
  "fill_template replacements page =
     foldl (\<lambda>body (key, val). replace_all (''{{'' @ key @ ''}}'') val body) page replacements"

lemma expand_replacement_literal: "CHR ''$'' \<notin> set val \<Longrightarrow> expand_replacement m b a val = val"
  by (induction m b a val rule: expand_replacement.induct) auto

text \<open>A value without dollar signs is inserted as it is; text without the first character of the
  pattern is copied.\<close>

lemma replace_from_skip:
  "pat = p # ps \<Longrightarrow> p \<notin> set s \<Longrightarrow> replace_from pat val before (s @ t) = s @ replace_from pat val (before @ s) t"
  by (induction s arbitrary: before) auto

lemma replace_from_match:
  "pat \<noteq> [] \<Longrightarrow> CHR ''$'' \<notin> set val \<Longrightarrow>
   replace_from pat val before (pat @ t) = val @ replace_from pat val (before @ pat) t"
  by (cases pat) (auto simp: expand_replacement_literal)

section \<open>The rate limits of the controllers\<close>

text \<open>
  \<open>isRateLimited\<close> of \<open>post-invoice-controller.ts\<close> and \<open>get-admission-check-controller.ts\<close>: without an
  address white list nothing is limited.
\<close>

definition controller_limit_key :: "string \<Rightarrow> string \<Rightarrow> rate_limit \<Rightarrow> string" where
  "controller_limit_key name remoteAddress rl =
     remoteAddress @ '':'' @ name @ '':'' @ int_to_string (rl_period rl)"

definition controller_isRateLimited ::
    "'w limiter \<Rightarrow> string \<Rightarrow> address_limits option \<Rightarrow> http_request \<Rightarrow> relay_settings \<Rightarrow> ('w, bool) task" where
  "controller_isRateLimited h name limits request st =
     (case (case limits of None \<Rightarrow> None | Some l \<Rightarrow> al_rateLimits l) of
        None \<Rightarrow> returning False
      | Some rateLimits \<Rightarrow>
          if rateLimits = [] then returning False
          else
            case getRemoteAddress request st of
              Inl x \<Rightarrow> throwing x
            | Inr remoteAddress \<Rightarrow>
                (case (case limits of None \<Rightarrow> None | Some l \<Rightarrow> al_ipWhitelist l) of
                   None \<Rightarrow> returning False
                 | Some ipWhitelist \<Rightarrow>
                     if remoteAddress \<in> set ipWhitelist then returning False
                     else hit_all h (controller_limit_key name remoteAddress) (\<lambda>_. True) rateLimits False))"

definition invoice_isRateLimited ::
    "'w limiter \<Rightarrow> http_request \<Rightarrow> relay_settings \<Rightarrow> ('w, bool) task" where
  "invoice_isRateLimited h request st =
     controller_isRateLimited h ''invoice''
       (case st_limits st of None \<Rightarrow> None | Some l \<Rightarrow> lm_invoice l) request st"

definition admission_isRateLimited ::
    "'w limiter \<Rightarrow> http_request \<Rightarrow> relay_settings \<Rightarrow> ('w, bool) task" where
  "admission_isRateLimited h request st =
     controller_isRateLimited h ''admission-check''
       (case st_limits st of None \<Rightarrow> None | Some l \<Rightarrow> lm_admissionCheck l) request st"

end
