(* ===== verification/Mirroring.thy ===== *)
theory Mirroring
  imports Event_Handler
begin

text \<open>
  \<open>src/app/static-mirroring-worker.ts\<close>: the worker that copies events from another relay and forwards
  the events of this one to it. It shares the services of the event handler (\<open>services\<close>); its checks
  are written out again in the source, and they are here, to be compared with the handler's.
\<close>

section \<open>Limits\<close>

text \<open>
  Ramda's \<open>mergeDeepRight\<close> on the event limits: the right object wins property by property, and
  properties that are objects on both sides are merged again; arrays are no objects.
\<close>

definition right_first :: "'a option \<Rightarrow> 'a option \<Rightarrow> 'a option" where
  "right_first l r = (case r of None \<Rightarrow> l | Some x \<Rightarrow> Some x)"

definition merge_objects :: "('a \<Rightarrow> 'a \<Rightarrow> 'a) \<Rightarrow> 'a option \<Rightarrow> 'a option \<Rightarrow> 'a option" where
  "merge_objects f l r =
     (case (l, r) of (Some x, Some y) \<Rightarrow> Some (f x y) | (Some x, None) \<Rightarrow> Some x | (None, _) \<Rightarrow> r)"

fun merge_content :: "content_setting \<Rightarrow> content_setting \<Rightarrow> content_setting" where
  "merge_content (ContentLimit l) (ContentLimit r) =
     ContentLimit \<lparr>cl_kinds = right_first (cl_kinds l) (cl_kinds r),
       cl_maxLength = right_first (cl_maxLength l) (cl_maxLength r)\<rparr>"
| "merge_content _ r = r"

definition mergeDeepRight :: "event_limits \<Rightarrow> event_limits \<Rightarrow> event_limits" where
  "mergeDeepRight l r = \<lparr>
     el_eventId = merge_objects right_first (el_eventId l) (el_eventId r),
     el_pubkey = merge_objects (\<lambda>a b. \<lparr>
         pl_minBalance = right_first (pl_minBalance a) (pl_minBalance b),
         pl_minLeadingZeroBits = right_first (pl_minLeadingZeroBits a) (pl_minLeadingZeroBits b),
         pl_whitelist = right_first (pl_whitelist a) (pl_whitelist b),
         pl_blacklist = right_first (pl_blacklist a) (pl_blacklist b)\<rparr>) (el_pubkey l) (el_pubkey r),
     el_kind = merge_objects (\<lambda>a b. \<lparr>
         kl_whitelist = right_first (kl_whitelist a) (kl_whitelist b),
         kl_blacklist = right_first (kl_blacklist a) (kl_blacklist b)\<rparr>) (el_kind l) (el_kind r),
     el_createdAt = merge_objects (\<lambda>a b. \<lparr>
         ca_maxNegativeDelta = right_first (ca_maxNegativeDelta a) (ca_maxNegativeDelta b),
         ca_maxPositiveDelta = right_first (ca_maxPositiveDelta a) (ca_maxPositiveDelta b)\<rparr>)
       (el_createdAt l) (el_createdAt r),
     el_content = merge_objects merge_content (el_content l) (el_content r),
     el_rateLimits = right_first (el_rateLimits l) (el_rateLimits r),
     el_whitelists = merge_objects (\<lambda>a b. \<lparr>
         ew_pubkeys = right_first (ew_pubkeys a) (ew_pubkeys b),
         ew_ipAddresses = right_first (ew_ipAddresses a) (ew_ipAddresses b)\<rparr>)
       (el_whitelists l) (el_whitelists r)\<rparr>"

text \<open>\<open>this.config.limits.event ?? {}\<close> throws when the mirror has no limits.\<close>

definition mirror_limits :: "relay_settings \<Rightarrow> mirror \<Rightarrow> event_limits result" where
  "mirror_limits st config =
     (case mi_limits config of
        None \<Rightarrow> Inl (type_error ''Cannot read properties of undefined (reading 'event')'')
      | Some overrides \<Rightarrow>
          Inr (mergeDeepRight (event_limits_of st) (case overrides of None \<Rightarrow> empty_event_limits | Some l \<Rightarrow> l)))"

section \<open>canAcceptEvent\<close>

definition over_limit :: "nostr_event \<Rightarrow> content_limits \<Rightarrow> bool" where
  "over_limit e limit \<longleftrightarrow>
     (case cl_maxLength limit of None \<Rightarrow> False | Some m \<Rightarrow> m > 0 \<and> int (length (ev_content e)) > m) \<and>
     (case cl_kinds limit of None \<Rightarrow> True | Some kinds \<Rightarrow> list_ex (isEventKindOrRangeMatch e) kinds)"

definition mirror_content_ok :: "nostr_event \<Rightarrow> event_limits \<Rightarrow> bool" where
  "mirror_content_ok e limits =
     (case el_content limits of
        Some (ContentLimitList ls) \<Rightarrow> \<not> list_ex (over_limit e) ls
      | Some (ContentLimit l) \<Rightarrow> \<not> over_limit e l
      | None \<Rightarrow> True)"

definition mirror_created_at_ok :: "int \<Rightarrow> nostr_event \<Rightarrow> event_limits \<Rightarrow> bool" where
  "mirror_created_at_ok now e limits =
     (case el_createdAt limits of
        None \<Rightarrow> True
      | Some c \<Rightarrow>
          (case ca_maxPositiveDelta c of None \<Rightarrow> True | Some d \<Rightarrow> \<not> (d > 0 \<and> ev_created_at e > now + d)) \<and>
          (case ca_maxNegativeDelta c of None \<Rightarrow> True | Some d \<Rightarrow> \<not> (d > 0 \<and> ev_created_at e < now - d)))"

definition mirror_pow_ok :: "nostr_event \<Rightarrow> event_limits \<Rightarrow> bool" where
  "mirror_pow_ok e limits \<longleftrightarrow>
     (case el_eventId limits of
        Some (Some m) \<Rightarrow> \<not> (m > 0 \<and> int (getEventProofOfWork (ev_id e)) < m) | _ \<Rightarrow> True) \<and>
     (case el_pubkey limits of
        None \<Rightarrow> True
      | Some p \<Rightarrow>
          (case pl_minLeadingZeroBits p of
             None \<Rightarrow> True
           | Some m \<Rightarrow> \<not> (m > 0 \<and> int (getPubkeyProofOfWork (ev_pubkey e)) < m)))"

definition mirror_pubkey_ok :: "nostr_event \<Rightarrow> event_limits \<Rightarrow> bool" where
  "mirror_pubkey_ok e limits =
     (case el_pubkey limits of
        None \<Rightarrow> True
      | Some p \<Rightarrow>
          (case pl_whitelist p of None \<Rightarrow> True | Some ps \<Rightarrow> ps = [] \<or> list_ex (starts_with (ev_pubkey e)) ps) \<and>
          (case pl_blacklist p of None \<Rightarrow> True | Some ps \<Rightarrow> \<not> list_ex (starts_with (ev_pubkey e)) ps))"

definition mirror_kind_ok :: "nostr_event \<Rightarrow> event_limits \<Rightarrow> bool" where
  "mirror_kind_ok e limits =
     (case el_kind limits of
        None \<Rightarrow> True
      | Some k \<Rightarrow>
          (case kl_whitelist k of None \<Rightarrow> True | Some ks \<Rightarrow> ks = [] \<or> list_ex (isEventKindOrRangeMatch e) ks) \<and>
          (case kl_blacklist k of None \<Rightarrow> True | Some ks \<Rightarrow> \<not> list_ex (isEventKindOrRangeMatch e) ks))"

definition mirror_canAcceptEvent ::
    "'w services \<Rightarrow> relay_settings \<Rightarrow> mirror \<Rightarrow> nostr_event \<Rightarrow> 'w \<Rightarrow> bool result" where
  "mirror_canAcceptEvent sv st config e w =
     (if sv_relay_pubkey sv = ev_pubkey e then Inr False
      else
        case mirror_limits st config of
          Inl x \<Rightarrow> Inl x
        | Inr limits \<Rightarrow>
            Inr (mirror_content_ok e limits \<and> mirror_created_at_ok (sv_now sv w div 1000) e limits \<and>
                 mirror_pow_ok e limits \<and> mirror_pubkey_ok e limits \<and> mirror_kind_ok e limits))"

section \<open>isUserAdmitted\<close>

definition mirror_fee_applies :: "nostr_event \<Rightarrow> fee_schedule \<Rightarrow> bool" where
  "mirror_fee_applies e fee \<longleftrightarrow> fs_enabled fee \<and>
     \<not> (case fs_whitelists fee of None \<Rightarrow> False | Some wl \<Rightarrow>
          (case fw_pubkeys wl of None \<Rightarrow> False | Some ps \<Rightarrow> list_ex (starts_with (ev_pubkey e)) ps)) \<and>
     \<not> (case fs_whitelists fee of None \<Rightarrow> False | Some wl \<Rightarrow>
          (case fw_event_kinds wl of None \<Rightarrow> False | Some ks \<Rightarrow> list_ex (isEventKindOrRangeMatch e) ks))"

text \<open>\<open>minBalance && user.balance < minBalance\<close>.\<close>

definition below_minimum :: "relay_settings \<Rightarrow> user \<Rightarrow> bool" where
  "below_minimum st u =
     (case (case el_pubkey (event_limits_of st) of None \<Rightarrow> None | Some p \<Rightarrow> pl_minBalance p) of
        None \<Rightarrow> False
      | Some b \<Rightarrow> b \<noteq> 0 \<and> usr_balance u < b)"

definition mirror_isUserAdmitted ::
    "'w services \<Rightarrow> relay_settings \<Rightarrow> mirror \<Rightarrow> nostr_event \<Rightarrow> ('w, bool) task" where
  "mirror_isUserAdmitted sv st config e =
     (if mi_skipAdmissionCheck config = Some True then returning True
      else
        case st_payments st of
          None \<Rightarrow> returning True
        | Some p \<Rightarrow>
            if \<not> pay_enabled p then returning True
            else if (case pay_admission p of None \<Rightarrow> [] | Some fs \<Rightarrow> filter (mirror_fee_applies e) fs) = []
            then returning True
            else
              await (sv_findByPubkey sv (ev_pubkey e)) (\<lambda>found.
                returning (case found of
                  None \<Rightarrow> False
                | Some u \<Rightarrow> usr_isAdmitted u \<and> \<not> below_minimum st u)))"

section \<open>Messages from the mirrored relay\<close>

text \<open>
  What \<open>JSON.parse\<close> makes of a message: it may throw, the value may be no array, and an array may be
  an \<open>EVENT\<close> message or another one. The event of a message is cast, not validated; the model is about
  the events that have the type.
\<close>

datatype remote_message = NoArray | OtherArray | RemoteEvent string nostr_event

text \<open>\<open>{ eventName, event, source }\<close>, what a worker sends to the primary process and gets from it.\<close>

record cluster_message =
  cm_event :: nostr_event
  cm_source :: "string option"

definition matches_config :: "mirror \<Rightarrow> nostr_event \<Rightarrow> bool result" where
  "matches_config config e =
     (case mi_filters config of
        None \<Rightarrow> Inl (type_error ''Cannot read properties of undefined (reading 'fantasy-land/map')'')
      | Some fs \<Rightarrow> Inr (list_ex (\<lambda>f. isEventMatchingFilter f e) fs))"

text \<open>\<open>true\<close>: the event passes the checks up to the expiration.\<close>

definition remote_event_ok :: "'w services \<Rightarrow> mirror \<Rightarrow> nostr_event \<Rightarrow> 'w \<Rightarrow> bool result" where
  "remote_event_ok sv config e w =
     (case matches_config config e of
        Inl x \<Rightarrow> Inl x
      | Inr m \<Rightarrow>
          if \<not> m then Inr False
          else if \<not> isEventIdValid (sv_sha256 sv) e then Inr False
          else
            case isEventSignatureValid sv e of
              Inl x \<Rightarrow> Inl x
            | Inr v \<Rightarrow> Inr (v \<and> \<not> isExpiredEvent (sv_now sv w) e))"

text \<open>
  The handler of a message: what it sends to the primary process, the variable \<open>since\<close>, and the
  world. The \<open>catch\<close> only logs.
\<close>

definition remote_accept ::
    "'w services \<Rightarrow> bool \<Rightarrow> mirror \<Rightarrow> nostr_event \<Rightarrow> int \<Rightarrow> 'w \<Rightarrow> cluster_message list \<times> int \<times> 'w" where
  "remote_accept sv isWorker config e since w =
     (let since' = sv_now sv w div 1000 - 30 in
      case repo_create (sv_events sv) e w of
        (Inl x, w') \<Rightarrow> ([], since', w')
      | (Inr inserted, w') \<Rightarrow>
          (if inserted \<noteq> 0 \<and> isWorker then [\<lparr>cm_event = e, cm_source = Some (mi_address config)\<rparr>] else [],
           since', w'))"

definition remote_event ::
    "'w services \<Rightarrow> bool \<Rightarrow> relay_settings \<Rightarrow> mirror \<Rightarrow> nostr_event \<Rightarrow> int \<Rightarrow> 'w \<Rightarrow>
      cluster_message list \<times> int \<times> 'w" where
  "remote_event sv isWorker st config event since w =
     (case remote_event_ok sv config event w of
        Inr True \<Rightarrow>
          let e = addExpirationMetadata event in
          (case mirror_canAcceptEvent sv st config e w of
             Inr True \<Rightarrow>
               (case mirror_isUserAdmitted sv st config e w of
                  (Inr True, w1) \<Rightarrow> remote_accept sv isWorker config e since w1
                | (_, w1) \<Rightarrow> ([], since, w1))
           | _ \<Rightarrow> ([], since, w))
      | _ \<Rightarrow> ([], since, w))"

definition onRemoteMessage ::
    "'w services \<Rightarrow> bool \<Rightarrow> relay_settings \<Rightarrow> mirror \<Rightarrow> string \<Rightarrow> remote_message result \<Rightarrow> int \<Rightarrow> 'w \<Rightarrow>
      cluster_message list \<times> int \<times> 'w" where
  "onRemoteMessage sv isWorker st config subscriptionId parsed since w =
     (case parsed of
        Inr (RemoteEvent sid event) \<Rightarrow>
          if sid \<noteq> subscriptionId then ([], since, w)
          else remote_event sv isWorker st config event since w
      | _ \<Rightarrow> ([], since, w))"

text \<open>On connecting: the filters, with their \<open>since\<close> replaced.\<close>

definition onOpen :: "mirror \<Rightarrow> string \<Rightarrow> int \<Rightarrow> relayed_message list" where
  "onOpen config subscriptionId since =
     (case mi_filters config of
        None \<Rightarrow> []
      | Some fs \<Rightarrow>
          if fs = [] then []
          else [createSubscriptionMessage subscriptionId (map (\<lambda>f. f\<lparr>f_since := Some since\<rparr>) fs)])"

definition initial_since :: "int \<Rightarrow> int" where
  "initial_since now = now div 1000 - 60 * 10"

text \<open>\<open>onMessage\<close>: an event of this relay goes to the mirrored one, unless it came from there.
  \<open>connected\<close> is \<open>this.client && readyState === OPEN\<close>.\<close>

definition mirror_onMessage :: "mirror \<Rightarrow> bool \<Rightarrow> bool \<Rightarrow> cluster_message \<Rightarrow> relayed_message list" where
  "mirror_onMessage config connected is_broadcast m =
     (if \<not> is_broadcast \<or> cm_source m = Some (mi_address config) \<or> \<not> connected then []
      else [createRelayedEventMessage (cm_event m) (mi_secret config)])"

section \<open>Comparison with the handler\<close>

definition with_event_limits :: "event_limits \<Rightarrow> relay_settings \<Rightarrow> relay_settings" where
  "with_event_limits el st = st\<lparr>st_limits := Some \<lparr>lm_invoice = None, lm_admissionCheck = None,
     lm_connection = None, lm_client_subscription = None, lm_event = Some el, lm_message = None\<rparr>\<rparr>"

lemma event_limits_of_with [simp]: "event_limits_of (with_event_limits el st) = el"
  by (simp add: event_limits_of_def with_event_limits_def)

lemma over_limit_eq: "over_limit e l = content_too_long e l"
  by (simp add: over_limit_def content_too_long_def positive_and_def some_kind_def split: option.splits)

lemma content_agrees: "mirror_content_ok e limits \<longleftrightarrow> content_check e limits = None"
  by (auto simp: mirror_content_ok_def content_check_None over_limit_eq list_ex_iff
      split: option.splits content_setting.splits)

lemma created_at_agrees: "mirror_created_at_ok now e limits \<longleftrightarrow> created_at_check now e limits = None"
  by (auto simp: mirror_created_at_ok_def created_at_check_def positive_and_def split: option.splits)

lemma pow_agrees: "mirror_pow_ok e limits \<longleftrightarrow> pow_check e limits = None"
  by (auto simp: mirror_pow_ok_def pow_check_def positive_and_def Let_def split: option.splits)

lemma pubkey_agrees: "mirror_pubkey_ok e limits \<longleftrightarrow> pubkey_check e limits = None"
  by (auto simp: mirror_pubkey_ok_def pubkey_check_def split: option.splits)

lemma kind_agrees: "mirror_kind_ok e limits \<longleftrightarrow> kind_check e limits = None"
  by (auto simp: mirror_kind_ok_def kind_check_def some_kind_def split: option.splits)

lemmas checks_agree = content_agrees created_at_agrees pow_agrees pubkey_agrees kind_agrees

lemma accept_agrees:
  assumes "mirror_limits st config = Inr limits" and "ev_pubkey e \<noteq> sv_relay_pubkey sv"
  shows "mirror_canAcceptEvent sv st config e w = Inr True \<longleftrightarrow>
    canAcceptEvent sv (with_event_limits limits st) e w = None"
  using assms by (auto simp: mirror_canAcceptEvent_def canAcceptEvent_def Let_def first_reason_None
      checks_agree)

lemma fee_agrees: "mirror_fee_applies e fee = isApplicableFee e fee"
  by (auto simp: mirror_fee_applies_def isApplicableFee_def some_kind_def split: option.splits)

lemma minimum_agrees:
  "min_balance st \<ge> 0 \<Longrightarrow> below_minimum st u \<longleftrightarrow> min_balance st > 0 \<and> usr_balance u < min_balance st"
  by (auto simp: below_minimum_def min_balance_def split: option.splits)

lemma admission_agrees:
  assumes "mi_skipAdmissionCheck config \<noteq> Some True" and "\<not> st_requireAdmission st"
    and "0 \<le> min_balance st" and "ev_pubkey e \<noteq> sv_relay_pubkey sv"
  shows "(fst (mirror_isUserAdmitted sv st config e w) = Inr True \<longleftrightarrow> fst (isUserAdmitted sv st e w) = Inr None) \<and>
    snd (mirror_isUserAdmitted sv st config e w) = snd (isUserAdmitted sv st e w)"
proof (cases "payments_enabled st \<and> applicable_fees st e \<noteq> []")
  case True
  then obtain p where p: "st_payments st = Some p" "pay_enabled p"
      "(case pay_admission p of None \<Rightarrow> [] | Some fs \<Rightarrow> filter (mirror_fee_applies e) fs) \<noteq> []"
    by (auto simp: payments_enabled_def applicable_fees_def fee_agrees [abs_def] split: option.splits)
  obtain r w1 where user: "sv_findByPubkey sv (ev_pubkey e) w = (r, w1)" by force
  show ?thesis
    using assms p True user
    by (auto simp: mirror_isUserAdmitted_def isUserAdmitted_def await_def returning_def minimum_agrees
        split: sum.splits option.splits if_splits)
next
  case False
  then show ?thesis
    using assms by (auto simp: mirror_isUserAdmitted_def isUserAdmitted_def payments_enabled_def applicable_fees_def
        fee_agrees [abs_def] returning_def split: option.splits)
qed

lemma merge_without_overrides: "mergeDeepRight l empty_event_limits = l"
  by (cases l) (simp add: mergeDeepRight_def empty_event_limits_def merge_objects_def right_first_def
      split: option.splits)

section \<open>What reaches the table\<close>

lemma mirror_checks_ignore_expiration:
  "mirror_canAcceptEvent sv st config (addExpirationMetadata e) w = mirror_canAcceptEvent sv st config e w"
  "mirror_isUserAdmitted sv st config (addExpirationMetadata e) w = mirror_isUserAdmitted sv st config e w"
proof -
  have same: "same_event (addExpirationMetadata e) e" (is "same_event ?e e")
    by (auto simp: same_event_def addExpirationMetadata_def split: option.splits)
  then have eqs: "ev_id ?e = ev_id e" "ev_pubkey ?e = ev_pubkey e" "ev_created_at ?e = ev_created_at e"
      "ev_kind ?e = ev_kind e" "ev_content ?e = ev_content e"
    by (simp_all add: same_event_def)
  have match: "isEventKindOrRangeMatch ?e = isEventKindOrRangeMatch e"
    using eqs by (intro ext) (case_tac x; simp)
  have long: "over_limit ?e = over_limit e" by (intro ext) (simp only: over_limit_def eqs match)
  have fee: "mirror_fee_applies ?e = mirror_fee_applies e"
    by (intro ext) (simp only: mirror_fee_applies_def eqs match)
  show "mirror_canAcceptEvent sv st config ?e w = mirror_canAcceptEvent sv st config e w"
    by (simp only: mirror_canAcceptEvent_def mirror_content_ok_def mirror_created_at_ok_def mirror_pow_ok_def
        mirror_pubkey_ok_def mirror_kind_ok_def eqs match long)
  show "mirror_isUserAdmitted sv st config ?e w = mirror_isUserAdmitted sv st config e w"
    by (simp only: mirror_isUserAdmitted_def eqs fee)
qed

lemma remote_event_ok_True:
  "remote_event_ok sv config e w = Inr True \<longleftrightarrow>
     matches_config config e = Inr True \<and> isEventIdValid (sv_sha256 sv) e \<and>
     sv_schnorr_verify sv (ev_sig e) (ev_id e) (ev_pubkey e) = Inr True \<and> \<not> isExpiredEvent (sv_now sv w) e"
  by (auto simp: remote_event_ok_def isEventSignatureValid_def split: sum.splits)

definition remote_event_checked ::
    "'w services \<Rightarrow> relay_settings \<Rightarrow> mirror \<Rightarrow> nostr_event \<Rightarrow> 'w \<Rightarrow> bool" where
  "remote_event_checked sv st config e w \<longleftrightarrow>
     matches_config config e = Inr True \<and> isEventIdValid (sv_sha256 sv) e \<and>
     sv_schnorr_verify sv (ev_sig e) (ev_id e) (ev_pubkey e) = Inr True \<and>
     \<not> isExpiredEvent (sv_now sv w) e \<and> mirror_canAcceptEvent sv st config e w = Inr True \<and>
     fst (mirror_isUserAdmitted sv st config e w) = Inr True"

context relay_services
begin

lemma mirror_isUserAdmitted_rows: "rows (snd (mirror_isUserAdmitted sv st config e w)) = rows w"
  using user_rows [of "ev_pubkey e" w]
  by (cases "sv_findByPubkey sv (ev_pubkey e) w")
     (auto simp: mirror_isUserAdmitted_def await_def returning_def split: option.splits sum.splits)

lemma remote_accept_stores:
  assumes ok: "table_ok (rows w)" and run: "remote_accept sv isWorker config e since w = (out, since', w')"
    and eff: "rows w' \<noteq> rows w \<or> out \<noteq> []"
  shows "stores (insert_row e) (rows w) (rows w') \<and>
    out = (if isWorker then [\<lparr>cm_event = e, cm_source = Some (mi_address config)\<rparr>] else [])"
proof -
  obtain r w1 where r: "repo_create (sv_events sv) e w = (r, w1)" by force
  from create_law [OF ok r] consider "r = Inr 0" "rows w1 = rows w"
    | "r = Inr 1" "stores (insert_row e) (rows w) (rows w1)" by blast
  then show ?thesis by cases (use r run eff in \<open>auto simp: remote_accept_def Let_def\<close>)
qed

lemma remote_event_stores:
  assumes ok: "table_ok (rows w)" and run: "remote_event sv isWorker st config e since w = (out, since', w')"
    and eff: "rows w' \<noteq> rows w \<or> out \<noteq> []"
  shows "remote_event_checked sv st config e w \<and>
    stores (insert_row (addExpirationMetadata e)) (rows w) (rows w') \<and>
    out = (if isWorker then [\<lparr>cm_event = addExpirationMetadata e, cm_source = Some (mi_address config)\<rparr>] else [])"
proof -
  let ?e = "addExpirationMetadata e"
  obtain a w1 where a: "mirror_isUserAdmitted sv st config e w = (a, w1)" by force
  have rows1: "rows w1 = rows w" using mirror_isUserAdmitted_rows [of st config e w] a by simp
  have checks: "remote_event_ok sv config e w = Inr True" "mirror_canAcceptEvent sv st config e w = Inr True"
      "a = Inr True" "remote_accept sv isWorker config ?e since w1 = (out, since', w')"
    using run eff a rows1
    by (auto simp: remote_event_def Let_def mirror_checks_ignore_expiration split: sum.splits bool.splits)
  show ?thesis
    using remote_accept_stores [OF _ checks(4)] ok eff rows1 checks(1-3) a
    by (auto simp: remote_event_checked_def remote_event_ok_True)
qed

lemma onRemoteMessage_stores:
  assumes "table_ok (rows w)"
    and run: "onRemoteMessage sv isWorker st config sid parsed since w = (out, since', w')"
    and eff: "rows w' \<noteq> rows w \<or> out \<noteq> []"
  shows "\<exists>e. parsed = Inr (RemoteEvent sid e) \<and> remote_event_checked sv st config e w \<and>
    stores (insert_row (addExpirationMetadata e)) (rows w) (rows w') \<and>
    out = (if isWorker then [\<lparr>cm_event = addExpirationMetadata e, cm_source = Some (mi_address config)\<rparr>] else [])"
proof -
  obtain e where "parsed = Inr (RemoteEvent sid e)"
      "remote_event sv isWorker st config e since w = (out, since', w')"
    using run eff by (auto simp: onRemoteMessage_def split: sum.splits remote_message.splits if_splits)
  with remote_event_stores [OF assms(1) this(2) eff] show ?thesis by simp
qed

end

section \<open>Properties\<close>

definition test_mirror :: mirror where
  "test_mirror = \<lparr>mi_address = ''wss://other.example'', mi_filters = Some [empty_filter\<lparr>f_kinds := Some [1]\<rparr>],
     mi_secret = None, mi_limits = Some None, mi_skipAdmissionCheck = None\<rparr>"

text \<open>
  C29. What a mirrored relay sends enters the database only through the checks: when a message from it
  changes the stored events or makes the worker announce anything, it was an \<open>EVENT\<close> message for the
  worker's own subscription, and its event matches a configured filter, has a valid id and signature,
  has not expired, passes the merged limits and comes from an admitted author; then exactly the row of
  that event is stored, exactly that event is announced with the address of the mirrored relay as
  its source, and no such announcement is ever sent back to that relay.
\<close>

theorem mirrored_event_checked:
  assumes "relay_services sv rows" and "table_ok (rows w)"
    and "onRemoteMessage sv isWorker st config sid parsed since w = (out, since', w')"
    and "rows w' \<noteq> rows w \<or> out \<noteq> []"
  shows "\<exists>e. parsed = Inr (RemoteEvent sid e) \<and> matches_config config e = Inr True \<and>
    isEventIdValid (sv_sha256 sv) e \<and>
    sv_schnorr_verify sv (ev_sig e) (ev_id e) (ev_pubkey e) = Inr True \<and>
    \<not> isExpiredEvent (sv_now sv w) e \<and> mirror_canAcceptEvent sv st config e w = Inr True \<and>
    fst (mirror_isUserAdmitted sv st config e w) = Inr True \<and>
    stores (insert_row (addExpirationMetadata e)) (rows w) (rows w') \<and>
    out = (if isWorker then [\<lparr>cm_event = addExpirationMetadata e, cm_source = Some (mi_address config)\<rparr>] else []) \<and>
    (\<forall>m \<in> set out. mirror_onMessage config connected is_broadcast m = [])"
proof -
  from relay_services.onRemoteMessage_stores [OF assms] obtain e where
      "parsed = Inr (RemoteEvent sid e)" "remote_event_checked sv st config e w"
      "stores (insert_row (addExpirationMetadata e)) (rows w) (rows w')"
      "out = (if isWorker then [\<lparr>cm_event = addExpirationMetadata e, cm_source = Some (mi_address config)\<rparr>] else [])"
    by blast
  then show ?thesis
    by (intro exI [of _ e]) (simp add: remote_event_checked_def mirror_onMessage_def)
qed

theorem mirrored_event_checked_witness:
  "\<exists>e. Inr (RemoteEvent ''s'' note_event) = (Inr (RemoteEvent ''s'' e) :: remote_message result) \<and>
     isEventIdValid zero_sha256 e"
proof -
  let ?run = "onRemoteMessage test_services True open_settings test_mirror ''s''
    (Inr (RemoteEvent ''s'' note_event)) 0 fresh_world"
  have run: "?run = (fst ?run, fst (snd ?run), snd (snd ?run))" by simp
  have "fst ?run \<noteq> []" by code_simp
  moreover have "table_ok (world_rows fresh_world)"
    by (simp add: world_rows_def fresh_world_def empty_table_def)
  ultimately have "\<exists>e. Inr (RemoteEvent ''s'' note_event) = (Inr (RemoteEvent ''s'' e) :: remote_message result) \<and>
      isEventIdValid (sv_sha256 test_services) e"
    using mirrored_event_checked [OF world.relay_services_axioms _ run, of True True] by blast
  then show ?thesis by (simp add: world_services_def)
qed



end
