(* ===== verification/Cluster.thy ===== *)
theory Cluster
  imports WebSocket_Adapter Http_Access Mirroring
begin

text \<open>
  The processes of a relay: \<open>src/app/app.ts\<close> (the primary process, which forks the workers, restarts
  them and hands broadcasts on), \<open>src/index.ts\<close> (what a forked process runs), \<open>src/app/worker.ts\<close>
  and the server adapters \<open>web-socket-server-adapter.ts\<close> and \<open>web-server-adapter.ts\<close> of a client
  worker. The last part composes them: workers and the primary process connected by their message
  channels.
\<close>

section \<open>The server adapter of a client worker\<close>

text \<open>
  An element of \<open>webSocketServer.clients\<close> with its entry in \<open>webSocketsAdapters\<close>: without an adapter
  only its ready state matters (\<open>readyState === OPEN\<close>).
\<close>

datatype server_client = Unattached bool | Attached ws_adapter

type_synonym ws_server = "(nat \<times> server_client) list"

fun client_ready :: "server_client \<Rightarrow> bool" where
  "client_ready (Unattached b) = b"
| "client_ready (Attached a) = wa_open a"

text \<open>Emitting an event on an adapter reaches its listener while it has any.\<close>

definition server_onBroadcast :: "ws_server \<Rightarrow> nostr_event \<Rightarrow> (nat \<times> socket_effect) list" where
  "server_onBroadcast srv event =
     concat (map (\<lambda>(c, client).
         if \<not> client_ready client then []
         else case client of
                Unattached _ \<Rightarrow> []
              | Attached a \<Rightarrow> if wa_listening a then map (Pair c) (onSendEvent a event) else [])
       srv)"

definition getConnectedClients :: "ws_server \<Rightarrow> nat" where
  "getConnectedClients srv = length (filter (\<lambda>(c, client). client_ready client) srv)"

definition client_heartbeat :: "server_client \<Rightarrow> server_client \<times> socket_effect list" where
  "client_heartbeat client =
     (case client of
        Unattached b \<Rightarrow> (Unattached b, [])
      | Attached a \<Rightarrow>
          if wa_listening a then (case onHeartbeat a of (a', effs) \<Rightarrow> (Attached a', effs)) else (Attached a, []))"

definition server_onHeartbeat :: "ws_server \<Rightarrow> ws_server \<times> (nat \<times> socket_effect) list" where
  "server_onHeartbeat srv =
     (map (\<lambda>(c, client). (c, fst (client_heartbeat client))) srv,
      concat (map (\<lambda>(c, client). map (Pair c) (snd (client_heartbeat client))) srv))"

text \<open>
  \<open>onConnection\<close>: the client is in \<open>webSocketServer.clients\<close> already; the result says that it was
  terminated (\<open>None\<close>) or which adapter it got. \<open>socket_address\<close> is the address \<open>new SocketAddress\<close>
  makes of its argument, or the exception it throws. A rejected promise leaves the client there
  without an adapter.
\<close>

definition onConnection ::
    "'w limiter \<Rightarrow> (string \<Rightarrow> string result) \<Rightarrow> relay_settings \<Rightarrow> http_request \<Rightarrow>
      ('w, server_client option) task" where
  "onConnection h socket_address st req =
     (case getRemoteAddress req st of
        Inl x \<Rightarrow> throwing x
      | Inr remoteAddress \<Rightarrow>
          await (connection_isRateLimited h remoteAddress st) (\<lambda>limited.
            if limited then returning None
            else case socket_address remoteAddress of
                   Inl x \<Rightarrow> throwing x
                 | Inr address \<Rightarrow> returning (Some (Attached (new_adapter address)))))"

definition after_connection :: "nat \<Rightarrow> server_client option result \<Rightarrow> ws_server \<Rightarrow> ws_server" where
  "after_connection c outcome srv =
     (case outcome of
        Inl _ \<Rightarrow> srv
      | Inr None \<Rightarrow> AList.map_entry c (\<lambda>_. Unattached False) srv
      | Inr (Some client) \<Rightarrow> AList.map_entry c (\<lambda>_. client) srv)"

text \<open>The sockets \<open>close\<close> terminates.\<close>

definition server_close :: "ws_server \<Rightarrow> nat list" where
  "server_close srv = map fst srv"

text \<open>\<open>WebServerAdapter.onClientError\<close>: what it writes to the socket before ending it.\<close>

definition web_onClientError :: "string option \<Rightarrow> bool \<Rightarrow> string option" where
  "web_onClientError code writable =
     (if code = Some ''ECONNRESET'' \<or> \<not> writable then None
      else Some (''HTTP/1.1 400 Bad Request'' @ [CHR 0x0D, CHR 0x0A] @ ''Content-Type: text/html'' @ [CHR 0x0D, CHR 0x0A]))"

section \<open>Broadcasts to clients\<close>

definition client_receives :: "server_client \<Rightarrow> nostr_event \<Rightarrow> socket_effect list" where
  "client_receives client e =
     (case client of
        Unattached _ \<Rightarrow> []
      | Attached a \<Rightarrow> if wa_open a \<and> wa_listening a then onSendEvent a e else [])"

lemma server_onBroadcast_eq:
  "server_onBroadcast srv e = concat (map (\<lambda>(c, client). map (Pair c) (client_receives client e)) srv)"
  unfolding server_onBroadcast_def client_receives_def
  by (rule arg_cong [where f = concat], rule map_cong) (auto split: server_client.splits)

lemma count_list_Pair:
  "count_list (map (Pair c) xs) (d, x) = (if c = d then count_list xs x else 0)"
  by (induction xs) auto

text \<open>A client is sent what its own adapter sends, whoever else is connected.\<close>

lemma server_delivery:
  assumes "distinct (map fst srv)" and "(c, client) \<in> set srv"
  shows "count_list (server_onBroadcast srv e) (c, x) = count_list (client_receives client e) x"
proof -
  have "count_list (server_onBroadcast srv e) (c, x) =
      (case map_of srv c of None \<Rightarrow> 0 | Some cl \<Rightarrow> count_list (client_receives cl e) x)" if "distinct (map fst srv)" for srv
    using that
  proof (induction srv)
    case (Cons p srv)
    obtain d cl where p: "p = (d, cl)" by force
    have "map_of srv c = None" if "d = c" using Cons.prems that p by (simp add: map_of_eq_None_iff)
    then show ?case using Cons by (auto simp: server_onBroadcast_eq p count_list_Pair)
  qed (simp add: server_onBroadcast_eq)
  with assms show ?thesis by (simp add: map_of_is_SomeI)
qed

section \<open>Worker processes\<close>

datatype runner = RunApp | RunWorker | RunMaintenance | RunMirroring

definition getRunner :: "bool \<Rightarrow> process_env \<Rightarrow> runner result" where
  "getRunner isPrimary env =
     (if isPrimary then Inr RunApp
      else
        case map_of env ''WORKER_TYPE'' of
          None \<Rightarrow> Inl (plain_error ''Unknown worker: undefined'')
        | Some type \<Rightarrow>
            if type = ''worker'' then Inr RunWorker
            else if type = ''maintenance'' then Inr RunMaintenance
            else if type = ''static-mirroring'' then Inr RunMirroring
            else Inl (plain_error (''Unknown worker: '' @ type)))"

text \<open>
  A string read as the index of an array element: \<open>path\<close> looks up the property of that name.
\<close>

definition array_property :: "'a list \<Rightarrow> string \<Rightarrow> 'a option" where
  "array_property xs key = List.find (\<lambda>_. True) (map snd (filter (\<lambda>(i, x). nat_to_string i = key) (enumerate 0 xs)))"

definition mirror_config :: "relay_settings \<Rightarrow> process_env \<Rightarrow> mirror option" where
  "mirror_config st env =
     (case st_mirrors st of
        None \<Rightarrow> None
      | Some mirrors \<Rightarrow>
          (case map_of env ''MIRROR_INDEX'' of
             None \<Rightarrow> array_property mirrors ''undefined'' | Some i \<Rightarrow> array_property mirrors i))"

text \<open>\<open>AppWorker.run\<close>: the port, \<open>a || b || 8008\<close>.\<close>

definition worker_port :: "process_env \<Rightarrow> js_number" where
  "worker_port env =
     (case truthy_env env ''PORT'' of
        Some s \<Rightarrow> js_Number s
      | None \<Rightarrow> (case truthy_env env ''RELAY_PORT'' of Some s \<Rightarrow> js_Number s | None \<Rightarrow> JFraction False 8008 1))"

text \<open>\<open>AppWorker.onMessage\<close>: the server adapter listens to broadcasts only.\<close>

definition worker_onMessage :: "ws_server \<Rightarrow> bool \<Rightarrow> cluster_message \<Rightarrow> (nat \<times> socket_effect) list" where
  "worker_onMessage srv is_broadcast m = (if is_broadcast then server_onBroadcast srv (cm_event m) else [])"

section \<open>The primary process\<close>

text \<open>
  How often \<open>for (let i = 0; i < n; i++)\<close> runs its body; \<open>None\<close> when it never ends. An \<open>n\<close> that
  rounds to an integer counts as that integer.
\<close>

definition iterations :: "js_number \<Rightarrow> bool \<Rightarrow> nat option" where
  "iterations n negative_infinity =
     (case n of
        JNaN \<Rightarrow> Some 0
      | JInfinity \<Rightarrow> if negative_infinity then Some 0 else None
      | JFraction neg a b \<Rightarrow>
          (case safe_integer n of
             Some i \<Rightarrow> Some (nat i)
           | None \<Rightarrow> Some (if neg then 0 else (a + b - 1) div b)))"

text \<open>\<open>cpus\<close> is \<open>cpus().length\<close>.\<close>

definition worker_count :: "process_env \<Rightarrow> relay_settings \<Rightarrow> nat \<Rightarrow> nat option" where
  "worker_count env st cpus =
     (case truthy_env env ''WORKER_COUNT'' of
        Some s \<Rightarrow> iterations (js_Number s) (take 1 (js_trim s) = ''-'')
      | None \<Rightarrow> (case st_workers st of None \<Rightarrow> Some cpus | Some n \<Rightarrow> Some (if n = 0 then cpus else n)))"

definition client_env :: "nat \<Rightarrow> process_env" where
  "client_env i = [(''WORKER_TYPE'', ''worker''), (''WORKER_INDEX'', nat_to_string i)]"

definition maintenance_env :: process_env where
  "maintenance_env = [(''WORKER_TYPE'', ''maintenance'')]"

definition mirroring_env :: "nat \<Rightarrow> process_env" where
  "mirroring_env i = [(''WORKER_TYPE'', ''static-mirroring''), (''MIRROR_INDEX'', nat_to_string i)]"

definition startup_envs :: "nat \<Rightarrow> relay_settings \<Rightarrow> process_env list" where
  "startup_envs workerCount st =
     map client_env [0..<workerCount] @ [maintenance_env] @
     (case st_mirrors st of None \<Rightarrow> [] | Some mirrors \<Rightarrow> map mirroring_env [0..<length mirrors])"

definition secret_missing :: "process_env \<Rightarrow> bool" where
  "secret_missing env =
     (case map_of env ''SECRET'' of None \<Rightarrow> True | Some s \<Rightarrow> s = [] \<or> s = ''changeme'')"

text \<open>\<open>App.run\<close>: the environments of the workers it forks, in order; \<open>None\<close> when it exits because
  payments need a secret, or never ends.\<close>

definition app_run :: "process_env \<Rightarrow> relay_settings \<Rightarrow> nat \<Rightarrow> process_env list option" where
  "app_run env st cpus =
     (if payments_enabled st \<and> secret_missing env then None
      else case worker_count env st cpus of None \<Rightarrow> None | Some n \<Rightarrow> Some (startup_envs n st))"

text \<open>\<open>onClusterMessage\<close>: the workers a message is sent to.\<close>

definition onClusterMessage :: "nat \<Rightarrow> nat list \<Rightarrow> nat list" where
  "onClusterMessage source workers = filter (\<lambda>worker. source \<noteq> worker) workers"

text \<open>\<open>onClusterExit\<close>: whether a restart is scheduled, and what the timer then does.\<close>

definition onClusterExit :: "int option \<Rightarrow> string option \<Rightarrow> bool" where
  "onClusterExit code signal = (\<not> (code = Some 0 \<or> signal = Some ''SIGINT''))"

definition restart_env :: "(nat \<Rightarrow> process_env option) \<Rightarrow> nat \<Rightarrow> process_env result" where
  "restart_env workers deadWorker =
     (case workers deadWorker of
        None \<Rightarrow> Inl (plain_error ''Mistakes were made'')
      | Some workerEnv \<Rightarrow> Inr workerEnv)"

section \<open>The processes together\<close>

text \<open>
  Ids of workers count from 1. Every live worker has a channel of messages to the primary process
  (\<open>sy_up\<close>) and one from it (\<open>sy_down\<close>, with the id of the worker a message came from); \<open>sy_env\<close> is
  the map of environments, \<open>sy_timers\<close> the dead workers whose restart is scheduled. Three fields only
  record the past: what every worker has sent (\<open>sy_sent\<close>), what it has been given to handle
  (\<open>sy_received\<close>), and the environments of the workers that stopped for good.
\<close>

record system =
  sy_live :: "nat list"
  sy_env :: "nat \<Rightarrow> process_env option"
  sy_timers :: "nat list"
  sy_next :: nat
  sy_up :: "nat \<Rightarrow> cluster_message list"
  sy_down :: "nat \<Rightarrow> (nat \<times> cluster_message) list"
  sy_sent :: "nat \<Rightarrow> cluster_message list"
  sy_received :: "nat \<Rightarrow> (nat \<times> cluster_message) list"
  sy_stopped :: "process_env list"

definition no_workers :: system where
  "no_workers = \<lparr>sy_live = [], sy_env = (\<lambda>_. None), sy_timers = [], sy_next = 1, sy_up = (\<lambda>_. []),
     sy_down = (\<lambda>_. []), sy_sent = (\<lambda>_. []), sy_received = (\<lambda>_. []), sy_stopped = []\<rparr>"

definition createWorker :: "process_env \<Rightarrow> system \<Rightarrow> system" where
  "createWorker env s = s\<lparr>sy_live := sy_live s @ [sy_next s], sy_env := (sy_env s)(sy_next s \<mapsto> env),
     sy_next := sy_next s + 1\<rparr>"

definition started :: "process_env list \<Rightarrow> system" where
  "started envs = fold createWorker envs no_workers"

definition worker_sends :: "nat \<Rightarrow> cluster_message \<Rightarrow> system \<Rightarrow> system" where
  "worker_sends k m s = s\<lparr>sy_up := (sy_up s)(k := sy_up s k @ [m]), sy_sent := (sy_sent s)(k := sy_sent s k @ [m])\<rparr>"

definition primary_forwards :: "nat \<Rightarrow> cluster_message \<Rightarrow> cluster_message list \<Rightarrow> system \<Rightarrow> system" where
  "primary_forwards k m rest s = s\<lparr>sy_up := (sy_up s)(k := rest),
     sy_down := (\<lambda>j. if j \<in> set (onClusterMessage k (sy_live s)) then sy_down s j @ [(k, m)] else sy_down s j)\<rparr>"

definition worker_receives :: "nat \<Rightarrow> nat \<times> cluster_message \<Rightarrow> (nat \<times> cluster_message) list \<Rightarrow> system \<Rightarrow> system" where
  "worker_receives k x rest s = s\<lparr>sy_down := (sy_down s)(k := rest),
     sy_received := (sy_received s)(k := sy_received s k @ [x])\<rparr>"

text \<open>Of the messages a dying worker has sent, the primary process still reads the first \<open>n\<close>.\<close>

definition worker_exits :: "nat \<Rightarrow> int option \<Rightarrow> string option \<Rightarrow> nat \<Rightarrow> system \<Rightarrow> system" where
  "worker_exits k code signal n s =
     (let s' = s\<lparr>sy_live := removeAll k (sy_live s), sy_down := (sy_down s)(k := []),
                 sy_up := (sy_up s)(k := take n (sy_up s k))\<rparr> in
      if onClusterExit code signal then s'\<lparr>sy_timers := sy_timers s @ [k]\<rparr>
      else s'\<lparr>sy_stopped := sy_stopped s @ [the (sy_env s k)]\<rparr>)"

inductive system_step :: "system \<Rightarrow> system \<Rightarrow> bool" where
  sends: "k \<in> set (sy_live s) \<Longrightarrow> system_step s (worker_sends k m s)"
| forwards: "sy_up s k = m # rest \<Longrightarrow> system_step s (primary_forwards k m rest s)"
| receives: "k \<in> set (sy_live s) \<Longrightarrow> sy_down s k = x # rest \<Longrightarrow> system_step s (worker_receives k x rest s)"
| exits: "k \<in> set (sy_live s) \<Longrightarrow> system_step s (worker_exits k code signal n s)"
| restarts: "sy_timers s = us @ k # vs \<Longrightarrow> restart_env (sy_env s) k = Inr env \<Longrightarrow>
    system_step s (createWorker env (s\<lparr>sy_timers := us @ vs\<rparr>))"

inductive system_run :: "system \<Rightarrow> system \<Rightarrow> bool" where
  run_refl: "system_run s s"
| run_step: "system_run s t \<Longrightarrow> system_step t u \<Longrightarrow> system_run s u"

section \<open>Who is running\<close>

definition env_of :: "system \<Rightarrow> nat \<Rightarrow> process_env" where
  "env_of s k = the (sy_env s k)"

definition workers_ok :: "process_env list \<Rightarrow> system \<Rightarrow> bool" where
  "workers_ok envs s \<longleftrightarrow>
     distinct (sy_live s @ sy_timers s) \<and> (\<forall>k \<in> set (sy_live s @ sy_timers s). k < sy_next s \<and> sy_env s k \<noteq> None) \<and>
     mset (map (env_of s) (sy_live s @ sy_timers s)) + mset (sy_stopped s) = mset envs"

lemma started_eq:
  "sy_live (started envs) = map Suc [0..<length envs]" "sy_timers (started envs) = []"
  "sy_next (started envs) = length envs + 1" "sy_stopped (started envs) = []"
  "sy_env (started envs) k = (if 1 \<le> k \<and> k \<le> length envs then Some (envs ! (k - 1)) else None)"
  "sy_up (started envs) = (\<lambda>_. [])" "sy_down (started envs) = (\<lambda>_. [])"
  "sy_sent (started envs) = (\<lambda>_. [])" "sy_received (started envs) = (\<lambda>_. [])"
  by (induction envs arbitrary: k rule: rev_induct)
     (auto simp: started_def no_workers_def createWorker_def nth_append)

lemma workers_ok_started: "workers_ok envs (started envs)"
proof -
  have "map (env_of (started envs)) (map Suc [0..<length envs]) = envs"
    by (rule nth_equalityI) (auto simp: env_of_def started_eq)
  then show ?thesis
    by (auto simp: workers_ok_def started_eq distinct_map simp del: map_map)
qed

lemma env_of_fork: "k \<noteq> sy_next s \<Longrightarrow> env_of (createWorker env s) k = env_of s k"
  by (simp add: env_of_def createWorker_def)

lemma map_env_fork:
  "\<forall>k \<in> set ks. k < sy_next s \<Longrightarrow> map (env_of (createWorker env s)) ks = map (env_of s) ks"
  by (rule map_cong) (auto simp: env_of_fork)

lemma workers_ok_fork:
  assumes ok: "workers_ok envs s" and k: "sy_timers s = us @ k # vs" and e: "sy_env s k = Some env"
  shows "workers_ok envs (createWorker env (s\<lparr>sy_timers := us @ vs\<rparr>))"
proof -
  let ?s = "s\<lparr>sy_timers := us @ vs\<rparr>"
  have lt: "\<forall>j \<in> set (sy_live s @ us @ vs). j < sy_next ?s" using ok k by (auto simp: workers_ok_def)
  have same: "map (env_of (createWorker env ?s)) (sy_live s @ us @ vs) = map (env_of s) (sy_live s @ us @ vs)"
    using map_env_fork [OF lt] by (simp add: env_of_def)
  have new: "env_of (createWorker env ?s) (sy_next s) = env_of s k"
    using e by (simp add: env_of_def createWorker_def)
  have live: "sy_live (createWorker env ?s) = sy_live s @ [sy_next s]"
      "sy_timers (createWorker env ?s) = us @ vs" "sy_next (createWorker env ?s) = sy_next s + 1"
      "sy_stopped (createWorker env ?s) = sy_stopped s"
      "\<And>j. sy_env (createWorker env ?s) j = (if j = sy_next s then Some env else sy_env s j)"
    by (simp_all add: createWorker_def)
  have "mset (map (env_of (createWorker env ?s)) (sy_live (createWorker env ?s) @ sy_timers (createWorker env ?s))) =
      mset (map (env_of s) (sy_live s @ sy_timers s))"
    unfolding live using arg_cong [where f = mset, OF same] new by (simp add: k ac_simps)
  moreover have "distinct (sy_live (createWorker env ?s) @ sy_timers (createWorker env ?s))"
    using ok k unfolding live by (auto simp: workers_ok_def)
  moreover have "\<forall>j \<in> set (sy_live (createWorker env ?s) @ sy_timers (createWorker env ?s)).
      j < sy_next (createWorker env ?s) \<and> sy_env (createWorker env ?s) j \<noteq> None"
    using ok k unfolding live by (auto simp: workers_ok_def intro: less_SucI)
  ultimately show ?thesis using ok unfolding workers_ok_def live by simp
qed

lemma workers_ok_exit:
  assumes ok: "workers_ok envs s" and k: "k \<in> set (sy_live s)"
  shows "workers_ok envs (worker_exits k code signal n s)"
proof -
  obtain us vs where live: "sy_live s = us @ k # vs" using k by (meson split_list)
  then have "removeAll k (sy_live s) = us @ vs" using ok by (auto simp: workers_ok_def)
  moreover have "env_of (worker_exits k code signal n s) = env_of s"
    by (auto simp: env_of_def worker_exits_def Let_def)
  ultimately show ?thesis
    using ok live by (auto simp: workers_ok_def worker_exits_def Let_def env_of_def ac_simps)
qed

lemma workers_ok_frame:
  "workers_ok envs s \<Longrightarrow> sy_live s' = sy_live s \<Longrightarrow> sy_timers s' = sy_timers s \<Longrightarrow> sy_next s' = sy_next s \<Longrightarrow>
    sy_env s' = sy_env s \<Longrightarrow> sy_stopped s' = sy_stopped s \<Longrightarrow> workers_ok envs s'"
  by (simp add: workers_ok_def env_of_def [abs_def])

lemma workers_ok_step: "system_step s t \<Longrightarrow> workers_ok envs s \<Longrightarrow> workers_ok envs t"
proof (induction rule: system_step.induct)
  case (restarts s us k vs env)
  then show ?case by (intro workers_ok_fork) (auto simp: restart_env_def split: option.splits)
qed (auto intro: workers_ok_exit
      elim: workers_ok_frame simp: worker_sends_def primary_forwards_def worker_receives_def)

lemma workers_ok_run: "system_run s t \<Longrightarrow> workers_ok envs s \<Longrightarrow> workers_ok envs t"
  by (induction rule: system_run.induct) (auto intro: workers_ok_step)

section \<open>Every broadcast once\<close>

definition from_worker :: "nat \<Rightarrow> (nat \<times> cluster_message) list \<Rightarrow> cluster_message list" where
  "from_worker j xs = map snd (filter (\<lambda>x. fst x = j) xs)"

lemma from_worker_simps [simp]:
  "from_worker j [] = []" "from_worker j (xs @ ys) = from_worker j xs @ from_worker j ys"
  "from_worker j [(k, m)] = (if k = j then [m] else [])"
  "from_worker j (x # xs) = (if fst x = j then snd x # from_worker j xs else from_worker j xs)"
  by (simp_all add: from_worker_def)

text \<open>
  What worker \<open>k\<close> has received from \<open>j\<close>, what is on its way to it, and what the primary process has
  not read yet make up, in this order, what \<open>j\<close> has sent, but for a first part sent before \<open>k\<close>
  existed (\<open>missed\<close>) and a last part that died with \<open>j\<close> (\<open>lost\<close>).
\<close>

definition seen_by :: "system \<Rightarrow> nat \<Rightarrow> nat \<Rightarrow> cluster_message list" where
  "seen_by s k j = from_worker j (sy_received s k) @ from_worker j (sy_down s k) @ sy_up s j"

definition channel_ok :: "nat \<Rightarrow> system \<Rightarrow> nat \<Rightarrow> nat \<Rightarrow> bool" where
  "channel_ok n0 s k j \<longleftrightarrow>
     (\<exists>missed lost. missed @ seen_by s k j @ lost = sy_sent s j \<and>
        (j \<in> set (sy_live s) \<longrightarrow> lost = []) \<and> (missed \<noteq> [] \<longrightarrow> n0 < k \<and> j < k))"

definition channels_ok :: "nat \<Rightarrow> system \<Rightarrow> bool" where
  "channels_ok n0 s \<longleftrightarrow>
     (\<forall>k \<in> set (sy_live s). k < sy_next s \<and>
        from_worker k (sy_received s k @ sy_down s k) = [] \<and> (\<forall>j. j \<noteq> k \<longrightarrow> channel_ok n0 s k j)) \<and>
     (\<forall>j. \<exists>gone lost. gone @ sy_up s j @ lost = sy_sent s j \<and> (j \<in> set (sy_live s) \<longrightarrow> lost = [])) \<and>
     (\<forall>j \<ge> sy_next s. sy_sent s j = [] \<and> sy_received s j = [] \<and> sy_down s j = []) \<and>
     n0 < sy_next s"

lemma channel_okI:
  "missed @ seen_by s k j @ lost = sy_sent s j \<Longrightarrow> (j \<in> set (sy_live s) \<Longrightarrow> lost = []) \<Longrightarrow>
    (missed \<noteq> [] \<Longrightarrow> n0 < k \<and> j < k) \<Longrightarrow> channel_ok n0 s k j"
  unfolding channel_ok_def by blast

lemma channels_ok_up:
  assumes "channels_ok n0 s"
  obtains gone lost where "gone @ sy_up s j @ lost = sy_sent s j" and "j \<in> set (sy_live s) \<longrightarrow> lost = []"
  using assms unfolding channels_ok_def by metis

lemma channels_ok_pair:
  assumes "channels_ok n0 s" and "k \<in> set (sy_live s)" and "j \<noteq> k"
  obtains missed lost where "missed @ seen_by s k j @ lost = sy_sent s j"
    and "j \<in> set (sy_live s) \<longrightarrow> lost = []" and "missed \<noteq> [] \<longrightarrow> n0 < k \<and> j < k"
  using assms unfolding channels_ok_def channel_ok_def by metis

lemma channels_ok_started: "channels_ok (length envs) (started envs)"
  by (auto simp: channels_ok_def channel_ok_def seen_by_def started_eq)

lemma channel_ok_frame:
  assumes "channel_ok n0 s k j" and "seen_by t k j = seen_by s k j" and "sy_sent t j = sy_sent s j"
    and "set (sy_live t) \<inter> {j} \<subseteq> set (sy_live s)"
  shows "channel_ok n0 t k j"
  using assms unfolding channel_ok_def by auto

lemma channel_ok_append:
  assumes "channel_ok n0 s k j" and "seen_by t k j = seen_by s k j @ [m]" and "sy_sent t j = sy_sent s j @ [m]"
    and "sy_live t = sy_live s" and "j \<in> set (sy_live s)"
  shows "channel_ok n0 t k j"
proof -
  obtain missed where "missed @ seen_by s k j = sy_sent s j" "missed \<noteq> [] \<longrightarrow> n0 < k \<and> j < k"
    using assms(1,5) by (auto simp: channel_ok_def)
  then have "missed @ seen_by t k j @ [] = sy_sent t j" using assms(2,3) by simp
  then show ?thesis by (rule channel_okI) (use \<open>missed \<noteq> [] \<longrightarrow> _\<close> in auto)
qed

lemma channels_ok_sends:
  assumes ok: "channels_ok n0 s" and i: "i \<in> set (sy_live s)"
  shows "channels_ok n0 (worker_sends i m s)" (is "channels_ok n0 ?t")
proof -
  have t: "sy_live ?t = sy_live s" "sy_sent ?t = (sy_sent s)(i := sy_sent s i @ [m])"
    by (simp_all add: worker_sends_def)
  have seen: "seen_by ?t k j = (if j = i then seen_by s k j @ [m] else seen_by s k j)" for k j
    by (simp add: seen_by_def worker_sends_def)
  have "channel_ok n0 ?t k j" if "k \<in> set (sy_live s)" "j \<noteq> k" for k j
  proof (cases "j = i")
    case True
    show ?thesis by (rule channel_ok_append [of n0 s k j _ m])
        (use ok that True i in \<open>auto simp: channels_ok_def seen t\<close>)
  next
    case False
    show ?thesis by (rule channel_ok_frame [of n0 s])
        (use ok that False in \<open>auto simp: channels_ok_def seen t\<close>)
  qed
  moreover have "\<exists>gone lost. gone @ sy_up ?t j @ lost = sy_sent ?t j \<and> (j \<in> set (sy_live ?t) \<longrightarrow> lost = [])" for j
  proof -
    obtain gone lost where g: "gone @ sy_up s j @ lost = sy_sent s j" "j \<in> set (sy_live s) \<longrightarrow> lost = []"
      using channels_ok_up [OF ok] .
    show ?thesis
      by (intro exI [of _ gone] exI [of _ lost]) (use g i in \<open>auto simp: worker_sends_def\<close>)
  qed
  ultimately show ?thesis using ok i by (auto simp: channels_ok_def worker_sends_def)
qed

lemma channels_ok_forwards:
  assumes ok: "channels_ok n0 s" and up: "sy_up s i = m # rest"
  shows "channels_ok n0 (primary_forwards i m rest s)" (is "channels_ok n0 ?t")
proof -
  have t: "sy_live ?t = sy_live s" "sy_sent ?t = sy_sent s" by (simp_all add: primary_forwards_def)
  have seen: "seen_by ?t k j = seen_by s k j" if "k \<in> set (sy_live s)" "j \<noteq> k" for k j
    using that up by (auto simp: seen_by_def primary_forwards_def onClusterMessage_def)
  have "channel_ok n0 ?t k j" if "k \<in> set (sy_live s)" "j \<noteq> k" for k j
    by (rule channel_ok_frame [of n0 s]) (use ok that in \<open>auto simp: channels_ok_def seen t\<close>)
  moreover have "\<exists>gone lost. gone @ sy_up ?t j @ lost = sy_sent ?t j \<and> (j \<in> set (sy_live ?t) \<longrightarrow> lost = [])" for j
  proof -
    obtain gone lost where g: "gone @ sy_up s j @ lost = sy_sent s j" "j \<in> set (sy_live s) \<longrightarrow> lost = []"
      using channels_ok_up [OF ok] .
    show ?thesis
      by (intro exI [of _ "if j = i then gone @ [m] else gone"] exI [of _ lost])
         (use g up in \<open>auto simp: primary_forwards_def\<close>)
  qed
  moreover have "from_worker k (sy_received ?t k @ sy_down ?t k) = []" if "k \<in> set (sy_live s)" for k
    using ok that by (auto simp: channels_ok_def primary_forwards_def onClusterMessage_def)
  ultimately show ?thesis using ok by (auto simp: channels_ok_def primary_forwards_def onClusterMessage_def)
qed

lemma channels_ok_receives:
  assumes ok: "channels_ok n0 s" and i: "i \<in> set (sy_live s)" "sy_down s i = x # rest"
  shows "channels_ok n0 (worker_receives i x rest s)" (is "channels_ok n0 ?t")
proof -
  have all: "from_worker j (sy_received ?t k @ sy_down ?t k) = from_worker j (sy_received s k @ sy_down s k)" for k j
    using i by (simp add: worker_receives_def)
  then have seen: "seen_by ?t k j = seen_by s k j" for k j
    by (simp add: seen_by_def worker_receives_def flip: append_assoc)
  have t: "sy_live ?t = sy_live s" "sy_sent ?t = sy_sent s" by (simp_all add: worker_receives_def)
  have "channel_ok n0 ?t k j" if "k \<in> set (sy_live s)" "j \<noteq> k" for k j
    by (rule channel_ok_frame [of n0 s]) (use ok that in \<open>auto simp: channels_ok_def seen t\<close>)
  moreover have "from_worker k (sy_received ?t k @ sy_down ?t k) = []" if "k \<in> set (sy_live s)" for k
    unfolding all using ok that by (auto simp: channels_ok_def)
  ultimately show ?thesis using ok i by (auto simp: channels_ok_def worker_receives_def)
qed

lemma take_drop_append: "take n xs @ drop n xs @ ys = xs @ ys"
  by (simp flip: append_assoc)

lemma channels_ok_exits:
  assumes ok: "channels_ok n0 s"
  shows "channels_ok n0 (worker_exits i code signal n s)" (is "channels_ok n0 ?t")
proof -
  have t: "sy_live ?t = removeAll i (sy_live s)" "sy_next ?t = sy_next s" "sy_sent ?t = sy_sent s"
      "sy_received ?t = sy_received s" "sy_down ?t = (sy_down s)(i := [])"
      "sy_up ?t = (sy_up s)(i := take n (sy_up s i))"
    by (simp_all add: worker_exits_def Let_def)
  have "channel_ok n0 ?t k j" if k: "k \<in> set (sy_live s)" "k \<noteq> i" "j \<noteq> k" for k j
  proof -
    obtain missed lost where c: "missed @ seen_by s k j @ lost = sy_sent s j"
        "j \<in> set (sy_live s) \<longrightarrow> lost = []" "missed \<noteq> [] \<longrightarrow> n0 < k \<and> j < k"
      using channels_ok_pair [OF ok k(1,3)] .
    show ?thesis
    proof (cases "j = i")
      case True
      have "missed @ seen_by ?t k j @ (drop n (sy_up s i) @ lost) = sy_sent ?t j"
        using c(1) k True by (simp add: seen_by_def t take_drop_append)
      then show ?thesis by (rule channel_okI) (use c True in \<open>auto simp: t\<close>)
    next
      case False
      show ?thesis by (rule channel_okI [of missed _ _ _ lost]) (use c False k in \<open>auto simp: seen_by_def t\<close>)
    qed
  qed
  moreover have "\<exists>gone lost. gone @ sy_up ?t j @ lost = sy_sent ?t j \<and> (j \<in> set (sy_live ?t) \<longrightarrow> lost = [])" for j
  proof -
    obtain gone lost where g: "gone @ sy_up s j @ lost = sy_sent s j" "j \<in> set (sy_live s) \<longrightarrow> lost = []"
      using channels_ok_up [OF ok] .
    show ?thesis
      by (rule exI [of _ gone], rule exI [of _ "if j = i then drop n (sy_up s i) @ lost else lost"])
         (use g in \<open>auto simp: t take_drop_append\<close>)
  qed
  ultimately show ?thesis using ok by (auto simp: channels_ok_def t)
qed

lemma channels_ok_fork:
  assumes ok: "channels_ok n0 s"
  shows "channels_ok n0 (createWorker env s)" (is "channels_ok n0 ?t")
proof -
  have t: "sy_live ?t = sy_live s @ [sy_next s]" "sy_next ?t = sy_next s + 1" "sy_sent ?t = sy_sent s"
      "sy_received ?t = sy_received s" "sy_down ?t = sy_down s" "sy_up ?t = sy_up s"
    by (simp_all add: createWorker_def)
  have none: "sy_sent s j = []" "sy_up s j = []" "sy_received s j = []" "sy_down s j = []" if "j \<ge> sy_next s" for j
    using ok that by (auto simp: channels_ok_def) (metis append_is_Nil_conv)
  have "channel_ok n0 ?t k j" if k: "k \<in> set (sy_live ?t)" "j \<noteq> k" for k j
  proof (cases "k = sy_next s")
    case True
    obtain gone lost where g: "gone @ sy_up s j @ lost = sy_sent s j" "j \<in> set (sy_live s) \<longrightarrow> lost = []"
      using channels_ok_up [OF ok] .
    show ?thesis
    proof (rule channel_okI [of gone _ _ _ lost])
      show "gone @ seen_by ?t k j @ lost = sy_sent ?t j" using g True none by (simp add: seen_by_def t)
      show "j \<in> set (sy_live ?t) \<Longrightarrow> lost = []" using g True k by (simp add: t)
      assume "gone \<noteq> []"
      then have "sy_sent s j \<noteq> []" using g by auto
      then have "j < k" using none(1) True by (metis leI)
      then show "n0 < k \<and> j < k" using ok True by (simp add: channels_ok_def)
    qed
  next
    case False
    then have live: "k \<in> set (sy_live s)" using k by (simp add: t)
    show ?thesis
    proof (cases "j = sy_next s")
      case True
      have "[] @ seen_by ?t k j @ [] = sy_sent ?t j"
      proof -
        obtain missed lost where "missed @ seen_by s k j @ lost = sy_sent s j"
          using channels_ok_pair [OF ok live k(2)] .
        then show ?thesis using none(1) [of j] True by (simp add: seen_by_def t)
      qed
      then show ?thesis by (rule channel_okI) auto
    next
      case False
      show ?thesis by (rule channel_ok_frame [of n0 s])
          (use ok live k False in \<open>auto simp: channels_ok_def seen_by_def t\<close>)
    qed
  qed
  moreover have "\<exists>gone lost. gone @ sy_up ?t j @ lost = sy_sent ?t j \<and> (j \<in> set (sy_live ?t) \<longrightarrow> lost = [])" for j
  proof (cases "j = sy_next s")
    case False
    obtain gone lost where "gone @ sy_up s j @ lost = sy_sent s j" "j \<in> set (sy_live s) \<longrightarrow> lost = []"
      using channels_ok_up [OF ok] .
    then show ?thesis using False by (intro exI [of _ gone] exI [of _ lost]) (simp add: t)
  qed (simp add: t none)
  ultimately show ?thesis using ok none by (auto simp: channels_ok_def t)
qed

lemma channels_ok_timers: "channels_ok n0 (s\<lparr>sy_timers := ts\<rparr>) = channels_ok n0 s"
  by (simp add: channels_ok_def channel_ok_def seen_by_def)

lemma channels_ok_step: "system_step s t \<Longrightarrow> channels_ok n0 s \<Longrightarrow> channels_ok n0 t"
  by (induction rule: system_step.induct)
     (auto intro: channels_ok_sends channels_ok_forwards channels_ok_receives channels_ok_exits channels_ok_fork
       simp: channels_ok_timers)

lemma channels_ok_run: "system_run s t \<Longrightarrow> channels_ok n0 s \<Longrightarrow> channels_ok n0 t"
  by (induction rule: system_run.induct) (auto intro: channels_ok_step)

section \<open>Channels can always be emptied\<close>

lemma system_run_trans: "system_run t u \<Longrightarrow> system_run s t \<Longrightarrow> system_run s u"
  by (induction rule: system_run.induct) (auto intro: run_step)

lemma system_run_first: "system_step s t \<Longrightarrow> system_run t u \<Longrightarrow> system_run s u"
  using system_run_trans run_step run_refl by metis

lemma drain_up: "\<exists>t. system_run s t \<and> sy_up t j = [] \<and> sy_live t = sy_live s \<and> sy_sent t = sy_sent s"
proof (induction "sy_up s j" arbitrary: s)
  case Nil
  then show ?case using run_refl by metis
next
  case (Cons m rest)
  let ?t = "primary_forwards j m rest s"
  have "sy_up ?t j = rest" "sy_live ?t = sy_live s" "sy_sent ?t = sy_sent s"
    by (simp_all add: primary_forwards_def)
  with Cons.hyps(1) [of ?t] forwards [of s j m rest] Cons.hyps(2) system_run_first show ?case by metis
qed

lemma drain_down:
  "k \<in> set (sy_live s) \<Longrightarrow>
     \<exists>t. system_run s t \<and> sy_down t k = [] \<and> sy_up t = sy_up s \<and> sy_live t = sy_live s \<and> sy_sent t = sy_sent s"
proof (induction "sy_down s k" arbitrary: s)
  case Nil
  then show ?case using run_refl by metis
next
  case (Cons x rest)
  let ?t = "worker_receives k x rest s"
  have t: "sy_down ?t k = rest" "sy_up ?t = sy_up s" "sy_live ?t = sy_live s" "sy_sent ?t = sy_sent s"
    by (simp_all add: worker_receives_def)
  have step: "system_step s ?t" using Cons.prems Cons.hyps(2) [symmetric] by (rule receives)
  from Cons.hyps(1) [of ?t] t Cons.prems obtain u where
    "system_run ?t u" "sy_down u k = []" "sy_up u = sy_up s" "sy_live u = sy_live s" "sy_sent u = sy_sent s" by auto
  with system_run_first [OF step] show ?case by blast
qed

lemma drained:
  assumes "k \<in> set (sy_live s)"
  shows "\<exists>t. system_run s t \<and> sy_up t j = [] \<and> sy_down t k = [] \<and> sy_live t = sy_live s \<and> sy_sent t = sy_sent s"
proof -
  obtain t where t: "system_run s t" "sy_up t j = []" "sy_live t = sy_live s" "sy_sent t = sy_sent s"
    using drain_up by blast
  obtain u where "system_run t u" "sy_down u k = []" "sy_up u = sy_up t" "sy_live u = sy_live t" "sy_sent u = sy_sent t"
    using drain_down [of k t] assms t(3) by auto
  with t system_run_trans show ?thesis by metis
qed

section \<open>Environments\<close>

lemma filter_enumerate:
  "filter (\<lambda>x. fst x = i) (enumerate n xs) = (if n \<le> i \<and> i < n + length xs then [(i, xs ! (i - n))] else [])"
proof (induction xs arbitrary: n)
  case (Cons x xs)
  then show ?case by (cases "i = n") (auto simp: nth_Cons' not_less_eq_eq Suc_le_eq)
qed simp

lemma array_property_index [simp]: "i < length xs \<Longrightarrow> array_property xs (nat_to_string i) = Some (xs ! i)"
  using filter_enumerate [of i 0 xs] by (simp add: array_property_def nat_to_string_inj case_prod_unfold)

lemma getRunner_envs [simp]:
  "getRunner False (client_env i) = Inr RunWorker" "getRunner False maintenance_env = Inr RunMaintenance"
  "getRunner False (mirroring_env i) = Inr RunMirroring"
  by (simp_all add: getRunner_def client_env_def maintenance_env_def mirroring_env_def)

lemma mirror_config_env [simp]:
  "st_mirrors st = Some mirrors \<Longrightarrow> i < length mirrors \<Longrightarrow> mirror_config st (mirroring_env i) = Some (mirrors ! i)"
  by (simp add: mirror_config_def mirroring_env_def)

lemma startup_configs:
  "map (mirror_config st) (filter (\<lambda>e. getRunner False e = Inr RunMirroring) (startup_envs n st)) =
     (case st_mirrors st of None \<Rightarrow> [] | Some mirrors \<Rightarrow> map Some mirrors)"
  by (auto simp: startup_envs_def filter_map comp_def filter_empty_conv split: option.splits
      intro: nth_equalityI)

lemma startup_runners: "e \<in> set (startup_envs n st) \<Longrightarrow> \<exists>r. getRunner False e = Inr r"
  by (auto simp: startup_envs_def split: option.splits)

lemma app_run_Some: "app_run env st cpus = Some envs \<Longrightarrow> \<exists>n. envs = startup_envs n st"
  by (auto simp: app_run_def split: if_splits option.splits)

section \<open>Properties\<close>

text \<open>A run with two client workers in which the first announces an event.\<close>

definition two_workers :: system where
  "two_workers = started (startup_envs 2 plain_settings)"

definition announcement :: cluster_message where
  "announcement = \<lparr>cm_event = note_event, cm_source = None\<rparr>"

definition announced :: system where
  "announced = worker_receives 2 (1, announcement) []
     (primary_forwards 1 announcement [] (worker_sends 1 announcement two_workers))"

lemma two_workers_live: "sy_live two_workers = [1, 2, 3]"
  by (simp add: two_workers_def started_eq startup_envs_def plain_settings_def upt_rec)

lemma announced_run: "system_run two_workers announced"
proof -
  let ?s1 = "worker_sends 1 announcement two_workers"
  let ?s2 = "primary_forwards 1 announcement [] ?s1"
  have idle: "sy_up two_workers = (\<lambda>_. [])" "sy_down two_workers = (\<lambda>_. [])"
    by (simp_all add: two_workers_def started_eq)
  have "system_step two_workers ?s1" by (rule sends) (simp add: two_workers_live)
  moreover have "system_step ?s1 ?s2" by (rule forwards) (simp add: worker_sends_def idle)
  moreover have "system_step ?s2 announced"
    unfolding announced_def
    by (rule receives)
       (simp_all add: primary_forwards_def worker_sends_def onClusterMessage_def two_workers_live idle)
  ultimately show ?thesis using run_refl run_step by metis
qed

text \<open>
  C31. Between the workers of a relay every announcement is delivered exactly once and in order, and
  never to its sender: at any moment, what a running worker has received from another one, followed
  by what is on its way to it and by what the primary process has yet to forward, is what the other
  one has sent - all of it when the receiver has run since the start or is the older of the two, and
  otherwise but for a first part sent before it was forked; a last part can be lost only when the
  sender has died.
\<close>

theorem announcements_delivered_once:
  assumes "system_run (started envs) s" and "k \<in> set (sy_live s)"
  shows "from_worker k (sy_received s k) = [] \<and>
    (\<forall>j. j \<noteq> k \<longrightarrow> (\<exists>missed lost.
       missed @ from_worker j (sy_received s k) @ from_worker j (sy_down s k) @ sy_up s j @ lost = sy_sent s j \<and>
       (j \<in> set (sy_live s) \<longrightarrow> lost = []) \<and> (missed \<noteq> [] \<longrightarrow> length envs < k \<and> j < k)))"
proof -
  have ok: "channels_ok (length envs) s" using channels_ok_run [OF assms(1) channels_ok_started] .
  then have "from_worker k (sy_received s k) = []" using assms(2) by (auto simp: channels_ok_def)
  moreover have "\<exists>missed lost.
      missed @ from_worker j (sy_received s k) @ from_worker j (sy_down s k) @ sy_up s j @ lost = sy_sent s j \<and>
      (j \<in> set (sy_live s) \<longrightarrow> lost = []) \<and> (missed \<noteq> [] \<longrightarrow> length envs < k \<and> j < k)" if "j \<noteq> k" for j
    using channels_ok_pair [OF ok assms(2) that] unfolding seen_by_def append_assoc by metis
  ultimately show ?thesis by blast
qed

theorem announcements_delivered_once_witness:
  "from_worker 1 (sy_received announced 2) = sy_sent announced 1 \<and> sy_sent announced 1 = [announcement]"
proof -
  have run: "system_run (started (startup_envs 2 plain_settings)) announced"
    using announced_run by (simp add: two_workers_def)
  have "length (startup_envs 2 plain_settings) = 3" by (simp add: startup_envs_def plain_settings_def)
  then have fields: "2 \<in> set (sy_live announced)" "sy_up announced 1 = []" "1 \<in> set (sy_live announced)"
      "sy_down announced 2 = []" "sy_sent announced 1 = [announcement]"
    by (simp_all add: announced_def worker_receives_def primary_forwards_def worker_sends_def two_workers_live
        two_workers_def started_eq)
  have "\<exists>missed lost. missed @ from_worker 1 (sy_received announced 2) @ from_worker 1 (sy_down announced 2) @
      sy_up announced 1 @ lost = sy_sent announced 1 \<and> (1 \<in> set (sy_live announced) \<longrightarrow> lost = []) \<and>
      (missed \<noteq> [] \<longrightarrow> length (startup_envs 2 plain_settings) < 2 \<and> (1::nat) < 2)"
    using announcements_delivered_once [OF run fields(1)] by (metis one_eq_numeral_iff semiring_norm(85))
  then show ?thesis using fields by (auto simp: startup_envs_def)
qed

text \<open>
  C32. Restarts keep the relay complete: whatever exits and restarts happen, the environments of the
  workers that run, of those whose restart is due and of those that stopped for good are together
  those the primary process started; every worker has a runner, every due restart finds its
  environment, and the mirroring workers are one for each configured mirror, each with its own.
\<close>

theorem worker_environments_kept:
  assumes "app_run env st cpus = Some envs" and "system_run (started envs) s"
  shows "mset (map (env_of s) (sy_live s)) + mset (map (env_of s) (sy_timers s)) + mset (sy_stopped s) = mset envs \<and>
    (\<forall>k \<in> set (sy_live s). \<exists>r. getRunner False (env_of s k) = Inr r) \<and>
    (\<forall>k \<in> set (sy_timers s). restart_env (sy_env s) k = Inr (env_of s k)) \<and>
    map (mirror_config st) (filter (\<lambda>e. getRunner False e = Inr RunMirroring) envs) =
      (case st_mirrors st of None \<Rightarrow> [] | Some mirrors \<Rightarrow> map Some mirrors)"
proof -
  obtain n where n: "envs = startup_envs n st" using app_run_Some [OF assms(1)] by blast
  have ok: "workers_ok envs s" using workers_ok_run [OF assms(2) workers_ok_started] .
  have part: "mset (map (env_of s) (sy_live s)) + mset (map (env_of s) (sy_timers s)) + mset (sy_stopped s) = mset envs"
    using ok by (simp add: workers_ok_def)
  have "env_of s k \<in> set envs" if "k \<in> set (sy_live s)" for k
  proof -
    have "env_of s k \<in># mset envs" unfolding part [symmetric] using that by simp
    then show ?thesis by simp
  qed
  moreover have "restart_env (sy_env s) k = Inr (env_of s k)" if due: "k \<in> set (sy_timers s)" for k
  proof -
    obtain e where "sy_env s k = Some e" using ok due by (auto simp: workers_ok_def)
    then show ?thesis by (simp add: restart_env_def env_of_def)
  qed
  ultimately show ?thesis using part startup_runners startup_configs n by blast
qed

theorem worker_environments_kept_witness:
  "mset (map (env_of announced) (sy_live announced)) + mset (map (env_of announced) (sy_timers announced)) +
     mset (sy_stopped announced) = mset (startup_envs 2 plain_settings)"
proof -
  have "app_run [(''WORKER_COUNT'', ''2'')] plain_settings 8 = Some (startup_envs 2 plain_settings)"
    by code_simp
  from worker_environments_kept [OF this, of announced] announced_run show ?thesis
    by (simp add: two_workers_def)
qed

end
