(* ===== verification/Runes.thy ===== *)
theory Runes
  imports Js_Number
begin

text \<open>
  \<open>src/utils/runes/\<close>: conditions on named values. A rune is a list of restrictions, all of which must
  hold; a restriction is a list of alternatives, one of which must hold; an alternative compares one
  field. The loops of the decoders are \<open>while\<close> loops over the rest of the string; those whose
  progress depends on another decoder are partial functions here, and are proved to return.
\<close>

section \<open>Alternatives\<close>

text \<open>The character class \<open>punctuations\<close>; its \<open>+-.\<close> is a range.\<close>

definition hasPunctuation :: "char \<Rightarrow> bool" where
  "hasPunctuation c \<longleftrightarrow>
     (33 \<le> char_code c \<and> char_code c \<le> 47) \<or> (58 \<le> char_code c \<and> char_code c \<le> 64) \<or>
     (91 \<le> char_code c \<and> char_code c \<le> 94) \<or> char_code c = 96 \<or> (123 \<le> char_code c \<and> char_code c \<le> 126)"

record alternative =
  alt_field :: string
  alt_cond :: char
  alt_value :: string

definition conditions :: string where
  "conditions = ''!=/^$~<>}{#''"

text \<open>The constructor; \<open>cond\<close> may be undefined.\<close>

definition new_Alternative :: "string \<Rightarrow> string option \<Rightarrow> string \<Rightarrow> alternative result" where
  "new_Alternative field cond value =
     (if list_ex hasPunctuation field then Inl (plain_error ''Field is not valid'')
      else
        case cond of
          Some [c] \<Rightarrow>
            if c \<in> set conditions then Inr \<lparr>alt_field = field, alt_cond = c, alt_value = value\<rparr>
            else Inl (plain_error ''Cond is not valid'')
        | _ \<Rightarrow> Inl (plain_error ''Cond is not valid''))"

text \<open>
  The values a rune is tested on: strings, integers (below \<open>10^21\<close> in size, so that \<open>String\<close> prints all
  their digits), booleans, the empty values, arrays of strings and functions of the alternative.
\<close>

datatype test_value =
    VString string
  | VNumber int
  | VBool bool
  | VUndefined
  | VNull
  | VArray "string list"
  | VFunction "alternative \<Rightarrow> string option"

fun js_String :: "test_value \<Rightarrow> string" where
  "js_String (VString s) = s"
| "js_String (VNumber n) = int_to_string n"
| "js_String (VBool b) = (if b then ''true'' else ''false'')"
| "js_String VUndefined = ''undefined''"
| "js_String VNull = ''null''"
| "js_String (VArray ss) = join '','' ss"
| "js_String (VFunction f) = ''function''"

text \<open>\<open>value.includes(x)\<close>.\<close>

fun js_includes :: "test_value \<Rightarrow> string \<Rightarrow> bool result" where
  "js_includes (VString s) x = Inr (sublist x s)"
| "js_includes (VArray ss) x = Inr (x \<in> set ss)"
| "js_includes VUndefined x = Inl (type_error ''Cannot read properties of undefined (reading 'includes')'')"
| "js_includes VNull x = Inl (type_error ''Cannot read properties of null (reading 'includes')'')"
| "js_includes _ x = Inl (type_error ''values[this.field].includes is not a function'')"

text \<open>\<open>Number.parseInt\<close>: leading white space, a sign, \<open>0x\<close>, and the longest prefix of digits; the
  number is rounded to a double (of fewer than 309 digits). \<open>None\<close> is \<open>NaN\<close>.\<close>

definition parse_digits :: "nat \<Rightarrow> string \<Rightarrow> int option" where
  "parse_digits r s =
     (let ds = takeWhile (\<lambda>c. radix_digit c < r) s in
      if ds = [] then None
      else map_option int (double_integer (foldl (\<lambda>n c. r * n + radix_digit c) 0 ds) 1))"

definition parse_magnitude :: "string \<Rightarrow> int option" where
  "parse_magnitude s =
     (if take 2 s = ''0x'' \<or> take 2 s = ''0X'' then parse_digits 16 (drop 2 s) else parse_digits 10 s)"

definition parseInt :: "string \<Rightarrow> int option" where
  "parseInt s =
     (let t = dropWhile is_js_space s in
      if take 1 t = ''-'' then map_option uminus (parse_magnitude (drop 1 t))
      else if take 1 t = ''+'' then parse_magnitude (drop 1 t)
      else parse_magnitude t)"

text \<open>\<open><\<close> of strings compares their code units.\<close>

fun string_less :: "string \<Rightarrow> string \<Rightarrow> bool" where
  "string_less s [] = False"
| "string_less [] (c # t) = True"
| "string_less (c # s) (d # t) = (char_code c < char_code d \<or> c = d \<and> string_less s t)"

definition why :: "bool \<Rightarrow> string \<Rightarrow> string \<Rightarrow> string option" where
  "why cond field explanation = (if cond then None else Some (field @ '': '' @ explanation))"

definition compare_numbers :: "alternative \<Rightarrow> string \<Rightarrow> string option" where
  "compare_numbers a val =
     (case parseInt val of
        None \<Rightarrow> why False (alt_field a) ''not an integer field''
      | Some actualInt \<Rightarrow>
          (case parseInt (alt_value a) of
             None \<Rightarrow> why False (alt_field a) ''not a valid integer''
           | Some restrictionVal \<Rightarrow>
               if alt_cond a = CHR ''<'' then
                 why (actualInt < restrictionVal) (alt_field a) (''>= '' @ int_to_string restrictionVal)
               else why (actualInt > restrictionVal) (alt_field a) (''<= '' @ int_to_string restrictionVal)))"

text \<open>\<open>test\<close>; \<open>None\<close> is \<open>undefined\<close>: the alternative holds. The values are an object without
  inherited properties, in the order of their keys.\<close>

definition compare_value :: "alternative \<Rightarrow> test_value \<Rightarrow> string option result" where
  "compare_value a v =
     (let val = js_String v; x = alt_value a; c = alt_cond a in
      if c = CHR ''!'' then Inr (why False (alt_field a) ''is present'')
      else if c = CHR ''='' then Inr (why (val = x) (alt_field a) (''!= '' @ x))
      else if c = CHR ''/'' then Inr (why (val \<noteq> x) (alt_field a) (''= '' @ x))
      else if c = CHR ''^'' then Inr (why (prefix x val) (alt_field a) (''does not start with '' @ x))
      else if c = CHR ''$'' then Inr (why (suffix x val) (alt_field a) (''does not end with '' @ x))
      else if c = CHR ''~'' then
        (case js_includes v x of
           Inl e \<Rightarrow> Inl e
         | Inr b \<Rightarrow> Inr (why b (alt_field a) (''does not contain '' @ x)))
      else if c = CHR ''<'' \<or> c = CHR ''>'' then Inr (compare_numbers a val)
      else if c = CHR ''{'' then
        Inr (why (string_less val x) (alt_field a) (''is the same or ordered after '' @ x))
      else if c = CHR ''}'' then
        Inr (why (string_less x val) (alt_field a) (''is the same or ordered before '' @ x))
      else Inr None)"

definition alternative_test :: "alternative \<Rightarrow> (string \<times> test_value) list \<Rightarrow> string option result" where
  "alternative_test a values =
     (if alt_cond a = CHR ''#'' then Inr None
      else
        case map_of values (alt_field a) of
          None \<Rightarrow> Inr (why (alt_cond a = CHR ''!'') (alt_field a) ''is missing'')
        | Some (VFunction f) \<Rightarrow> Inr (f a)
        | Some v \<Rightarrow> compare_value a v)"

definition escape :: "string \<Rightarrow> string" where
  "escape v = concat (map (\<lambda>c. if c \<in> {CHR 0x5C, CHR ''|'', CHR ''&''} then [CHR 0x5C, c] else [c]) v)"

definition alternative_encode :: "alternative \<Rightarrow> string" where
  "alternative_encode a = alt_field a @ [alt_cond a] @ escape (alt_value a)"

text \<open>The first loop of \<open>decode\<close>: the field, the operator and what follows it.\<close>

fun operator_loop :: "string \<Rightarrow> (string \<times> char \<times> string) option" where
  "operator_loop [] = None"
| "operator_loop (c # s) =
     (if hasPunctuation c then Some ([], c, s)
      else map_option (\<lambda>(field, cond, rest). (c # field, cond, rest)) (operator_loop s))"

text \<open>The second loop: the value, and what is left. A backslash at the end makes it read past the
  string and append \<open>undefined\<close>.\<close>

fun value_loop :: "string \<Rightarrow> string \<times> string" where
  "value_loop [] = ([], [])"
| "value_loop (c # s) =
     (if c = CHR ''|'' then ([], s)
      else if c = CHR ''&'' then ([], c # s)
      else if c = CHR 0x5C then
        (case s of
           [] \<Rightarrow> (''undefined'', [])
         | d # t \<Rightarrow> (case value_loop t of (v, rest) \<Rightarrow> (d # v, rest)))
      else (case value_loop s of (v, rest) \<Rightarrow> (c # v, rest)))"

definition alternative_decode :: "string \<Rightarrow> (alternative \<times> string) result" where
  "alternative_decode encodedStr =
     (case operator_loop encodedStr of
        None \<Rightarrow> Inl (plain_error (encodedStr @ '' does not contain any operator''))
      | Some (field, cond, after) \<Rightarrow>
          (case value_loop after of
             (value, rest) \<Rightarrow>
               (case new_Alternative field (Some [cond]) value of
                  Inl x \<Rightarrow> Inl x
                | Inr a \<Rightarrow> Inr (a, rest))))"

text \<open>\<open>encodedStr.replace(/\s+/g, '')\<close>, and \<open>split\<close> at a captured punctuation character.\<close>

definition remove_whitespace :: "string \<Rightarrow> string" where
  "remove_whitespace s = filter (\<lambda>c. \<not> is_js_space c) s"

fun split_punctuation :: "string \<Rightarrow> string list" where
  "split_punctuation [] = [[]]"
| "split_punctuation (c # s) =
     (if hasPunctuation c then [] # [c] # split_punctuation s
      else case split_punctuation s of [] \<Rightarrow> [[c]] | p # ps \<Rightarrow> (c # p) # ps)"

definition alternative_from :: "string \<Rightarrow> alternative result" where
  "alternative_from encodedStr =
     (let parts = split_punctuation (remove_whitespace encodedStr) in
      new_Alternative (case js_nth parts 0 of None \<Rightarrow> [] | Some field \<Rightarrow> field) (js_nth parts 1)
        (case js_nth parts 2 of None \<Rightarrow> [] | Some value \<Rightarrow> value))"

section \<open>Restrictions\<close>

datatype restriction = Restriction (alternatives: "alternative list")

definition new_Restriction :: "alternative list \<Rightarrow> restriction result" where
  "new_Restriction as =
     (if as = [] then Inl (plain_error ''Restriction must have some alternatives'') else Inr (Restriction as))"

fun restriction_test_loop :: "alternative list \<Rightarrow> (string \<times> test_value) list \<Rightarrow> string list \<Rightarrow> string option result" where
  "restriction_test_loop [] values reasons = Inr (Some (join '' AND '' reasons))"
| "restriction_test_loop (a # as) values reasons =
     (case alternative_test a values of
        Inl x \<Rightarrow> Inl x
      | Inr None \<Rightarrow> Inr None
      | Inr (Some reason) \<Rightarrow> restriction_test_loop as values (reasons @ [reason]))"

definition restriction_test :: "restriction \<Rightarrow> (string \<times> test_value) list \<Rightarrow> string option result" where
  "restriction_test r values = restriction_test_loop (alternatives r) values []"

definition restriction_encode :: "restriction \<Rightarrow> string" where
  "restriction_encode r = join ''|'' (map alternative_encode (alternatives r))"

partial_function (option) restriction_loop ::
    "string \<Rightarrow> alternative list \<Rightarrow> (alternative list \<times> string) result option" where
  "restriction_loop encStr as =
     (if encStr = [] then Some (Inr (as, encStr))
      else if hd encStr = CHR ''&'' then Some (Inr (as, tl encStr))
      else
        case alternative_decode encStr of
          Inl x \<Rightarrow> Some (Inl x)
        | Inr (a, rest) \<Rightarrow> restriction_loop rest (as @ [a]))"

definition restriction_decode :: "string \<Rightarrow> (restriction \<times> string) result option" where
  "restriction_decode encodedStr =
     map_option (\<lambda>r. case r of
         Inl x \<Rightarrow> Inl x
       | Inr (as, rest) \<Rightarrow> (case new_Restriction as of Inl x \<Rightarrow> Inl x | Inr restr \<Rightarrow> Inr (restr, rest)))
       (restriction_loop encodedStr [])"

section \<open>Runes\<close>

datatype rune_like = RuneLike (restrictions: "restriction list")

fun rune_test_loop :: "restriction list \<Rightarrow> (string \<times> test_value) list \<Rightarrow> (bool \<times> string) result" where
  "rune_test_loop [] values = Inr (True, [])"
| "rune_test_loop (r # rs) values =
     (case restriction_test r values of
        Inl x \<Rightarrow> Inl x
      | Inr None \<Rightarrow> rune_test_loop rs values
      | Inr (Some reasons) \<Rightarrow> Inr (False, reasons))"

definition rune_test :: "rune_like \<Rightarrow> (string \<times> test_value) list \<Rightarrow> (bool \<times> string) result" where
  "rune_test r values = rune_test_loop (restrictions r) values"

definition rune_encode :: "rune_like \<Rightarrow> string" where
  "rune_encode r = join ''&'' (map restriction_encode (restrictions r))"

partial_function (option) rune_loop :: "string \<Rightarrow> restriction list \<Rightarrow> restriction list result option" where
  "rune_loop encStr rs =
     (if encStr = [] then Some (Inr rs)
      else
        Option.bind (restriction_decode encStr) (\<lambda>r.
          case r of
            Inl x \<Rightarrow> Some (Inl x)
          | Inr (restr, rest) \<Rightarrow> rune_loop rest (rs @ [restr])))"

definition rune_from :: "string \<Rightarrow> rune_like result option" where
  "rune_from encodedStr = map_option (map_sum id RuneLike) (rune_loop (remove_whitespace encodedStr) [])"

section \<open>The decoders return\<close>

lemma operator_loop_split:
  "operator_loop s = Some (f, c, r) \<Longrightarrow> s = f @ c # r \<and> list_all (\<lambda>c. \<not> hasPunctuation c) f \<and> hasPunctuation c"
  by (induction s arbitrary: f) (auto split: if_splits)

lemma value_loop_parts:
  "length (snd (value_loop s)) \<le> length s \<and> set (snd (value_loop s)) \<subseteq> set s \<and>
     set (fst (value_loop s)) \<subseteq> set s \<union> set ''undefined''"
proof (induction s rule: value_loop.induct)
  case (2 c s)
  show ?case
  proof (cases s)
    case (Cons d t)
    obtain v r v' r' where "value_loop s = (v, r)" "value_loop t = (v', r')" by fastforce
    with 2 Cons show ?thesis by (cases "c = CHR ''|''"; cases "c = CHR ''&''"; cases "c = CHR 0x5C") auto
  qed simp
qed simp

definition no_space :: "string \<Rightarrow> bool" where
  "no_space s \<longleftrightarrow> (\<forall>c \<in> set s. \<not> is_js_space c)"

lemma no_space_simps [simp]:
  "no_space []" "no_space (c # s) \<longleftrightarrow> \<not> is_js_space c \<and> no_space s"
  "no_space (s @ t) \<longleftrightarrow> no_space s \<and> no_space t"
  by (auto simp: no_space_def)

text \<open>What the constructor ensures, without white space.\<close>

definition alternative_ok :: "alternative \<Rightarrow> bool" where
  "alternative_ok a \<longleftrightarrow> list_all (\<lambda>c. \<not> hasPunctuation c) (alt_field a) \<and> alt_cond a \<in> set conditions \<and>
     no_space (alt_field a) \<and> no_space (alt_value a)"

definition restriction_ok :: "restriction \<Rightarrow> bool" where
  "restriction_ok r \<longleftrightarrow> alternatives r \<noteq> [] \<and> list_all alternative_ok (alternatives r)"

definition rune_ok :: "rune_like \<Rightarrow> bool" where
  "rune_ok r \<longleftrightarrow> list_all restriction_ok (restrictions r)"

lemma alternative_decode_result:
  assumes "alternative_decode s = Inr (a, rest)"
  shows "length rest < length s \<and> (no_space s \<longrightarrow> alternative_ok a \<and> no_space rest)"
proof -
  obtain f c t where op: "operator_loop s = Some (f, c, t)"
    using assms by (auto simp: alternative_decode_def split: option.splits)
  have s: "s = f @ c # t" "list_all (\<lambda>c. \<not> hasPunctuation c) f" using operator_loop_split [OF op] by auto
  obtain v r where v: "value_loop t = (v, r)" by force
  then have a: "new_Alternative f (Some [c]) v = Inr a" "rest = r"
    using assms op by (auto simp: alternative_decode_def split: sum.splits)
  have parts: "length r \<le> length t" "set r \<subseteq> set t" "set v \<subseteq> set t \<union> set ''undefined''"
    using value_loop_parts [of t] v by simp_all
  have "no_space v" if "no_space t"
    unfolding no_space_def
  proof
    fix x assume "x \<in> set v"
    then have "x \<in> set t \<or> x \<in> set ''undefined''" using parts(3) by blast
    then show "\<not> is_js_space x" using that by (auto simp: no_space_def is_js_space_def char_code_def)
  qed
  moreover have "no_space r" if "no_space t" using that parts(2) by (auto simp: no_space_def)
  ultimately show ?thesis
    using s a parts(1) by (auto simp: alternative_ok_def new_Alternative_def list_ex_iff list_all_iff split: if_splits)
qed

lemma restriction_loop_returns:
  "\<exists>r. restriction_loop s as = Some r \<and>
     (\<forall>as' rest. r = Inr (as', rest) \<longrightarrow> length rest \<le> length s \<and> (s \<noteq> [] \<longrightarrow> length rest < length s) \<and>
        (no_space s \<and> list_all alternative_ok as \<longrightarrow> no_space rest \<and> list_all alternative_ok as'))"
proof (induction "length s" arbitrary: s as rule: less_induct)
  case less
  consider "s = []" | "s \<noteq> []" "hd s = CHR ''&''"
    | x where "s \<noteq> []" "hd s \<noteq> CHR ''&''" "alternative_decode s = Inl x"
    | a rest where "s \<noteq> []" "hd s \<noteq> CHR ''&''" "alternative_decode s = Inr (a, rest)"
    by (cases "alternative_decode s") auto
  then show ?case
  proof cases
    case 2
    then have "restriction_loop s as = Some (Inr (as, tl s))" by (simp add: restriction_loop.simps [of s])
    then show ?thesis using 2 by (cases s) auto
  next
    case (4 a rest)
    note dec = alternative_decode_result [OF 4(3)]
    from less [OF dec [THEN conjunct1], of "as @ [a]"] obtain r where
      r: "restriction_loop rest (as @ [a]) = Some r" and
      ok: "\<forall>as' rest'. r = Inr (as', rest') \<longrightarrow> length rest' \<le> length rest \<and>
        (no_space rest \<and> list_all alternative_ok (as @ [a]) \<longrightarrow> no_space rest' \<and> list_all alternative_ok as')"
      by blast
    have "restriction_loop s as = Some r" using 4 r by (simp add: restriction_loop.simps [of s])
    then show ?thesis using ok dec by fastforce
  qed (auto simp: restriction_loop.simps [of s] restriction_loop.simps [of "[]"])
qed

lemma restriction_decode_returns:
  "\<exists>r. restriction_decode s = Some r \<and>
     (\<forall>restr rest. r = Inr (restr, rest) \<longrightarrow> (s \<noteq> [] \<longrightarrow> length rest < length s) \<and>
        (no_space s \<longrightarrow> no_space rest \<and> restriction_ok restr))"
proof -
  obtain r where "restriction_loop s [] = Some r"
    "\<forall>as' rest. r = Inr (as', rest) \<longrightarrow> (s \<noteq> [] \<longrightarrow> length rest < length s) \<and>
       (no_space s \<longrightarrow> no_space rest \<and> list_all alternative_ok as')"
    using restriction_loop_returns [of s "[]"] by auto
  then show ?thesis
    by (cases r) (auto simp: restriction_decode_def new_Restriction_def restriction_ok_def split: sum.splits if_splits)
qed

lemma rune_loop_returns:
  "\<exists>r. rune_loop s rs = Some r \<and>
     (\<forall>rs'. r = Inr rs' \<longrightarrow> no_space s \<and> list_all restriction_ok rs \<longrightarrow> list_all restriction_ok rs')"
proof (induction "length s" arbitrary: s rs rule: less_induct)
  case less
  show ?case
  proof (cases "s = []")
    case True
    then show ?thesis by (simp add: rune_loop.simps [of "[]"])
  next
    case False
    obtain r where r: "restriction_decode s = Some r"
      "\<forall>restr rest. r = Inr (restr, rest) \<longrightarrow> length rest < length s \<and>
         (no_space s \<longrightarrow> no_space rest \<and> restriction_ok restr)"
      using restriction_decode_returns [of s] False by auto
    show ?thesis
    proof (cases r)
      case (Inl x)
      then show ?thesis using r False by (simp add: rune_loop.simps [of s])
    next
      case (Inr p)
      obtain restr rest where p: "p = (restr, rest)" by force
      from less [of rest "rs @ [restr]"] r(2) Inr p obtain r' where
        "rune_loop rest (rs @ [restr]) = Some r'"
        "\<forall>rs'. r' = Inr rs' \<longrightarrow> no_space rest \<and> list_all restriction_ok (rs @ [restr]) \<longrightarrow> list_all restriction_ok rs'"
        by blast
      then show ?thesis using r False Inr p by (auto simp: rune_loop.simps [of s])
    qed
  qed
qed

lemma no_space_remove [simp]: "no_space (remove_whitespace s)"
  by (simp add: no_space_def remove_whitespace_def)

lemma rune_from_returns: "\<exists>r. rune_from s = Some r \<and> (\<forall>rune. r = Inr rune \<longrightarrow> rune_ok rune)"
proof -
  obtain r where "rune_loop (remove_whitespace s) [] = Some r"
      "\<forall>rs'. r = Inr rs' \<longrightarrow> list_all restriction_ok rs'"
    using rune_loop_returns [of "remove_whitespace s" "[]"] by auto
  then show ?thesis by (cases r) (auto simp: rune_from_def rune_ok_def)
qed

section \<open>Decoding what was encoded\<close>

lemma value_loop_escape:
  "value_loop (escape v @ t) = (case value_loop t of (v', rest) \<Rightarrow> (v @ v', rest))"
  by (induction v) (auto simp: escape_def split: prod.splits)

lemma operator_loop_encoded:
  "list_all (\<lambda>c. \<not> hasPunctuation c) f \<Longrightarrow> hasPunctuation c \<Longrightarrow> operator_loop (f @ c # r) = Some (f, c, r)"
  by (induction f) auto

lemma conditions_punctuation: "c \<in> set conditions \<Longrightarrow> hasPunctuation c \<and> c \<noteq> CHR ''&''"
  by (auto simp: conditions_def hasPunctuation_def char_code_def)

lemma alternative_decode_encoded:
  assumes a: "alternative_ok a" and t: "value_loop t = ([], rest)"
  shows "alternative_decode (alternative_encode a @ t) = Inr (a, rest)"
proof -
  have f: "list_all (\<lambda>c. \<not> hasPunctuation c) (alt_field a)" and c: "alt_cond a \<in> set conditions"
    using a by (simp_all add: alternative_ok_def)
  have "operator_loop (alternative_encode a @ t) = Some (alt_field a, alt_cond a, escape (alt_value a) @ t)"
    using operator_loop_encoded [OF f] conditions_punctuation [OF c] by (simp add: alternative_encode_def)
  moreover have "new_Alternative (alt_field a) (Some [alt_cond a]) (alt_value a) = Inr a"
    using f c by (simp add: new_Alternative_def list_ex_iff list_all_iff)
  ultimately show ?thesis by (simp add: alternative_decode_def value_loop_escape t)
qed

lemma alternative_encode_head:
  "alternative_ok a \<Longrightarrow> alternative_encode a @ t \<noteq> [] \<and> hd (alternative_encode a @ t) \<noteq> CHR ''&''"
  by (cases "alt_field a")
     (auto simp: alternative_encode_def alternative_ok_def dest: conditions_punctuation
       simp: hasPunctuation_def char_code_def)

lemma restriction_loop_encoded:
  assumes "list_all alternative_ok (a # as)" and "t = [] \<or> hd t = CHR ''&''"
  shows "restriction_loop (join ''|'' (map alternative_encode (a # as)) @ t) acc = Some (Inr (acc @ a # as, tl t))"
  using assms(1)
proof (induction as arbitrary: a acc)
  case Nil
  have "value_loop t = ([], t)" using assms(2) by (cases t) auto
  then have "alternative_decode (alternative_encode a @ t) = Inr (a, t)"
    using Nil alternative_decode_encoded by simp
  moreover have "restriction_loop t (acc @ [a]) = Some (Inr (acc @ [a], tl t))"
    using assms(2) by (subst restriction_loop.simps) auto
  ultimately show ?case
    using alternative_encode_head [of a t] Nil by (subst restriction_loop.simps) simp
next
  case (Cons b as)
  let ?u = "join ''|'' (map alternative_encode (b # as)) @ t"
  have "alternative_decode (alternative_encode a @ CHR ''|'' # ?u) = Inr (a, ?u)"
    using Cons.prems by (intro alternative_decode_encoded) auto
  moreover have "restriction_loop ?u (acc @ [a]) = Some (Inr ((acc @ [a]) @ b # as, tl t))"
    using Cons.prems by (intro Cons.IH) simp
  ultimately show ?case
    using alternative_encode_head [of a "CHR ''|'' # ?u"] Cons.prems
    by (subst restriction_loop.simps) simp
qed

lemma restriction_decode_encoded:
  assumes r: "restriction_ok r" and t: "t = [] \<or> hd t = CHR ''&''"
  shows "restriction_decode (restriction_encode r @ t) = Some (Inr (r, tl t))"
proof -
  obtain a as where as: "alternatives r = a # as" using r by (cases "alternatives r") (auto simp: restriction_ok_def)
  then have "restriction_loop (restriction_encode r @ t) [] = Some (Inr (a # as, tl t))"
    using restriction_loop_encoded [of a as t "[]"] r t by (simp add: restriction_encode_def restriction_ok_def)
  then show ?thesis using as by (cases r) (simp add: restriction_decode_def new_Restriction_def)
qed

lemma restriction_encode_nonempty: "restriction_ok r \<Longrightarrow> restriction_encode r \<noteq> []"
  by (cases "alternatives r" rule: list.exhaust [case_names Nil Cons])
     (auto simp: restriction_ok_def restriction_encode_def alternative_encode_def
       elim!: join.elims)

lemma rune_loop_encoded:
  "list_all restriction_ok (r # rs) \<Longrightarrow>
     rune_loop (join ''&'' (map restriction_encode (r # rs))) acc = Some (Inr (acc @ r # rs))"
proof (induction rs arbitrary: r acc)
  case Nil
  then show ?case
    using restriction_decode_encoded [of r "[]"] restriction_encode_nonempty [of r]
    by (subst rune_loop.simps) (simp add: rune_loop.simps [of "[]"])
next
  case (Cons q rs)
  let ?u = "join ''&'' (map restriction_encode (q # rs))"
  have "restriction_decode (restriction_encode r @ CHR ''&'' # ?u) = Some (Inr (r, ?u))"
    using restriction_decode_encoded [of r "CHR ''&'' # ?u"] Cons.prems by simp
  then show ?case using Cons.IH [of q "acc @ [r]"] Cons.prems by (subst rune_loop.simps) simp
qed

lemma join_chars: "set (join sep xs) \<subseteq> set sep \<union> \<Union> (set ` set xs)"
  by (induction sep xs rule: join.induct) auto

lemma no_space_join: "no_space sep \<Longrightarrow> \<forall>x \<in> set xs. no_space x \<Longrightarrow> no_space (join sep xs)"
  using join_chars [of sep xs] unfolding no_space_def by blast

lemma no_space_encode: "rune_ok r \<Longrightarrow> no_space (rune_encode r)"
proof -
  have "no_space (alternative_encode a)" if "alternative_ok a" for a
    using that
    by (auto simp: alternative_ok_def alternative_encode_def escape_def no_space_def conditions_def
        is_js_space_def char_code_def)
  then show "rune_ok r \<Longrightarrow> no_space (rune_encode r)"
    unfolding rune_encode_def restriction_encode_def
    by (auto intro!: no_space_join simp: rune_ok_def restriction_ok_def list_all_iff is_js_space_def char_code_def)
qed

lemma rune_from_encode: "rune_ok r \<Longrightarrow> rune_from (rune_encode r) = Some (Inr r)"
proof -
  assume r: "rune_ok r"
  have "remove_whitespace (rune_encode r) = rune_encode r"
    using no_space_encode [OF r] by (simp add: remove_whitespace_def no_space_def)
  moreover have "rune_loop (rune_encode r) [] = Some (Inr (restrictions r))"
  proof (cases "restrictions r")
    case Nil
    then show ?thesis by (simp add: rune_encode_def rune_loop.simps)
  next
    case (Cons q rs)
    then show ?thesis using rune_loop_encoded [of q rs "[]"] r by (simp add: rune_encode_def rune_ok_def)
  qed
  ultimately show ?thesis by (simp add: rune_from_def)
qed

section \<open>What a rune means\<close>

text \<open>An alternative holds when its test returns undefined.\<close>

definition holds :: "(string \<times> test_value) list \<Rightarrow> alternative \<Rightarrow> bool" where
  "holds values a \<longleftrightarrow> alternative_test a values = Inr None"

lemma restriction_test_iff:
  assumes "\<forall>a \<in> set (alternatives r). \<exists>v. alternative_test a values = Inr v"
  shows "(\<exists>v. restriction_test r values = Inr v) \<and>
    (restriction_test r values = Inr None \<longleftrightarrow> list_ex (holds values) (alternatives r))"
proof -
  have "(\<exists>v. restriction_test_loop as values reasons = Inr v) \<and>
      (restriction_test_loop as values reasons = Inr None \<longleftrightarrow> list_ex (holds values) as)"
    if "\<forall>a \<in> set as. \<exists>v. alternative_test a values = Inr v" for as reasons
    using that
  proof (induction as arbitrary: reasons)
    case (Cons a as)
    then obtain v where "alternative_test a values = Inr v" by auto
    then show ?case using Cons by (cases v) (auto simp: holds_def)
  qed simp
  from this [OF assms] show ?thesis by (simp add: restriction_test_def)
qed

lemma rune_test_iff:
  assumes "\<forall>r \<in> set (restrictions rune). \<forall>a \<in> set (alternatives r). \<exists>v. alternative_test a values = Inr v"
  shows "rune_test rune values = Inr (True, []) \<longleftrightarrow>
    list_all (\<lambda>r. list_ex (holds values) (alternatives r)) (restrictions rune)"
proof -
  have "rune_test_loop rs values = Inr (True, []) \<longleftrightarrow>
      list_all (\<lambda>r. list_ex (holds values) (alternatives r)) rs"
    if "\<forall>r \<in> set rs. \<forall>a \<in> set (alternatives r). \<exists>v. alternative_test a values = Inr v" for rs
    using that
  proof (induction rs)
    case (Cons r rs)
    then obtain v where "restriction_test r values = Inr v" using restriction_test_iff [of r "values"] by auto
    then show ?case using Cons restriction_test_iff [of r "values"] by (cases v) auto
  qed simp
  from this [OF assms] show ?thesis by (simp add: rune_test_def)
qed

section \<open>Properties\<close>

text \<open>
  C34. Decoding a rune always returns: whatever the string, \<open>RuneLike.from\<close> ends, with a rune or with
  an exception, and the runes it returns are well-formed - every restriction has an alternative,
  every field is free of punctuation, every condition is one of the eleven.
\<close>

theorem rune_decoding_returns:
  "(\<exists>r. rune_from s = Some r) \<and> (\<forall>rune. rune_from s = Some (Inr rune) \<longrightarrow> rune_ok rune)"
  using rune_from_returns [of s] by auto

text \<open>Two restrictions, of two and one alternatives; the values hold all the characters that are escaped.\<close>

definition sample_rune :: rune_like where
  "sample_rune = RuneLike
     [Restriction [\<lparr>alt_field = ''method'', alt_cond = CHR ''='', alt_value = ''a|b&c'' @ [CHR 0x5C]\<rparr>,
                   \<lparr>alt_field = ''rate'', alt_cond = CHR ''<'', alt_value = ''10''\<rparr>],
      Restriction [\<lparr>alt_field = [], alt_cond = CHR ''#'', alt_value = ''note''\<rparr>]]"

theorem rune_decoding_returns_witness: "rune_ok sample_rune"
proof -
  have "rune_from (rune_encode sample_rune) = Some (Inr sample_rune)"
    by (rule rune_from_encode)
       (simp add: sample_rune_def rune_ok_def restriction_ok_def alternative_ok_def hasPunctuation_def
         conditions_def is_js_space_def char_code_def)
  with rune_decoding_returns [of "rune_encode sample_rune"] show ?thesis by blast
qed



text \<open>A value that ends in a backslash reads past the end of the string; \<open>Alternative.from\<close> cuts a
  value at its first punctuation character.\<close>

lemma trailing_backslash:
  "alternative_decode (''a=1'' @ [CHR 0x5C]) = Inr (\<lparr>alt_field = ''a'', alt_cond = CHR ''='', alt_value = ''1undefined''\<rparr>, [])"
  by code_simp

lemma from_cuts_value:
  "alternative_from ''a=1.5'' = Inr \<lparr>alt_field = ''a'', alt_cond = CHR ''='', alt_value = ''1''\<rparr>"
  by code_simp

end
