(* ===== verification/Message_Schemas.thy ===== *)
theory Message_Schemas
  imports WebSocket_Adapter
begin

text \<open>
  \<open>src/schemas/\<close> and \<open>src/utils/validation.ts\<close>: what a message has to look like before a handler sees
  it. The schemas are built with the Joi package; here they are values of a data type with one
  constructor for each kind of schema the source builds, and Joi's \<open>attempt\<close> is a parameter of the
  model, of which \<open>conforms\<close> states the documented behaviour (with the configuration of
  \<open>validation.ts\<close>: nothing is converted, nothing is stripped). The decoded message is then read into
  the model's types.
\<close>

section \<open>JSON\<close>

text \<open>What \<open>JSON.parse\<close> returns. A number is an integer or not; keys of an object are distinct.\<close>

datatype json =
    JsonNull
  | JsonBool bool
  | JsonInt int
  | JsonFraction
  | JsonString string
  | JsonArray "json list"
  | JsonObject "(string \<times> json) list"

section \<open>Schemas\<close>

text \<open>\<open>.case('lower')\<close>, \<open>.hex()\<close>, \<open>.min(n)\<close>, \<open>.max(n)\<close>, \<open>.length(n)\<close> of strings; \<open>.min(n)\<close>,
  \<open>.multiple(n)\<close> and \<open>.custom(f)\<close> of numbers.\<close>

datatype string_rule = CaseLower | IsHex | MinChars nat | MaxChars nat | LengthIs nat

datatype number_rule = MinValue int | MultipleOf int | Custom "int \<Rightarrow> bool"

text \<open>
  \<open>SString allowed rules\<close> is \<open>string()\<close> with \<open>.allow(...)\<close>; \<open>SValid\<close> is \<open>.valid(...)\<close> or \<open>.equal(...)\<close>;
  \<open>SArray ordered items at_least_one longest\<close> has the schemas of the first positions, with
  \<open>.required()\<close> or not, the schema of the other elements (\<open>None\<close>: there are none), whether
  that one is \<open>.required()\<close>, and \<open>.max(n)\<close>; \<open>SObject\<close> has the keys, with \<open>.required()\<close> or not, and a
  \<open>.pattern\<close> for the other keys; \<open>SSwitch\<close> is \<open>alternatives().conditional(ref('.'), { switch })\<close>.
\<close>

datatype joi_schema =
    SAny
  | SString "string list" "string_rule list"
  | SValid "string list"
  | SNumber "number_rule list"
  | SArray "(bool \<times> joi_schema) list" "joi_schema option" bool "nat option"
  | SObject "(string \<times> bool \<times> joi_schema) list" "((string \<Rightarrow> bool) \<times> joi_schema) option"
  | SSwitch "(joi_schema \<times> joi_schema) list"

fun hex_digit_any :: "char \<Rightarrow> bool" where
  "hex_digit_any c \<longleftrightarrow> radix_digit c < 16"

definition is_upper :: "char \<Rightarrow> bool" where
  "is_upper c \<longleftrightarrow> (65 \<le> char_code c \<and> char_code c \<le> 90) \<or>
     (192 \<le> char_code c \<and> char_code c \<le> 222 \<and> char_code c \<noteq> 215)"

fun string_rule_ok :: "string \<Rightarrow> string_rule \<Rightarrow> bool" where
  "string_rule_ok s CaseLower = (\<not> list_ex is_upper s)"
| "string_rule_ok s IsHex = (s \<noteq> [] \<and> list_all hex_digit_any s)"
| "string_rule_ok s (MinChars n) = (n \<le> length s)"
| "string_rule_ok s (MaxChars n) = (length s \<le> n)"
| "string_rule_ok s (LengthIs n) = (length s = n)"

fun number_rule_ok :: "int \<Rightarrow> number_rule \<Rightarrow> bool" where
  "number_rule_ok x (MinValue n) = (n \<le> x)"
| "number_rule_ok x (MultipleOf n) = (x mod n = 0)"
| "number_rule_ok x (Custom f) = f x"

text \<open>
  The documented meaning of these constructors. A string is not empty unless it is allowed to be, a number
  is in the range of safe integers, and no key is unknown. A number that is no integer fails
  \<open>.multiple(1)\<close>, which every number schema of the source has.
\<close>

type_synonym check = "json \<Rightarrow> bool"

fun ordered_ok :: "(bool \<times> check) list \<Rightarrow> json list \<Rightarrow> bool" where
  "ordered_ok [] vs = True"
| "ordered_ok ((required, p) # ps) [] = (\<not> required \<and> ordered_ok ps [])"
| "ordered_ok ((required, p) # ps) (v # vs) = (p v \<and> ordered_ok ps vs)"

definition rest_ok :: "check option \<Rightarrow> json list \<Rightarrow> bool" where
  "rest_ok items vs = (case items of None \<Rightarrow> vs = [] | Some p \<Rightarrow> list_all p vs)"

definition array_ok :: "(bool \<times> check) list \<Rightarrow> check option \<Rightarrow> bool \<Rightarrow> nat option \<Rightarrow> check" where
  "array_ok ordered items at_least_one longest v =
     (case v of
        JsonArray vs \<Rightarrow>
          ordered_ok ordered vs \<and> rest_ok items (drop (length ordered) vs) \<and>
          (at_least_one \<longrightarrow> length ordered < length vs) \<and>
          (case longest of None \<Rightarrow> True | Some n \<Rightarrow> length vs \<le> n)
      | _ \<Rightarrow> False)"

definition key_ok :: "(string \<times> json) list \<Rightarrow> string \<times> bool \<times> check \<Rightarrow> bool" where
  "key_ok members k =
     (case k of (key, required, p) \<Rightarrow> (case map_of members key of None \<Rightarrow> \<not> required | Some v \<Rightarrow> p v))"

definition object_ok :: "(string \<times> bool \<times> check) list \<Rightarrow> ((string \<Rightarrow> bool) \<times> check) option \<Rightarrow> check" where
  "object_ok keys others v =
     (case v of
        JsonObject members \<Rightarrow>
          list_all (key_ok members) keys \<and>
          list_all (\<lambda>(k, x). k \<in> set (map fst keys) \<or>
            (case others of None \<Rightarrow> False | Some (pattern, p) \<Rightarrow> pattern k \<and> p x)) members
      | _ \<Rightarrow> False)"

fun switch_ok :: "(check \<times> check) list \<Rightarrow> check" where
  "switch_ok [] v = False"
| "switch_ok ((is_case, p) # cases) v = (if is_case v then p v else switch_ok cases v)"

primrec accepts :: "joi_schema \<Rightarrow> json \<Rightarrow> bool" where
  "accepts SAny = (\<lambda>v. True)"
| "accepts (SString allowed rules) = (\<lambda>v. case v of
     JsonString s \<Rightarrow> s \<in> set allowed \<or> (s \<noteq> [] \<and> list_all (string_rule_ok s) rules) | _ \<Rightarrow> False)"
| "accepts (SValid texts) = (\<lambda>v. case v of JsonString s \<Rightarrow> s \<in> set texts | _ \<Rightarrow> False)"
| "accepts (SNumber rules) = (\<lambda>v. case v of
     JsonInt x \<Rightarrow> \<bar>x\<bar> < 2 ^ 53 \<and> list_all (number_rule_ok x) rules | _ \<Rightarrow> False)"
| "accepts (SArray ordered items at_least_one longest) =
     array_ok (map (map_prod id accepts) ordered) (map_option accepts items) at_least_one longest"
| "accepts (SObject keys others) =
     object_ok (map (map_prod id (map_prod id accepts)) keys) (map_option (map_prod id accepts) others)"
| "accepts (SSwitch cases) = switch_ok (map (map_prod accepts accepts) cases)"

declare accepts.simps [simp del]

lemma accepts_string:
  "accepts (SString allowed rules) v \<longleftrightarrow>
     (\<exists>s. v = JsonString s \<and> (s \<in> set allowed \<or> (s \<noteq> [] \<and> list_all (string_rule_ok s) rules)))"
  by (cases v) (auto simp: accepts.simps)

lemma accepts_valid: "accepts (SValid texts) v \<longleftrightarrow> (\<exists>s. v = JsonString s \<and> s \<in> set texts)"
  by (cases v) (auto simp: accepts.simps)

lemma accepts_number:
  "accepts (SNumber rules) v \<longleftrightarrow> (\<exists>x. v = JsonInt x \<and> \<bar>x\<bar> < 2 ^ 53 \<and> list_all (number_rule_ok x) rules)"
  by (cases v) (auto simp: accepts.simps)

lemma accepts_elements:
  "accepts (SArray ordered items at_least_one longest) v \<longleftrightarrow>
     (\<exists>vs. v = JsonArray vs \<and> ordered_ok (map (map_prod id accepts) ordered) vs \<and>
        rest_ok (map_option accepts items) (drop (length ordered) vs) \<and>
        (at_least_one \<longrightarrow> length ordered < length vs) \<and> (case longest of None \<Rightarrow> True | Some n \<Rightarrow> length vs \<le> n))"
  by (cases v) (auto simp: accepts.simps array_ok_def)

lemma accepts_members:
  "accepts (SObject keys others) v \<longleftrightarrow>
     (\<exists>ms. v = JsonObject ms \<and> list_all (key_ok ms) (map (map_prod id (map_prod id accepts)) keys) \<and>
        list_all (\<lambda>(k, x). k \<in> set (map fst keys) \<or>
          (case others of None \<Rightarrow> False | Some (pattern, s) \<Rightarrow> pattern k \<and> accepts s x)) ms)"
  by (cases v) (auto simp: accepts.simps object_ok_def list_all_iff comp_def split: option.splits)

lemma accepts_cases:
  "accepts (SSwitch []) v = False"
  "accepts (SSwitch ((is_case, s) # cases)) v = (if accepts is_case v then accepts s v else accepts (SSwitch cases) v)"
  by (simp_all add: accepts.simps)

lemmas accepts_iffs = accepts_string accepts_valid accepts_number accepts_elements accepts_members

text \<open>\<open>attemptValidation(schema)\<close> is \<open>Joi.attempt(input, schema, config)\<close>.\<close>

type_synonym joi_attempt = "joi_schema \<Rightarrow> json \<Rightarrow> json result"

definition conforms :: "joi_attempt \<Rightarrow> bool" where
  "conforms attempt \<longleftrightarrow>
     (\<forall>s v. if accepts s v then attempt s v = Inr v else \<exists>m. attempt s v = Inl (Err ''ValidationError'' m))"

section \<open>The schemas of the relay\<close>

definition prefixSchema :: joi_schema where
  "prefixSchema = SString [] [CaseLower, IsHex, MinChars 4, MaxChars 64]"

definition idSchema :: joi_schema where
  "idSchema = SString [] [CaseLower, IsHex, LengthIs 64]"

definition pubkeySchema :: joi_schema where
  "pubkeySchema = SString [] [CaseLower, IsHex, LengthIs 64]"

definition kindSchema :: joi_schema where
  "kindSchema = SNumber [MinValue 0, MultipleOf 1]"

definition signatureSchema :: joi_schema where
  "signatureSchema = SString [] [CaseLower, IsHex, LengthIs 128]"

definition subscriptionSchema :: joi_schema where
  "subscriptionSchema = SString [] [MinChars 1]"

text \<open>\<open>Math.log10(value) < 10\<close>, for the numbers the schema has let through so far.\<close>

definition seconds :: "int \<Rightarrow> bool" where
  "seconds x \<longleftrightarrow> x < 10 ^ 10"

definition createdAtSchema :: joi_schema where
  "createdAtSchema = SNumber [MinValue 0, MultipleOf 1, Custom seconds]"

definition tagSchema :: joi_schema where
  "tagSchema = SArray [(True, SString [] [])] (Some (SString [[]] [])) False None"

definition eventSchema :: joi_schema where
  "eventSchema = SObject
     [(''id'', True, idSchema), (''pubkey'', True, pubkeySchema), (''created_at'', True, createdAtSchema),
      (''kind'', True, kindSchema), (''tags'', True, SArray [] (Some tagSchema) False None),
      (''content'', True, SString [[]] []), (''sig'', True, signatureSchema)] None"

definition tag_query_key :: "string \<Rightarrow> bool" where
  "tag_query_key k = (case k of [h, c] \<Rightarrow> h = CHR ''#'' \<and> 97 \<le> char_code c \<and> char_code c \<le> 122 | _ \<Rightarrow> False)"

definition filterSchema :: joi_schema where
  "filterSchema = SObject
     [(''ids'', False, SArray [] (Some prefixSchema) False None),
      (''authors'', False, SArray [] (Some prefixSchema) False None),
      (''kinds'', False, SArray [] (Some kindSchema) False None),
      (''since'', False, createdAtSchema), (''until'', False, createdAtSchema),
      (''limit'', False, SNumber [MinValue 0, MultipleOf 1])]
     (Some (tag_query_key, SArray [] (Some (SString [] [MaxChars 1024])) False None))"

definition eventMessageSchema :: joi_schema where
  "eventMessageSchema = SArray [(True, SValid [''EVENT'']), (True, eventSchema)] None False None"

definition authEventMessageSchema :: joi_schema where
  "authEventMessageSchema = SArray [(True, SValid [''AUTH'']), (True, eventSchema)] None False None"

definition reqMessageSchema :: joi_schema where
  "reqMessageSchema =
     SArray [(True, SValid [''REQ'']), (True, SString [] [MaxChars 256])] (Some filterSchema) True (Some 12)"

definition closeMessageSchema :: joi_schema where
  "closeMessageSchema = SArray [(True, SValid [''CLOSE'']), (True, subscriptionSchema)] None False None"

definition message_of_type :: "string \<Rightarrow> joi_schema" where
  "message_of_type type = SArray [(False, SValid [type])] (Some SAny) False None"

definition messageSchema :: joi_schema where
  "messageSchema = SSwitch
     [(message_of_type ''EVENT'', eventMessageSchema), (message_of_type ''REQ'', reqMessageSchema),
      (message_of_type ''CLOSE'', closeMessageSchema), (message_of_type ''AUTH'', authEventMessageSchema)]"

definition generateInvoiceSchema :: joi_schema where
  "generateInvoiceSchema = SObject [(''pubkey'', True, pubkeySchema), (''tosAccepted'', True, SValid [''yes''])] None"

section \<open>Messages\<close>

text \<open>
  The cast of a validated value to \<open>IncomingMessage\<close>, as a function into the model's types (\<open>None\<close>: the
  value has not the type).
\<close>

fun string_value :: "json \<Rightarrow> string option" where
  "string_value (JsonString s) = Some s"
| "string_value _ = None"

fun int_value :: "json \<Rightarrow> int option" where
  "int_value (JsonInt n) = Some n"
| "int_value _ = None"

fun array_value :: "(json \<Rightarrow> 'a option) \<Rightarrow> json \<Rightarrow> 'a list option" where
  "array_value f (JsonArray vs) = those (map f vs)"
| "array_value f _ = None"

definition member :: "(json \<Rightarrow> 'a option) \<Rightarrow> (string \<times> json) list \<Rightarrow> string \<Rightarrow> 'a option" where
  "member f members key = Option.bind (map_of members key) f"

text \<open>An optional key that is there must have a value of its type.\<close>

definition optional_member :: "(json \<Rightarrow> 'a option) \<Rightarrow> (string \<times> json) list \<Rightarrow> string \<Rightarrow> 'a option option" where
  "optional_member f members key =
     (case map_of members key of None \<Rightarrow> Some None | Some v \<Rightarrow> map_option Some (f v))"

definition event_of :: "json \<Rightarrow> nostr_event option" where
  "event_of v =
     (case v of
        JsonObject ms \<Rightarrow>
          (case (member string_value ms ''id'', member string_value ms ''pubkey'', member int_value ms ''created_at'',
                 member int_value ms ''kind'', member (array_value (array_value string_value)) ms ''tags'',
                 member string_value ms ''content'', member string_value ms ''sig'') of
             (Some i, Some pubkey, Some created_at, Some kind, Some tags, Some content, Some sig) \<Rightarrow>
               Some \<lparr>ev_id = i, ev_pubkey = pubkey, ev_created_at = created_at, ev_kind = kind, ev_tags = tags,
                 ev_sig = sig, ev_content = content, ev_context = None, ev_expiration = None, ev_dedup = None\<rparr>
           | _ \<Rightarrow> None)
      | _ \<Rightarrow> None)"

definition filter_keys :: "string list" where
  "filter_keys = [''ids'', ''authors'', ''kinds'', ''since'', ''until'', ''limit'']"

definition filter_of :: "json \<Rightarrow> subscription_filter option" where
  "filter_of v =
     (case v of
        JsonObject ms \<Rightarrow>
          (case (optional_member (array_value string_value) ms ''ids'', optional_member (array_value int_value) ms ''kinds'',
                 optional_member int_value ms ''since'', optional_member int_value ms ''until'',
                 optional_member (array_value string_value) ms ''authors'', optional_member int_value ms ''limit'') of
             (Some ids, Some kinds, Some since, Some until, Some authors, Some limit) \<Rightarrow>
               Some \<lparr>f_ids = ids, f_kinds = kinds, f_since = since, f_until = until, f_authors = authors,
                 f_limit = limit,
                 f_entries = map (\<lambda>(k, x). (k, array_value string_value x)) (filter (\<lambda>(k, x). k \<notin> set filter_keys) ms)\<rparr>
           | _ \<Rightarrow> None)
      | _ \<Rightarrow> None)"

definition incoming_of :: "json \<Rightarrow> incoming_body option" where
  "incoming_of v =
     (case v of
        JsonArray (JsonString type # args) \<Rightarrow>
          if type = ''EVENT'' then
            (case args of [e] \<Rightarrow> map_option InEvent (event_of e) | _ \<Rightarrow> None)
          else if type = ''AUTH'' then
            (case args of [e] \<Rightarrow> map_option InAuth (event_of e) | _ \<Rightarrow> None)
          else if type = ''REQ'' then
            (case args of
               JsonString sid # filters \<Rightarrow> map_option (InReq sid) (those (map filter_of filters))
             | _ \<Rightarrow> None)
          else if type = ''CLOSE'' then
            (case args of [JsonString sid] \<Rightarrow> Some (InClose sid) | _ \<Rightarrow> None)
          else None
      | _ \<Rightarrow> None)"

text \<open>\<open>attemptValidation(messageSchema)(JSON.parse(raw))\<close>; \<open>parse\<close> is \<open>JSON.parse\<close>.\<close>

definition decode_message :: "(string \<Rightarrow> json result) \<Rightarrow> joi_attempt \<Rightarrow> string \<Rightarrow> incoming_body result" where
  "decode_message parse attempt raw =
     (case parse raw of
        Inl x \<Rightarrow> Inl x
      | Inr v \<Rightarrow>
          (case attempt messageSchema v of
             Inl x \<Rightarrow> Inl x
           | Inr v' \<Rightarrow> (case incoming_of v' of None \<Rightarrow> Inr (InUnknown []) | Some body \<Rightarrow> Inr body)))"

definition validated_env ::
    "(string \<Rightarrow> json result) \<Rightarrow> joi_attempt \<Rightarrow> 'w relay_env \<Rightarrow> 'w relay_env" where
  "validated_env parse attempt env = env\<lparr>env_decode := decode_message parse attempt\<rparr>"

section \<open>Well-formed messages\<close>

definition prefix_ok :: "string \<Rightarrow> bool" where
  "prefix_ok s \<longleftrightarrow> 4 \<le> length s \<and> length s \<le> 64 \<and> list_all is_lower_hex_char s"

definition time_ok :: "int \<Rightarrow> bool" where
  "time_ok t \<longleftrightarrow> 0 \<le> t \<and> t < 10 ^ 10"

definition count_ok :: "int \<Rightarrow> bool" where
  "count_ok n \<longleftrightarrow> 0 \<le> n \<and> n < 2 ^ 53"

definition event_ok :: "nostr_event \<Rightarrow> bool" where
  "event_ok e \<longleftrightarrow> is_lower_hex 64 (ev_id e) \<and> is_lower_hex 64 (ev_pubkey e) \<and> is_lower_hex 128 (ev_sig e) \<and>
     time_ok (ev_created_at e) \<and> count_ok (ev_kind e) \<and>
     list_all (\<lambda>t. t \<noteq> [] \<and> hd t \<noteq> []) (ev_tags e) \<and>
     ev_context e = None \<and> ev_expiration e = None \<and> ev_dedup e = None"

definition entry_ok :: "string \<times> string list option \<Rightarrow> bool" where
  "entry_ok entry \<longleftrightarrow>
     (case entry of (k, texts) \<Rightarrow> tag_query_key k \<and>
        (case texts of None \<Rightarrow> False | Some ss \<Rightarrow> list_all (\<lambda>s. s \<noteq> [] \<and> length s \<le> 1024) ss))"

definition filter_ok :: "subscription_filter \<Rightarrow> bool" where
  "filter_ok f \<longleftrightarrow> pred_option (list_all prefix_ok) (f_ids f) \<and> pred_option (list_all prefix_ok) (f_authors f) \<and>
     pred_option (list_all count_ok) (f_kinds f) \<and> pred_option time_ok (f_since f) \<and>
     pred_option time_ok (f_until f) \<and> pred_option count_ok (f_limit f) \<and> list_all entry_ok (f_entries f)"

fun handler_ok :: "message_handler \<Rightarrow> bool" where
  "handler_ok (EventMessageHandler e) = event_ok e"
| "handler_ok (AuthEventMessageHandler e) = event_ok e"
| "handler_ok (SubscribeMessageHandler sid fs) =
     (sid \<noteq> [] \<and> length sid \<le> 256 \<and> fs \<noteq> [] \<and> length fs \<le> 10 \<and> list_all filter_ok fs)"
| "handler_ok (UnsubscribeMessageHandler sid) = (sid \<noteq> [])"

definition body_ok :: "incoming_body \<Rightarrow> bool" where
  "body_ok body \<longleftrightarrow> (\<exists>h. messageHandlerFactory body = Inr h \<and> handler_ok h)"

lemma body_ok_simps [simp]:
  "body_ok (InEvent e) = event_ok e" "body_ok (InAuth e) = event_ok e"
  "body_ok (InReq sid fs) = handler_ok (SubscribeMessageHandler sid fs)" "body_ok (InClose sid) = (sid \<noteq> [])"
  "\<not> body_ok (InUnknown type)"
  by (simp_all add: body_ok_def)

section \<open>What the schemas accept\<close>

lemma lower_hex_char: "is_lower_hex_char c \<longleftrightarrow> hex_digit_any c \<and> \<not> is_upper c"
  by (auto simp: is_lower_hex_char_def is_upper_def radix_digit_def Let_def)

lemma accepts_hex:
  "accepts (SString [] (CaseLower # IsHex # rules)) v \<longleftrightarrow>
     (\<exists>s. v = JsonString s \<and> s \<noteq> [] \<and> list_all is_lower_hex_char s \<and> list_all (string_rule_ok s) rules)"
  by (auto simp: accepts_string lower_hex_char list_ex_iff list_all_iff)

lemma accepts_array:
  "accepts (SArray [] (Some s) False None) v \<longleftrightarrow> (\<exists>vs. v = JsonArray vs \<and> list_all (accepts s) vs)"
  by (auto simp: accepts_elements rest_ok_def)

lemma those_map:
  assumes "list_all p vs" and "\<forall>v. p v \<longrightarrow> (\<exists>x. f v = Some x \<and> q x)"
  shows "\<exists>xs. those (map f vs) = Some xs \<and> list_all q xs \<and> length xs = length vs"
  using assms(1)
proof (induction vs)
  case (Cons v vs)
  then show ?case using assms(2) by fastforce
qed simp

text \<open>Every value a schema accepts is read by \<open>f\<close> as one with the property \<open>q\<close>.\<close>

definition reads :: "joi_schema \<Rightarrow> (json \<Rightarrow> 'a option) \<Rightarrow> ('a \<Rightarrow> bool) \<Rightarrow> bool" where
  "reads s f q \<longleftrightarrow> (\<forall>v. accepts s v \<longrightarrow> (\<exists>x. f v = Some x \<and> q x))"

lemma readsD: "reads s f q \<Longrightarrow> accepts s v \<Longrightarrow> \<exists>x. f v = Some x \<and> q x"
  by (simp add: reads_def)

lemma reads_array: "reads s f q \<Longrightarrow> reads (SArray [] (Some s) False None) (array_value f) (list_all q)"
  using those_map [of "accepts s" _ f q] by (fastforce simp: reads_def accepts_array)

lemma reads_strings:
  "reads idSchema string_value (is_lower_hex 64)" "reads pubkeySchema string_value (is_lower_hex 64)"
  "reads signatureSchema string_value (is_lower_hex 128)" "reads prefixSchema string_value prefix_ok"
  by (auto simp: reads_def idSchema_def pubkeySchema_def signatureSchema_def prefixSchema_def accepts_hex
      is_lower_hex_def prefix_ok_def)

lemma reads_text: "reads (SString [[]] []) string_value (\<lambda>_. True)"
  by (auto simp: reads_def accepts_string)

lemma reads_tag_query: "reads (SString [] [MaxChars 1024]) string_value (\<lambda>s. s \<noteq> [] \<and> length s \<le> 1024)"
  by (auto simp: reads_def accepts_string)

lemma reads_count: "reads (SNumber [MinValue 0, MultipleOf 1]) int_value count_ok"
  by (auto simp: reads_def accepts_number count_ok_def)

lemma reads_kind: "reads kindSchema int_value count_ok"
  unfolding kindSchema_def by (rule reads_count)

lemma reads_time: "reads createdAtSchema int_value time_ok"
  by (auto simp: reads_def accepts_number createdAtSchema_def time_ok_def seconds_def)

lemma reads_tag: "reads tagSchema (array_value string_value) (\<lambda>t. t \<noteq> [] \<and> hd t \<noteq> [])"
  unfolding reads_def
proof (intro allI impI)
  fix v assume "accepts tagSchema v"
  then obtain vs where vs: "v = JsonArray vs" "ordered_ok [(True, accepts (SString [] []))] vs"
      "list_all (accepts (SString [[]] [])) (drop 1 vs)"
    by (auto simp: tagSchema_def accepts_elements rest_ok_def)
  then obtain x xs where xs: "vs = x # xs" "accepts (SString [] []) x" by (cases vs) auto
  then obtain s where s: "x = JsonString s" "s \<noteq> []" by (auto simp: accepts_string)
  obtain ts where "those (map string_value xs) = Some ts"
    using those_map [of "accepts (SString [[]] [])" xs string_value "\<lambda>_. True"] vs(3) xs(1) reads_text
    by (auto simp: reads_def)
  then show "\<exists>t. array_value string_value v = Some t \<and> t \<noteq> [] \<and> hd t \<noteq> []" using vs xs s by simp
qed

lemma member_required:
  assumes "key_ok ms (key, True, accepts s)" and "reads s f q"
  shows "\<exists>x. member f ms key = Some x \<and> q x"
  using assms by (auto simp: reads_def key_ok_def member_def split: option.splits)

lemma member_optional:
  assumes "key_ok ms (key, False, accepts s)" and "reads s f q"
  shows "\<exists>x. optional_member f ms key = Some x \<and> pred_option q x"
  using assms by (fastforce simp: reads_def key_ok_def optional_member_def split: option.splits)

lemma reads_event: "reads eventSchema event_of event_ok"
  unfolding reads_def
proof (intro allI impI)
  fix v assume acc: "accepts eventSchema v"
  obtain ms where v: "v = JsonObject ms" and
    keys: "key_ok ms (''id'', True, accepts idSchema)" "key_ok ms (''pubkey'', True, accepts pubkeySchema)"
      "key_ok ms (''created_at'', True, accepts createdAtSchema)" "key_ok ms (''kind'', True, accepts kindSchema)"
      "key_ok ms (''tags'', True, accepts (SArray [] (Some tagSchema) False None))"
      "key_ok ms (''content'', True, accepts (SString [[]] []))" "key_ok ms (''sig'', True, accepts signatureSchema)"
    using acc by (auto simp: eventSchema_def accepts_members)
  obtain i where i: "member string_value ms ''id'' = Some i" "is_lower_hex 64 i"
    using member_required [OF keys(1) reads_strings(1)] by blast
  obtain pubkey where pubkey: "member string_value ms ''pubkey'' = Some pubkey" "is_lower_hex 64 pubkey"
    using member_required [OF keys(2) reads_strings(2)] by blast
  obtain t where t: "member int_value ms ''created_at'' = Some t" "time_ok t"
    using member_required [OF keys(3) reads_time] by blast
  obtain kind where kind: "member int_value ms ''kind'' = Some kind" "count_ok kind"
    using member_required [OF keys(4) reads_kind] by blast
  obtain tags where tags: "member (array_value (array_value string_value)) ms ''tags'' = Some tags"
      "list_all (\<lambda>t. t \<noteq> [] \<and> hd t \<noteq> []) tags"
    using member_required [OF keys(5) reads_array [OF reads_tag]] by blast
  obtain content where content: "member string_value ms ''content'' = Some content"
    using member_required [OF keys(6) reads_text] by blast
  obtain sg where sg: "member string_value ms ''sig'' = Some sg" "is_lower_hex 128 sg"
    using member_required [OF keys(7) reads_strings(3)] by blast
  show "\<exists>e. event_of v = Some e \<and> event_ok e" using v i pubkey t kind tags content sg by (simp add: event_of_def event_ok_def)
qed

lemma reads_filter: "reads filterSchema filter_of filter_ok"
  unfolding reads_def
proof (intro allI impI)
  fix v assume acc: "accepts filterSchema v"
  let ?entries = "accepts (SArray [] (Some (SString [] [MaxChars 1024])) False None)"
  obtain ms where v: "v = JsonObject ms" and
    keys: "key_ok ms (''ids'', False, accepts (SArray [] (Some prefixSchema) False None))"
      "key_ok ms (''authors'', False, accepts (SArray [] (Some prefixSchema) False None))"
      "key_ok ms (''kinds'', False, accepts (SArray [] (Some kindSchema) False None))"
      "key_ok ms (''since'', False, accepts createdAtSchema)" "key_ok ms (''until'', False, accepts createdAtSchema)"
      "key_ok ms (''limit'', False, accepts (SNumber [MinValue 0, MultipleOf 1]))" and
    others: "list_all (\<lambda>(k, x). k \<in> set filter_keys \<or> tag_query_key k \<and> ?entries x) ms"
    using acc by (auto simp: filterSchema_def accepts_members filter_keys_def)
  let ?es = "map (\<lambda>(k, x). (k, array_value string_value x)) (filter (\<lambda>(k, x). k \<notin> set filter_keys) ms)"
  have "entry_ok entry" if entry: "entry \<in> set ?es" for entry
  proof -
    obtain k x where x: "(k, x) \<in> set ms" "k \<notin> set filter_keys" "entry = (k, array_value string_value x)"
      using entry by auto
    then have "tag_query_key k" "?entries x" using others by (auto simp: list_all_iff)
    then show ?thesis using readsD [OF reads_array [OF reads_tag_query], of x] x(3) by (auto simp: entry_ok_def)
  qed
  then have entries: "list_all entry_ok ?es" by (simp add: list_all_iff)
  obtain ids where ids: "optional_member (array_value string_value) ms ''ids'' = Some ids"
      "pred_option (list_all prefix_ok) ids"
    using member_optional [OF keys(1) reads_array [OF reads_strings(4)]] by blast
  obtain authors where authors: "optional_member (array_value string_value) ms ''authors'' = Some authors"
      "pred_option (list_all prefix_ok) authors"
    using member_optional [OF keys(2) reads_array [OF reads_strings(4)]] by blast
  obtain kinds where kinds: "optional_member (array_value int_value) ms ''kinds'' = Some kinds"
      "pred_option (list_all count_ok) kinds"
    using member_optional [OF keys(3) reads_array [OF reads_kind]] by blast
  obtain since where since: "optional_member int_value ms ''since'' = Some since" "pred_option time_ok since"
    using member_optional [OF keys(4) reads_time] by blast
  obtain until where until: "optional_member int_value ms ''until'' = Some until" "pred_option time_ok until"
    using member_optional [OF keys(5) reads_time] by blast
  obtain limit where limit: "optional_member int_value ms ''limit'' = Some limit" "pred_option count_ok limit"
    using member_optional [OF keys(6) reads_count] by blast
  show "\<exists>f. filter_of v = Some f \<and> filter_ok f" using v ids authors kinds since until limit entries by (simp add: filter_of_def filter_ok_def)
qed

lemma accepts_pair:
  assumes "accepts (SArray [(True, s), (True, t)] None False None) v"
  shows "\<exists>a b. v = JsonArray [a, b] \<and> accepts s a \<and> accepts t b"
proof -
  obtain vs where vs: "v = JsonArray vs" "ordered_ok [(True, accepts s), (True, accepts t)] vs" "drop 2 vs = []"
    using assms by (auto simp: accepts_elements rest_ok_def numeral_2_eq_2)
  then show ?thesis by (cases vs; cases "tl vs") auto
qed

lemma accepts_req:
  assumes "accepts reqMessageSchema v"
  shows "\<exists>sid us. v = JsonArray (JsonString ''REQ'' # JsonString sid # us) \<and> sid \<noteq> [] \<and> length sid \<le> 256 \<and>
    us \<noteq> [] \<and> length us \<le> 10 \<and> list_all (accepts filterSchema) us"
proof -
  obtain vs where vs: "v = JsonArray vs"
      "ordered_ok [(True, accepts (SValid [''REQ''])), (True, accepts (SString [] [MaxChars 256]))] vs"
      "list_all (accepts filterSchema) (drop 2 vs)" "2 < length vs" "length vs \<le> 12"
    using assms by (auto simp: reqMessageSchema_def accepts_elements rest_ok_def numeral_2_eq_2)
  then obtain a b us where "vs = a # b # us" by (cases vs; cases "tl vs") auto
  with vs show ?thesis by (auto simp: accepts_string accepts_valid)
qed

lemma accepts_message:
  assumes "accepts messageSchema v"
  shows "\<exists>body. incoming_of v = Some body \<and> body_ok body"
proof -
  consider "accepts eventMessageSchema v" | "accepts reqMessageSchema v" | "accepts closeMessageSchema v"
    | "accepts authEventMessageSchema v"
    using assms by (auto simp: messageSchema_def accepts_cases split: if_splits)
  then show ?thesis
  proof cases
    case 1
    then obtain a b where ab: "v = JsonArray [a, b]" "accepts (SValid [''EVENT'']) a" "accepts eventSchema b"
      unfolding eventMessageSchema_def using accepts_pair by blast
    then show ?thesis using readsD [OF reads_event ab(3)] by (auto simp: incoming_of_def accepts_valid)
  next
    case 2
    from accepts_req [OF this] obtain sid us where
      v: "v = JsonArray (JsonString ''REQ'' # JsonString sid # us)" "sid \<noteq> []" "length sid \<le> 256" "us \<noteq> []"
        "length us \<le> 10" "list_all (accepts filterSchema) us" by blast
    obtain fs where "those (map filter_of us) = Some fs" "list_all filter_ok fs" "length fs = length us"
      using those_map [OF v(6) reads_filter [unfolded reads_def]] by blast
    moreover have "fs \<noteq> []" using calculation(3) v(4) by auto
    ultimately show ?thesis using v by (simp add: incoming_of_def)
  next
    case 3
    then obtain a b where ab: "v = JsonArray [a, b]" "accepts (SValid [''CLOSE'']) a" "accepts subscriptionSchema b"
      unfolding closeMessageSchema_def using accepts_pair by blast
    then show ?thesis by (auto simp: incoming_of_def accepts_valid subscriptionSchema_def accepts_string)
  next
    case 4
    then obtain a b where ab: "v = JsonArray [a, b]" "accepts (SValid [''AUTH'']) a" "accepts eventSchema b"
      unfolding authEventMessageSchema_def using accepts_pair by blast
    then show ?thesis using readsD [OF reads_event ab(3)] by (auto simp: incoming_of_def accepts_valid)
  qed
qed

section \<open>Connections\<close>

lemma decode_message_ok:
  assumes "conforms attempt" and "decode_message parse attempt raw = Inr body"
  shows "body_ok body"
proof -
  obtain v where v: "parse raw = Inr v" using assms(2) by (auto simp: decode_message_def split: sum.splits)
  show ?thesis
  proof (cases "accepts messageSchema v")
    case True
    then have "attempt messageSchema v = Inr v" using assms(1) by (simp add: conforms_def)
    with accepts_message [OF True] v assms(2) show ?thesis by (auto simp: decode_message_def)
  next
    case False
    then obtain m where "attempt messageSchema v = Inl (Err ''ValidationError'' m)"
      using assms(1) unfolding conforms_def by metis
    then show ?thesis using v assms(2) by (simp add: decode_message_def)
  qed
qed

lemma dispatch_handler:
  "dispatch env st raw a w = (Some h, effs, a', w') \<Longrightarrow>
     \<exists>body. env_decode env raw = Inr body \<and> messageHandlerFactory body = Inr h"
  by (auto simp: dispatch_def Let_def split: sum.splits bool.splits prod.splits)

lemma pending_step:
  assumes "connection_step (validated_env parse attempt env) st c c'" and "conforms attempt"
    and "list_all handler_ok (cx_pending c)"
  shows "list_all handler_ok (cx_pending c')"
  using assms
proof (induction rule: connection_step.induct)
  case (dispatched raw c h effs a w)
  have "handler_ok h'" if some: "h = Some h'" for h'
  proof -
    obtain body where body: "env_decode (validated_env parse attempt env) raw = Inr body"
        "messageHandlerFactory body = Inr h'"
      using dispatch_handler [of "validated_env parse attempt env" st raw "cx_adapter c" "cx_world c" h' effs a w]
        dispatched.hyps some by auto
    then have "body_ok body" using decode_message_ok [OF dispatched.prems(1)] by (simp add: validated_env_def)
    then show ?thesis using body(2) by (simp add: body_ok_def)
  qed
  then show ?case using dispatched.prems by (cases h) auto
qed simp_all

lemma pending_run:
  "connection_run (validated_env parse attempt env) st c c' \<Longrightarrow> conforms attempt \<Longrightarrow>
     list_all handler_ok (cx_pending c) \<Longrightarrow> list_all handler_ok (cx_pending c')"
  by (induction rule: connection_run.induct) (auto intro: pending_step)

section \<open>Properties\<close>

text \<open>The documented behaviour itself as Joi, and a client that sends one note.\<close>

definition documented_joi :: joi_attempt where
  "documented_joi s v = (if accepts s v then Inr v else Inl (Err ''ValidationError'' ''invalid''))"

definition signed_note :: nostr_event where
  "signed_note = note_event\<lparr>ev_sig := replicate 128 (CHR ''c''), ev_tags := [[''t'', ''nostr'']]\<rparr>"

definition note_json :: json where
  "note_json = JsonArray [JsonString ''EVENT'', JsonObject
     [(''id'', JsonString (ev_id signed_note)), (''pubkey'', JsonString (ev_pubkey signed_note)),
      (''created_at'', JsonInt (ev_created_at signed_note)), (''kind'', JsonInt (ev_kind signed_note)),
      (''tags'', JsonArray (map (\<lambda>t. JsonArray (map JsonString t)) (ev_tags signed_note))),
      (''content'', JsonString (ev_content signed_note)), (''sig'', JsonString (ev_sig signed_note))]]"

definition note_env :: "relay_world relay_env" where
  "note_env = validated_env (\<lambda>_. Inr note_json) documented_joi test_env"

definition note_connection :: "relay_world connection" where
  "note_connection = do_dispatch note_env open_settings ''note'' (new_connection ''::1'' fresh_world)"

lemma documented_joi_conforms: "conforms documented_joi"
  by (simp add: conforms_def documented_joi_def)

text \<open>
  C33. Handlers only ever see well-formed messages: when the validation package behaves as documented,
  every message waiting to be handled on a connection, at any moment, is an event with a
  64-digit lower-case id and author, a 128-digit signature, a time below ten billion seconds, a kind
  that is a safe natural number and no empty tag; or a subscription under an id of 1 to 256
  characters with 1 to 10 filters, whose prefixes have 4 to 64 lower-case hexadecimal digits,
  whose numbers are in range and whose other keys are a hash and a lower-case letter; or the
  closing of a subscription with a non-empty id. No message of an unknown type gets that far.
\<close>

theorem handled_messages_well_formed:
  assumes "conforms attempt"
    and "connection_run (validated_env parse attempt env) st (new_connection address w) c"
    and "h \<in> set (cx_pending c)"
  shows "handler_ok h"
  using pending_run [OF assms(2,1)] assms(3) by (simp add: new_connection_def list_all_iff)

theorem handled_messages_well_formed_witness:
  "event_ok signed_note \<and> cx_pending note_connection = [EventMessageHandler signed_note]"
proof -
  have pending: "cx_pending note_connection = [EventMessageHandler signed_note]" by code_simp
  have "connection_run note_env open_settings (new_connection ''::1'' fresh_world) note_connection"
    unfolding note_connection_def by (intro do_dispatch_run connection_run.start)
  from handled_messages_well_formed [OF documented_joi_conforms this [unfolded note_env_def], of "EventMessageHandler signed_note"]
  show ?thesis using pending by simp
qed

end
