(* ===== verification/Settings_Files.thy ===== *)
theory Settings_Files
  imports Prelude
begin

text \<open>
  \<open>src/utils/settings.ts\<close>: the settings object, read from the default file and the operator's file, merged,
  and kept in the static field \<open>_settings\<close>. The file system, the YAML package and Ramda's
  \<open>mergeDeepRight\<close> are parameters (\<open>config_files\<close>) over a world \<open>'w\<close> and the values \<open>'c\<close> the files
  hold; every operation of the file system may throw.
\<close>

section \<open>The environment\<close>

record ('w, 'c) config_files =
  cf_config_dir :: "string option"
  cf_join :: "string \<Rightarrow> string \<Rightarrow> string"
  cf_cwd :: string
  cf_exists :: "string \<Rightarrow> 'w \<Rightarrow> bool"
  cf_mkdir :: "string \<Rightarrow> ('w, unit) task"
  cf_readdir :: "string \<Rightarrow> ('w, string list) task"
  cf_load_yaml :: "string \<Rightarrow> ('w, 'c) task"
  cf_load_json :: "string \<Rightarrow> ('w, 'c) task"
  cf_write_yaml :: "string \<Rightarrow> 'c \<Rightarrow> ('w, unit) task"
  cf_merge :: "'c \<Rightarrow> 'c \<Rightarrow> 'c"
  cf_empty :: 'c

definition getSettingsFileBasePath :: "('w, 'c) config_files \<Rightarrow> string" where
  "getSettingsFileBasePath cf =
     (case cf_config_dir cf of Some dir \<Rightarrow> dir | None \<Rightarrow> cf_join cf (cf_cwd cf) ''.nostr'')"

definition getDefaultSettingsFilePath :: "('w, 'c) config_files \<Rightarrow> string" where
  "getDefaultSettingsFilePath cf = cf_join cf (cf_join cf (cf_cwd cf) ''resources'') ''default-settings.yaml''"

section \<open>Choosing the file\<close>

datatype file_type = Yaml | Json

fun file_type_name :: "file_type \<Rightarrow> string" where
  "file_type_name Yaml = ''yaml''"
| "file_type_name Json = ''json''"

text \<open>\<open>extname(fn).substring(1)\<close> of a name that does not start with a dot.\<close>

definition extension :: "string \<Rightarrow> string" where
  "extension name =
     (if CHR ''.'' \<in> set name then rev (takeWhile (\<lambda>c. c \<noteq> CHR ''.'') (rev name)) else [])"

definition file_type_of :: "string \<Rightarrow> file_type option" where
  "file_type_of ext = (if ext = ''yaml'' then Some Yaml else if ext = ''json'' then Some Json else None)"

text \<open>The declared result may be undefined; the last line makes it \<open>yaml\<close>.\<close>

definition settingsFileType :: "('w, 'c) config_files \<Rightarrow> string \<Rightarrow> ('w, file_type option) task" where
  "settingsFileType cf path =
     await (cf_readdir cf path) (\<lambda>files.
       returning
         (case List.find (\<lambda>fn. prefix ''settings'' fn) files of
            None \<Rightarrow> Some Yaml
          | Some fn \<Rightarrow> (case file_type_of (extension fn) of Some t \<Rightarrow> Some t | None \<Rightarrow> Some Yaml)))"

fun loadSettings :: "('w, 'c) config_files \<Rightarrow> string \<Rightarrow> file_type \<Rightarrow> ('w, 'c) task" where
  "loadSettings cf path Json = cf_load_json cf path"
| "loadSettings cf path Yaml = cf_load_yaml cf path"

definition saveSettings :: "('w, 'c) config_files \<Rightarrow> string \<Rightarrow> 'c \<Rightarrow> ('w, unit) task" where
  "saveSettings cf path settings = cf_write_yaml cf (cf_join cf path ''settings.yaml'') settings"

section \<open>createSettings\<close>

definition settings_file :: "('w, 'c) config_files \<Rightarrow> file_type option \<Rightarrow> string" where
  "settings_file cf fileType =
     cf_join cf (getSettingsFileBasePath cf)
       (''settings.'' @ (case fileType of None \<Rightarrow> ''undefined'' | Some t \<Rightarrow> file_type_name t))"

text \<open>The body of the \<open>try\<close>.\<close>

definition merged_settings ::
    "('w, 'c) config_files \<Rightarrow> file_type option \<Rightarrow> 'c \<Rightarrow> ('w, 'c) task" where
  "merged_settings cf fileType defaults =
     (case fileType of
        Some t \<Rightarrow>
          await (loadSettings cf (settings_file cf fileType) t) (\<lambda>user. returning (cf_merge cf defaults user))
      | None \<Rightarrow>
          await (saveSettings cf (getSettingsFileBasePath cf) defaults)
            (\<lambda>_. returning (cf_merge cf (cf_empty cf) defaults)))"

text \<open>The second component of the result is the static field afterwards; an exception of the \<open>try\<close>
  leaves it undefined.\<close>

definition createSettings :: "('w, 'c) config_files \<Rightarrow> 'c option \<Rightarrow> ('w, 'c \<times> 'c option) task" where
  "createSettings cf cache =
     (case cache of
        Some s \<Rightarrow> returning (s, cache)
      | None \<Rightarrow>
          await (\<lambda>w. if cf_exists cf (getSettingsFileBasePath cf) w then returning () w
                     else cf_mkdir cf (getSettingsFileBasePath cf) w) (\<lambda>_.
          await (settingsFileType cf (getSettingsFileBasePath cf)) (\<lambda>fileType.
          await (loadSettings cf (getDefaultSettingsFilePath cf) Yaml) (\<lambda>defaults.
          catching
            (await (merged_settings cf fileType defaults) (\<lambda>s. returning (s, Some s)))
            (\<lambda>_. returning (defaults, None))))))"

text \<open>What the watchers of both files do.\<close>

definition reload :: "('w, 'c) config_files \<Rightarrow> 'c option \<Rightarrow> ('w, 'c \<times> 'c option) task" where
  "reload cf cache = createSettings cf None"

section \<open>Lemmas\<close>

lemma settingsFileType_Some:
  "settingsFileType cf path w = (Inr t, w') \<Longrightarrow> \<exists>x. t = Some x"
  by (auto simp: settingsFileType_def await_Inr split: option.splits)

lemma base_path_write [simp]:
  "getSettingsFileBasePath (cf\<lparr>cf_write_yaml := f\<rparr>) = getSettingsFileBasePath cf"
  "getDefaultSettingsFilePath (cf\<lparr>cf_write_yaml := f\<rparr>) = getDefaultSettingsFilePath cf"
  by (simp_all add: getSettingsFileBasePath_def getDefaultSettingsFilePath_def split: option.split)

lemma file_type_write [simp]: "settingsFileType (cf\<lparr>cf_write_yaml := f\<rparr>) path = settingsFileType cf path"
  by (simp add: settingsFileType_def)

lemma settings_file_write [simp]: "settings_file (cf\<lparr>cf_write_yaml := f\<rparr>) t = settings_file cf t"
  by (simp add: settings_file_def)

lemma loadSettings_write [simp]: "loadSettings (cf\<lparr>cf_write_yaml := f\<rparr>) path t = loadSettings cf path t"
  by (cases t) simp_all

lemmas write_unused = base_path_write file_type_write settings_file_write loadSettings_write

lemma merged_settings_write [simp]:
  "merged_settings (cf\<lparr>cf_write_yaml := f\<rparr>) (Some t) d = merged_settings cf (Some t) d"
  by (simp add: merged_settings_def)

lemma await_cong: "m w = m' w \<Longrightarrow> (\<And>a w1. m w = (Inr a, w1) \<Longrightarrow> f a w1 = g a w1) \<Longrightarrow> await m f w = await m' g w"
  by (auto simp: await_def split: prod.splits sum.splits)

lemma catching_cong: "m w = m' w \<Longrightarrow> catching m h w = catching m' h w"
  by (simp add: catching_def)

lemma createSettings_write: "createSettings (cf\<lparr>cf_write_yaml := f\<rparr>) None w = createSettings cf None w"
  unfolding createSettings_def option.case write_unused
  by (rule await_cong, simp, rule await_cong, rule refl, rule await_cong, simp, rule catching_cong, rule await_cong)
     (auto dest: settingsFileType_Some)

lemma merged_settings_outcome:
  "catching (await (merged_settings cf (Some t) d) (\<lambda>s. returning (s, Some s))) (\<lambda>_. returning (d, None)) w =
     (case loadSettings cf (settings_file cf (Some t)) t w of
        (Inr u, w') \<Rightarrow> (Inr (cf_merge cf d u, Some (cf_merge cf d u)), w')
      | (Inl _, w') \<Rightarrow> (Inr (d, None), w'))"
  by (auto simp: catching_def merged_settings_def await_def split: prod.splits sum.splits)

lemma createSettings_outcome:
  assumes "createSettings cf None w = (Inr (s, cache), w')"
  shows "\<exists>w1 w2 t d. loadSettings cf (getDefaultSettingsFilePath cf) Yaml w1 = (Inr d, w2) \<and>
    (case loadSettings cf (settings_file cf (Some t)) t w2 of
       (Inr u, w3) \<Rightarrow> s = cf_merge cf d u \<and> cache = Some s \<and> w' = w3
     | (Inl _, w3) \<Rightarrow> s = d \<and> cache = None \<and> w' = w3)"
proof -
  obtain wa t0 wb d wc where steps:
    "settingsFileType cf (getSettingsFileBasePath cf) wa = (Inr t0, wb)"
    "loadSettings cf (getDefaultSettingsFilePath cf) Yaml wb = (Inr d, wc)"
    "catching (await (merged_settings cf t0 d) (\<lambda>s. returning (s, Some s))) (\<lambda>_. returning (d, None)) wc =
       (Inr (s, cache), w')"
    using assms unfolding createSettings_def option.case await_Inr by blast
  obtain t where "t0 = Some t" using settingsFileType_Some [OF steps(1)] by blast
  with steps(3) have "(case loadSettings cf (settings_file cf (Some t)) t wc of
       (Inr u, w3) \<Rightarrow> s = cf_merge cf d u \<and> cache = Some s \<and> w' = w3
     | (Inl _, w3) \<Rightarrow> s = d \<and> cache = None \<and> w' = w3)"
    unfolding merged_settings_outcome [of cf t d wc, folded \<open>t0 = Some t\<close>]
    by (auto simp: merged_settings_outcome split: prod.splits sum.splits)
  with steps(2) show ?thesis by (intro exI conjI)
qed

section \<open>Properties\<close>

text \<open>
  When the settings are created afresh, they are the default file merged with the operator's file,
  and are kept; if the operator's file cannot be read they are the defaults alone, and nothing is
  kept, so that the next call tries again. Kept settings are returned as they are. No file is ever
  written, whatever is missing: the branch that saves the defaults is never taken.
\<close>

theorem settings_created:
  assumes "createSettings cf None w = (Inr (s, cache), w')"
  shows "(\<exists>w1 w2 t d. loadSettings cf (getDefaultSettingsFilePath cf) Yaml w1 = (Inr d, w2) \<and>
      (case loadSettings cf (settings_file cf (Some t)) t w2 of
         (Inr u, w3) \<Rightarrow> s = cf_merge cf d u \<and> cache = Some s \<and> w' = w3
       | (Inl _, w3) \<Rightarrow> s = d \<and> cache = None \<and> w' = w3)) \<and>
    createSettings cf (Some s) w' = (Inr (s, Some s), w') \<and>
    createSettings (cf\<lparr>cf_write_yaml := f\<rparr>) None w = createSettings cf None w"
  using createSettings_outcome [OF assms] by (simp add: createSettings_write) (simp add: createSettings_def)

text \<open>A directory without a settings file; the world counts the writes.\<close>

definition fresh_files :: "(nat, string list) config_files" where
  "fresh_files = \<lparr>cf_config_dir = Some ''/nostr'', cf_join = (\<lambda>a b. a @ ''/'' @ b), cf_cwd = ''/app'',
     cf_exists = (\<lambda>_ _. True), cf_mkdir = (\<lambda>_. returning ()), cf_readdir = (\<lambda>_. returning []),
     cf_load_yaml = (\<lambda>path. if path = ''/app/resources/default-settings.yaml'' then returning [''default'']
       else throwing (plain_error ''ENOENT'')),
     cf_load_json = (\<lambda>_. throwing (plain_error ''ENOENT'')), cf_write_yaml = (\<lambda>_ _ n. (Inr (), Suc n)),
     cf_merge = (\<lambda>a b. a @ b), cf_empty = []\<rparr>"

theorem settings_created_witness:
  "createSettings fresh_files None 0 = (Inr ([''default''], None), 0) \<and>
   createSettings (fresh_files\<lparr>cf_write_yaml := (\<lambda>_ _. throwing NonErr)\<rparr>) None 0 = (Inr ([''default''], None), 0)"
proof -
  have run: "createSettings fresh_files None 0 = (Inr ([''default''], None), 0)" by code_simp
  with settings_created [OF run, of "\<lambda>_ _. throwing NonErr"] show ?thesis by simp
qed

end
