(* ===== verification/Payments_Store.thy ===== *)
theory Payments_Store
  imports Nostr_Types Buffers "HOL-Library.Multiset"
begin

text \<open>
  Users and invoices: \<open>src/@types/invoice.ts\<close>, the row conversions of \<open>src/utils/transform.ts\<close>, the
  two repositories \<open>src/repositories/invoice-repository.ts\<close> and \<open>user-repository.ts\<close>,
  \<open>src/database/transaction.ts\<close>, and the tables and the stored function \<open>confirm_invoice\<close> that the
  migrations create. The database is reached through the record \<open>db_client\<close>; what the code relies on
  of PostgreSQL is the locale \<open>payments_database\<close>, whose laws the tables of the migrations satisfy.
  Dates are milliseconds; \<open>bigint\<close>s are \<^typ>\<open>int\<close>, and the columns of type \<open>BIGINT\<close> are kept within
  64 bits by the statements that write them.
\<close>

section \<open>Invoices\<close>

datatype invoice_unit = MSATS | SATS | BTC

datatype invoice_status = PENDING | COMPLETED | EXPIRED

fun unit_name :: "invoice_unit \<Rightarrow> string" where
  "unit_name MSATS = ''msats''"
| "unit_name SATS = ''sats''"
| "unit_name BTC = ''btc''"

fun status_name :: "invoice_status \<Rightarrow> string" where
  "status_name PENDING = ''pending''"
| "status_name COMPLETED = ''completed''"
| "status_name EXPIRED = ''expired''"

text \<open>\<open>Partial<Invoice>\<close>: a property that is undefined or null is \<open>None\<close>.\<close>

record invoice =
  iv_id :: "string option"
  iv_pubkey :: "string option"
  iv_bolt11 :: "string option"
  iv_amountRequested :: "int option"
  iv_amountPaid :: "int option"
  iv_unit :: "invoice_unit option"
  iv_status :: "invoice_status option"
  iv_description :: "string option"
  iv_confirmedAt :: "int option"
  iv_expiresAt :: "int option"
  iv_updatedAt :: "int option"
  iv_createdAt :: "int option"
  iv_verifyURL :: "string option"

definition no_invoice :: invoice where
  "no_invoice = \<lparr>iv_id = None, iv_pubkey = None, iv_bolt11 = None, iv_amountRequested = None,
     iv_amountPaid = None, iv_unit = None, iv_status = None, iv_description = None,
     iv_confirmedAt = None, iv_expiresAt = None, iv_updatedAt = None, iv_createdAt = None,
     iv_verifyURL = None\<rparr>"

section \<open>The tables\<close>

text \<open>\<open>DBInvoice\<close> and \<open>DBUser\<close>.\<close>

record invoice_row =
  ir_id :: string
  ir_pubkey :: buffer
  ir_bolt11 :: string
  ir_amount_requested :: int
  ir_amount_paid :: "int option"
  ir_unit :: "invoice_unit option"
  ir_status :: "invoice_status option"
  ir_description :: "string option"
  ir_confirmed_at :: "int option"
  ir_expires_at :: "int option"
  ir_updated_at :: int
  ir_created_at :: int
  ir_verify_url :: "string option"

record user_row =
  ur_pubkey :: buffer
  ur_is_admitted :: bool
  ur_balance :: int
  ur_tos_accepted_at :: "int option"
  ur_created_at :: int
  ur_updated_at :: int

record payments_db =
  pd_users :: "user_row list"
  pd_invoices :: "invoice_row list"

definition fromDBInvoice :: "invoice_row \<Rightarrow> invoice" where
  "fromDBInvoice r = \<lparr>iv_id = Some (ir_id r), iv_pubkey = Some (fromBuffer (ir_pubkey r)),
     iv_bolt11 = Some (ir_bolt11 r), iv_amountRequested = Some (ir_amount_requested r),
     iv_amountPaid = ir_amount_paid r, iv_unit = ir_unit r, iv_status = ir_status r,
     iv_description = ir_description r, iv_confirmedAt = ir_confirmed_at r,
     iv_expiresAt = ir_expires_at r, iv_updatedAt = Some (ir_updated_at r),
     iv_createdAt = Some (ir_created_at r), iv_verifyURL = ir_verify_url r\<rparr>"

definition fromDBUser :: "user_row \<Rightarrow> user" where
  "fromDBUser r = \<lparr>usr_pubkey = fromBuffer (ur_pubkey r), usr_isAdmitted = ur_is_admitted r,
     usr_balance = ur_balance r, usr_tosAcceptedAt = None, usr_createdAt = ur_created_at r,
     usr_updatedAt = ur_updated_at r\<rparr>"

section \<open>Statements\<close>

text \<open>
  The statements the repositories send. Undefined columns of an insert take their default, those of
  an update are left out (\<open>omitBy(isUndefined)\<close> in knex): the \<open>option\<close> fields.
\<close>

record user_insert =
  ui_pubkey :: buffer
  ui_is_admitted :: "bool option"
  ui_tos_accepted_at :: "int option"
  ui_updated_at :: int
  ui_created_at :: int

record invoice_insert =
  ii_id :: string
  ii_pubkey :: buffer
  ii_bolt11 :: "string option"
  ii_amount_requested :: "int option"
  ii_unit :: "invoice_unit option"
  ii_status :: "invoice_status option"
  ii_description :: "string option"
  ii_expires_at :: "int option"
  ii_updated_at :: int
  ii_created_at :: "int option"
  ii_verify_url :: "string option"

datatype payments_statement =
    SelectUser buffer
  | UpsertUser user_insert
  | SelectInvoice string
  | SelectInvoices "invoice_status" nat nat
  | UpdateInvoice "string option" "invoice_status option" int
  | UpsertInvoice invoice_insert
  | ConfirmInvoice string int int int

datatype sql_answer = UserRows "user_row list" | InvoiceRows "invoice_row list" | RowCount nat

fun user_rows :: "sql_answer \<Rightarrow> user_row list" where
  "user_rows (UserRows rs) = rs"
| "user_rows _ = []"

fun invoice_rows :: "sql_answer \<Rightarrow> invoice_row list" where
  "invoice_rows (InvoiceRows rs) = rs"
| "invoice_rows _ = []"

fun row_count :: "sql_answer \<Rightarrow> nat" where
  "row_count (RowCount n) = n"
| "row_count _ = 0"

section \<open>What the statements do\<close>

definition in_bigint :: "int \<Rightarrow> bool" where
  "in_bigint x \<longleftrightarrow> - (2 ^ 63) \<le> x \<and> x < 2 ^ 63"

text \<open>The three branches on \<open>invoice_unit\<close> of the stored function \<open>confirm_invoice\<close>.\<close>

fun credit_msat :: "invoice_unit option \<Rightarrow> int \<Rightarrow> int" where
  "credit_msat (Some SATS) amount = amount * 1000"
| "credit_msat (Some MSATS) amount = amount"
| "credit_msat (Some BTC) amount = amount * 100000000 * 1000"
| "credit_msat None amount = 0"

definition credit_user :: "buffer \<Rightarrow> int \<Rightarrow> user_row list \<Rightarrow> user_row list" where
  "credit_user payee msat users =
     map (\<lambda>u. if ur_pubkey u = payee then u\<lparr>ur_balance := ur_balance u + msat\<rparr> else u) users"

definition confirm_invoice :: "string \<Rightarrow> int \<Rightarrow> int \<Rightarrow> int \<Rightarrow> payments_db \<Rightarrow> payments_db option" where
  "confirm_invoice invoice_id amount_received confirmation_date now db =
     (if \<not> in_bigint amount_received then None
      else case List.find (\<lambda>r. ir_id r = invoice_id) (pd_invoices db) of
             None \<Rightarrow> Some db
           | Some r \<Rightarrow>
               if ir_confirmed_at r \<noteq> None then Some db
               else
                 let users = credit_user (ir_pubkey r) (credit_msat (ir_unit r) amount_received) (pd_users db) in
                 if list_all (\<lambda>u. in_bigint (ur_balance u)) users
                 then Some \<lparr>pd_users = users,
                        pd_invoices = map (\<lambda>i. if ir_id i = invoice_id
                          then i\<lparr>ir_confirmed_at := Some confirmation_date,
                                 ir_amount_paid := Some amount_received, ir_updated_at := now\<rparr> else i)
                          (pd_invoices db)\<rparr>
                 else None)"

definition new_user_row :: "user_insert \<Rightarrow> user_row" where
  "new_user_row i = \<lparr>ur_pubkey = ui_pubkey i,
     ur_is_admitted = (case ui_is_admitted i of None \<Rightarrow> False | Some b \<Rightarrow> b), ur_balance = 0,
     ur_tos_accepted_at = ui_tos_accepted_at i, ur_created_at = ui_created_at i,
     ur_updated_at = ui_updated_at i\<rparr>"

text \<open>\<open>merge(omit(['pubkey', 'balance', 'created_at'])(row))\<close>.\<close>

definition merge_user_row :: "user_insert \<Rightarrow> user_row \<Rightarrow> user_row" where
  "merge_user_row i u = u\<lparr>
     ur_is_admitted := (case ui_is_admitted i of None \<Rightarrow> ur_is_admitted u | Some b \<Rightarrow> b),
     ur_tos_accepted_at := (case ui_tos_accepted_at i of None \<Rightarrow> ur_tos_accepted_at u | Some t \<Rightarrow> Some t),
     ur_updated_at := ui_updated_at i\<rparr>"

definition upsert_user :: "user_insert \<Rightarrow> user_row list \<Rightarrow> user_row list" where
  "upsert_user i users =
     (if list_ex (\<lambda>u. ur_pubkey u = ui_pubkey i) users
      then map (\<lambda>u. if ur_pubkey u = ui_pubkey i then merge_user_row i u else u) users
      else users @ [new_user_row i])"

text \<open>\<open>merge(omit([...])(row))\<close> leaves \<open>status\<close> and \<open>updated_at\<close>.\<close>

definition merge_invoice_row :: "invoice_status option \<Rightarrow> int \<Rightarrow> invoice_row \<Rightarrow> invoice_row" where
  "merge_invoice_row status updated_at r = r\<lparr>
     ir_status := (case status of None \<Rightarrow> ir_status r | Some s \<Rightarrow> Some s), ir_updated_at := updated_at\<rparr>"

definition upsert_invoice :: "invoice_insert \<Rightarrow> invoice_row list \<Rightarrow> invoice_row list option" where
  "upsert_invoice i invoices =
     (case (ii_bolt11 i, ii_amount_requested i) of
        (Some bolt11, Some amount) \<Rightarrow>
          if \<not> in_bigint amount then None
          else if list_ex (\<lambda>r. ir_id r = ii_id i) invoices
          then Some (map (\<lambda>r. if ir_id r = ii_id i
                   then merge_invoice_row (ii_status i) (ii_updated_at i) r else r) invoices)
          else Some (invoices @ [\<lparr>ir_id = ii_id i, ir_pubkey = ii_pubkey i, ir_bolt11 = bolt11,
                 ir_amount_requested = amount, ir_amount_paid = None, ir_unit = ii_unit i,
                 ir_status = ii_status i, ir_description = ii_description i, ir_confirmed_at = None,
                 ir_expires_at = ii_expires_at i, ir_updated_at = ii_updated_at i,
                 ir_created_at = (case ii_created_at i of None \<Rightarrow> ii_updated_at i | Some t \<Rightarrow> t),
                 ir_verify_url = ii_verify_url i\<rparr>])
      | _ \<Rightarrow> None)"

text \<open>\<open>None\<close>: PostgreSQL or knex refuses the statement.\<close>

fun perform_statement :: "payments_statement \<Rightarrow> payments_db \<Rightarrow> (sql_answer \<times> payments_db) option" where
  "perform_statement (SelectUser pk) db = Some (UserRows (filter (\<lambda>u. ur_pubkey u = pk) (pd_users db)), db)"
| "perform_statement (UpsertUser i) db = Some (RowCount 1, db\<lparr>pd_users := upsert_user i (pd_users db)\<rparr>)"
| "perform_statement (SelectInvoice key) db =
     Some (InvoiceRows (filter (\<lambda>r. ir_id r = key) (pd_invoices db)), db)"
| "perform_statement (SelectInvoices st offset limit) db =
     Some (InvoiceRows (take limit (drop offset (filter (\<lambda>r. ir_status r = Some st) (pd_invoices db)))), db)"
| "perform_statement (UpdateInvoice None st now) db = None"
| "perform_statement (UpdateInvoice (Some key) st now) db =
     (let invoices = map (\<lambda>r. if ir_id r = key then merge_invoice_row st now r else r) (pd_invoices db) in
      Some (InvoiceRows (filter (\<lambda>r. ir_id r = key) invoices), db\<lparr>pd_invoices := invoices\<rparr>))"
| "perform_statement (UpsertInvoice i) db =
     map_option (\<lambda>invoices. (RowCount 1, db\<lparr>pd_invoices := invoices\<rparr>)) (upsert_invoice i (pd_invoices db))"
| "perform_statement (ConfirmInvoice key amount date now) db =
     map_option (\<lambda>db'. (RowCount 1, db')) (confirm_invoice key amount date now db)"

section \<open>The database client and transactions\<close>

text \<open>
  \<open>MainClient\<close> is the pool (\<open>this.dbClient\<close>), \<open>TrxClient\<close> the open transaction. \<open>dc_begin\<close>,
  \<open>dc_commit\<close> and \<open>dc_rollback\<close> are \<open>dbClient.transaction\<close> and the methods of its result.
\<close>

datatype client_choice = MainClient | TrxClient

record 'w db_client =
  dc_sql :: "client_choice \<Rightarrow> payments_statement \<Rightarrow> ('w, sql_answer) task"
  dc_begin :: "('w, unit) task"
  dc_commit :: "('w, unit) task"
  dc_rollback :: "('w, unit) task"
  dc_now :: "'w \<Rightarrow> int"
  dc_uuid :: "('w, string) task"

definition not_started :: exn where
  "not_started = plain_error ''Unable to get transaction: transaction not started.''"

text \<open>The methods of \<open>Transaction\<close>; the flag tells whether \<open>this.trx\<close> is set.\<close>

definition trx_client :: "bool \<Rightarrow> ('w, client_choice) task" where
  "trx_client started = (if \<not> started then throwing not_started else returning TrxClient)"

definition trx_commit :: "'w db_client \<Rightarrow> bool \<Rightarrow> ('w, unit) task" where
  "trx_commit dc started = (if \<not> started then throwing not_started else dc_commit dc)"

definition trx_rollback :: "'w db_client \<Rightarrow> bool \<Rightarrow> ('w, unit) task" where
  "trx_rollback dc started = (if \<not> started then throwing not_started else dc_rollback dc)"

section \<open>The repositories\<close>

definition findByPubkey :: "'w db_client \<Rightarrow> client_choice \<Rightarrow> string \<Rightarrow> ('w, user option) task" where
  "findByPubkey dc client pubkey =
     await (dc_sql dc client (SelectUser (toBuffer pubkey))) (\<lambda>answer.
       returning (case user_rows answer of [] \<Rightarrow> None | dbuser # _ \<Rightarrow> Some (fromDBUser dbuser)))"

definition user_upsert ::
    "'w db_client \<Rightarrow> client_choice \<Rightarrow> string \<Rightarrow> bool option \<Rightarrow> int option \<Rightarrow> ('w, nat) task" where
  "user_upsert dc client pubkey isAdmitted tosAcceptedAt =
     await (reading (dc_now dc)) (\<lambda>date.
       await (dc_sql dc client (UpsertUser \<lparr>ui_pubkey = toBuffer pubkey, ui_is_admitted = isAdmitted,
           ui_tos_accepted_at = tosAcceptedAt, ui_updated_at = date, ui_created_at = date\<rparr>)) (\<lambda>answer.
         returning (row_count answer)))"

definition getBalanceByPubkey :: "'w db_client \<Rightarrow> client_choice \<Rightarrow> string \<Rightarrow> ('w, int) task" where
  "getBalanceByPubkey dc client pubkey =
     await (dc_sql dc client (SelectUser (toBuffer pubkey))) (\<lambda>answer.
       returning (case user_rows answer of [] \<Rightarrow> 0 | u # _ \<Rightarrow> ur_balance u))"

text \<open>An undefined id binds no value, which the driver refuses.\<close>

definition invoice_confirm ::
    "'w db_client \<Rightarrow> client_choice \<Rightarrow> string option \<Rightarrow> int \<Rightarrow> int \<Rightarrow> ('w, unit) task" where
  "invoice_confirm dc client invoiceId amountPaid confirmedAt =
     (case invoiceId of
        None \<Rightarrow> throwing (plain_error ''Undefined binding(s) detected'')
      | Some key \<Rightarrow>
          await (reading (dc_now dc)) (\<lambda>now.
            await (dc_sql dc client (ConfirmInvoice key amountPaid confirmedAt now)) (\<lambda>_. returning ())))"

definition findById :: "'w db_client \<Rightarrow> client_choice \<Rightarrow> string \<Rightarrow> ('w, invoice option) task" where
  "findById dc client key =
     await (dc_sql dc client (SelectInvoice key)) (\<lambda>answer.
       returning (case invoice_rows answer of [] \<Rightarrow> None | dbInvoice # _ \<Rightarrow> Some (fromDBInvoice dbInvoice)))"

definition findPendingInvoices ::
    "'w db_client \<Rightarrow> client_choice \<Rightarrow> nat \<Rightarrow> nat \<Rightarrow> ('w, invoice list) task" where
  "findPendingInvoices dc client offset limit =
     await (dc_sql dc client (SelectInvoices PENDING offset limit)) (\<lambda>answer.
       returning (map fromDBInvoice (invoice_rows answer)))"

definition updateStatus ::
    "'w db_client \<Rightarrow> client_choice \<Rightarrow> string option \<Rightarrow> invoice_status option \<Rightarrow> ('w, invoice option) task" where
  "updateStatus dc client key status =
     await (reading (dc_now dc)) (\<lambda>now.
       await (dc_sql dc client (UpdateInvoice key status now)) (\<lambda>answer.
         returning (case map fromDBInvoice (invoice_rows answer) of [] \<Rightarrow> None | i # _ \<Rightarrow> Some i)))"

text \<open>\<open>invoice_upsert\<close>: \<open>toBuffer\<close> of an undefined public key throws.\<close>

definition invoice_upsert :: "'w db_client \<Rightarrow> client_choice \<Rightarrow> invoice \<Rightarrow> ('w, nat) task" where
  "invoice_upsert dc client invoice =
     await (dc_uuid dc) (\<lambda>uuid.
       await (reading (dc_now dc)) (\<lambda>now.
         case iv_pubkey invoice of
           None \<Rightarrow> throwing (type_error ''The first argument must be of type string'')
         | Some pubkey \<Rightarrow>
             await (dc_sql dc client (UpsertInvoice \<lparr>
                 ii_id = (case iv_id invoice of None \<Rightarrow> uuid | Some key \<Rightarrow> key), ii_pubkey = toBuffer pubkey,
                 ii_bolt11 = iv_bolt11 invoice, ii_amount_requested = iv_amountRequested invoice,
                 ii_unit = iv_unit invoice, ii_status = iv_status invoice,
                 ii_description = iv_description invoice, ii_expires_at = iv_expiresAt invoice,
                 ii_updated_at = now, ii_created_at = iv_createdAt invoice,
                 ii_verify_url = iv_verifyURL invoice\<rparr>)) (\<lambda>answer. returning (row_count answer))))"

section \<open>What the code relies on of the database\<close>

text \<open>A query without \<open>ORDER BY\<close> answers in any order.\<close>

definition statement_outcome ::
    "payments_statement \<Rightarrow> payments_db \<Rightarrow> sql_answer \<Rightarrow> payments_db \<Rightarrow> bool" where
  "statement_outcome s d a d' \<longleftrightarrow>
     (case s of
        SelectInvoices st offset limit \<Rightarrow>
          d' = d \<and>
          (\<exists>rs. a = InvoiceRows rs \<and> mset rs \<subseteq># mset (filter (\<lambda>r. ir_status r = Some st) (pd_invoices d)) \<and>
            length rs = min limit (length (filter (\<lambda>r. ir_status r = Some st) (pd_invoices d)) - offset))
      | _ \<Rightarrow> perform_statement s d = Some (a, d'))"

text \<open>
  \<open>db w\<close> is the content of the tables as the client sees it, inside a transaction the transaction's
  view; \<open>saved w\<close> is the content at the beginning of the open transaction. A statement outside a
  transaction is atomic; after a failed statement a transaction can only be rolled back; a
  transaction whose commit fails has no effect.
\<close>

locale payments_database =
  fixes dc :: "'w db_client" and db :: "'w \<Rightarrow> payments_db" and saved :: "'w \<Rightarrow> payments_db option"
  assumes sql_main: "saved w = None \<Longrightarrow> dc_sql dc MainClient s w = (r, w') \<Longrightarrow>
      saved w' = None \<and> (case r of Inl _ \<Rightarrow> db w' = db w | Inr a \<Rightarrow> statement_outcome s (db w) a (db w'))"
    and sql_trx: "saved w = Some d \<Longrightarrow> dc_sql dc TrxClient s w = (r, w') \<Longrightarrow>
      saved w' = Some d \<and> (case r of Inl _ \<Rightarrow> True | Inr a \<Rightarrow> statement_outcome s (db w) a (db w'))"
    and begins: "saved w = None \<Longrightarrow> dc_begin dc w = (t, w') \<Longrightarrow>
      db w' = db w \<and> saved w' = (case t of Inl _ \<Rightarrow> None | Inr _ \<Rightarrow> Some (db w))"
    and commits: "saved w = Some d \<Longrightarrow> dc_commit dc w = (t, w') \<Longrightarrow>
      saved w' = None \<and> db w' = (case t of Inl _ \<Rightarrow> d | Inr _ \<Rightarrow> db w)"
    and rolls_back: "dc_rollback dc w = (t, w') \<Longrightarrow>
      saved w' = None \<and> db w' = (case saved w of None \<Rightarrow> db w | Some d \<Rightarrow> d)"
    and uuids: "dc_uuid dc w = (u, w') \<Longrightarrow> db w' = db w \<and> saved w' = saved w"

section \<open>The ledger\<close>

text \<open>
  What a confirmed invoice is worth, the total of a user's confirmed invoices, and the invariant of
  the tables: keys are unique, every invoice belongs to a user, and every balance is the total of the
  user's confirmed invoices.
\<close>

definition credited :: "invoice_row \<Rightarrow> int" where
  "credited r =
     (if ir_confirmed_at r = None then 0
      else case ir_amount_paid r of None \<Rightarrow> 0 | Some amount \<Rightarrow> credit_msat (ir_unit r) amount)"

definition paid_msat :: "invoice_row list \<Rightarrow> buffer \<Rightarrow> int" where
  "paid_msat invoices pk = sum_list (map (\<lambda>r. if ir_pubkey r = pk then credited r else 0) invoices)"

definition ledger_ok :: "payments_db \<Rightarrow> bool" where
  "ledger_ok d \<longleftrightarrow> distinct (map ur_pubkey (pd_users d)) \<and> distinct (map ir_id (pd_invoices d)) \<and>
     ir_pubkey ` set (pd_invoices d) \<subseteq> ur_pubkey ` set (pd_users d) \<and>
     (\<forall>u \<in> set (pd_users d). ur_balance u = paid_msat (pd_invoices d) (ur_pubkey u))"

lemma sum_list_update:
  fixes f g :: "'a \<Rightarrow> int"
  assumes "distinct (map key xs)" and "x \<in> set xs"
  shows "sum_list (map (\<lambda>y. if key y = key x then g y else f y) xs) = sum_list (map f xs) - f x + g x"
  using assms
proof (induction xs)
  case (Cons a xs)
  show ?case
  proof (cases "a = x")
    case True
    then have "map (\<lambda>y. if key y = key x then g y else f y) xs = map f xs"
      using Cons.prems by (intro map_cong) (auto simp: image_iff)
    then have "sum_list (map (\<lambda>y. if key y = key x then g y else f y) xs) = sum_list (map f xs)"
      by (rule arg_cong)
    then show ?thesis using True by simp
  next
    case False
    then have "key a \<noteq> key x" using Cons.prems by (force simp: image_iff)
    then show ?thesis using Cons False by auto
  qed
qed simp

text \<open>Each writing statement keeps the invariant.\<close>

lemma map_key_update:
  "(\<And>y. key (g y) = key y) \<Longrightarrow> map key (map (\<lambda>y. if c y then g y else y) xs) = map key xs"
  by simp

lemma row_keys [simp]:
  "ur_pubkey (merge_user_row i u) = ur_pubkey u" "ur_balance (merge_user_row i u) = ur_balance u"
  "ur_pubkey (new_user_row i) = ui_pubkey i" "ur_balance (new_user_row i) = 0"
  "ir_id (merge_invoice_row st t r) = ir_id r" "ir_pubkey (merge_invoice_row st t r) = ir_pubkey r"
  "credited (merge_invoice_row st t r) = credited r"
  by (auto simp: merge_user_row_def new_user_row_def merge_invoice_row_def credited_def split: option.splits)

lemma upsert_user_keys:
  "map ur_pubkey (upsert_user i us) =
     (if ui_pubkey i \<in> ur_pubkey ` set us then map ur_pubkey us else map ur_pubkey us @ [ui_pubkey i])"
proof (cases "list_ex (\<lambda>u. ur_pubkey u = ui_pubkey i) us")
  case True
  then have "ui_pubkey i \<in> ur_pubkey ` set us" unfolding list_ex_iff by (metis image_eqI)
  then show ?thesis using True by (simp add: upsert_user_def)
next
  case False
  then have "ui_pubkey i \<notin> ur_pubkey ` set us" by (auto simp: list_ex_iff)
  then show ?thesis using False by (simp add: upsert_user_def)
qed

lemma upsert_user_balances:
  assumes "u \<in> set (upsert_user i us)"
  shows "(\<exists>v \<in> set us. ur_pubkey u = ur_pubkey v \<and> ur_balance u = ur_balance v) \<or>
     (ui_pubkey i \<notin> ur_pubkey ` set us \<and> ur_pubkey u = ui_pubkey i \<and> ur_balance u = 0)"
proof (cases "list_ex (\<lambda>u. ur_pubkey u = ui_pubkey i) us")
  case True
  then obtain v where "v \<in> set us" "u = (if ur_pubkey v = ui_pubkey i then merge_user_row i v else v)"
    using assms by (auto simp: upsert_user_def)
  then have "ur_pubkey u = ur_pubkey v" "ur_balance u = ur_balance v" by auto
  then show ?thesis using \<open>v \<in> set us\<close> by blast
next
  case False
  then have "u \<in> set us \<or> u = new_user_row i" "ui_pubkey i \<notin> ur_pubkey ` set us"
    using assms by (auto simp: upsert_user_def list_ex_iff)
  then show ?thesis by auto
qed

lemma paid_msat_none: "pk \<notin> ir_pubkey ` set is \<Longrightarrow> paid_msat is pk = 0"
  by (induction "is") (auto simp: paid_msat_def)

lemma paid_msat_update:
  "(\<And>r. r \<in> set is \<Longrightarrow> ir_pubkey (g r) = ir_pubkey r \<and> credited (g r) = credited r) \<Longrightarrow>
   paid_msat (map g is) pk = paid_msat is pk"
  by (induction "is") (auto simp: paid_msat_def)

lemma upsert_user_ledger:
  assumes "ledger_ok d"
  shows "ledger_ok (d\<lparr>pd_users := upsert_user i (pd_users d)\<rparr>)"
proof -
  let ?us = "upsert_user i (pd_users d)"
  have keys: "ur_pubkey ` set ?us = insert (ui_pubkey i) (ur_pubkey ` set (pd_users d))"
    unfolding set_map [symmetric] upsert_user_keys by (auto simp del: set_map simp: list.set_map)
  have "ur_balance u = paid_msat (pd_invoices d) (ur_pubkey u)" if "u \<in> set ?us" for u
    using upsert_user_balances [OF that]
  proof
    assume "\<exists>v \<in> set (pd_users d). ur_pubkey u = ur_pubkey v \<and> ur_balance u = ur_balance v"
    then show ?thesis using assms by (auto simp: ledger_ok_def)
  next
    assume "ui_pubkey i \<notin> ur_pubkey ` set (pd_users d) \<and> ur_pubkey u = ui_pubkey i \<and> ur_balance u = 0"
    moreover from this have "ui_pubkey i \<notin> ir_pubkey ` set (pd_invoices d)"
      using assms unfolding ledger_ok_def by blast
    ultimately show ?thesis by (simp add: paid_msat_none)
  qed
  moreover have "distinct (map ur_pubkey ?us)"
    using assms unfolding upsert_user_keys by (simp add: ledger_ok_def)
  ultimately show ?thesis using assms keys by (auto simp: ledger_ok_def)
qed

lemma ledger_update_invoices:
  assumes "ledger_ok d"
    and "\<And>r. ir_id (g r) = ir_id r" "\<And>r. ir_pubkey (g r) = ir_pubkey r" "\<And>r. credited (g r) = credited r"
  shows "ledger_ok (d\<lparr>pd_invoices := map g (pd_invoices d)\<rparr>)"
  using assms by (simp add: ledger_ok_def paid_msat_update image_image comp_def)

lemma upsert_invoice_ledger:
  assumes "ledger_ok d" and "upsert_invoice i (pd_invoices d) = Some is"
    and "ii_pubkey i \<in> ur_pubkey ` set (pd_users d)"
  shows "ledger_ok (d\<lparr>pd_invoices := is\<rparr>)"
proof -
  obtain b a where some: "ii_bolt11 i = Some b" "ii_amount_requested i = Some a"
    using assms(2) by (auto simp: upsert_invoice_def split: option.splits)
  show ?thesis
  proof (cases "list_ex (\<lambda>r. ir_id r = ii_id i) (pd_invoices d)")
    case True
    then have "is = map (\<lambda>r. if ir_id r = ii_id i
        then merge_invoice_row (ii_status i) (ii_updated_at i) r else r) (pd_invoices d)"
      using assms(2) by (auto simp: upsert_invoice_def some split: if_splits)
    then show ?thesis by (simp only:) (rule ledger_update_invoices [OF assms(1)]; simp)
  next
    case False
    then obtain r where r: "is = pd_invoices d @ [r]" "ir_id r = ii_id i" "ir_pubkey r = ii_pubkey i"
        "credited r = 0"
      using assms(2) by (auto simp: upsert_invoice_def some credited_def split: if_splits)
    have "ii_id i \<notin> ir_id ` set (pd_invoices d)" using False by (auto simp: list_ex_iff)
    moreover have "paid_msat is pk = paid_msat (pd_invoices d) pk" for pk
      by (simp add: paid_msat_def r)
    ultimately show ?thesis using assms(1,3) r by (auto simp: ledger_ok_def)
  qed
qed

lemma credit_user_keys [simp]: "map ur_pubkey (credit_user payee msat us) = map ur_pubkey us"
  by (simp add: credit_user_def)

lemma confirm_invoice_cases:
  assumes "confirm_invoice key amount date now d = Some d'"
  obtains (unknown) "key \<notin> ir_id ` set (pd_invoices d)" "d' = d"
  | (again) r where "r \<in> set (pd_invoices d)" "ir_id r = key" "ir_confirmed_at r \<noteq> None" "d' = d"
  | (confirmed) r where "r \<in> set (pd_invoices d)" "ir_id r = key" "ir_confirmed_at r = None"
      "d' = \<lparr>pd_users = credit_user (ir_pubkey r) (credit_msat (ir_unit r) amount) (pd_users d),
         pd_invoices = map (\<lambda>i. if ir_id i = key
           then i\<lparr>ir_confirmed_at := Some date, ir_amount_paid := Some amount, ir_updated_at := now\<rparr> else i)
           (pd_invoices d)\<rparr>"
proof (cases "List.find (\<lambda>r. ir_id r = key) (pd_invoices d)")
  case None
  then have "key \<notin> ir_id ` set (pd_invoices d)" by (auto simp: find_None_iff)
  moreover have "d' = d" using assms None by (auto simp: confirm_invoice_def split: if_splits)
  ultimately show ?thesis by (rule unknown)
next
  case (Some r)
  then have r: "r \<in> set (pd_invoices d)" "ir_id r = key" by (auto simp: find_Some_iff)
  show ?thesis
  proof (cases "ir_confirmed_at r = None")
    case True
    then show ?thesis using assms Some confirmed [OF r True]
      by (simp add: confirm_invoice_def Let_def split: if_splits)
  next
    case False
    then show ?thesis using assms Some again [OF r False]
      by (auto simp: confirm_invoice_def split: if_splits)
  qed
qed

lemma confirm_invoice_ledger:
  assumes "ledger_ok d" and "confirm_invoice key amount date now d = Some d'"
  shows "ledger_ok d'"
  using assms(2)
proof (cases rule: confirm_invoice_cases)
  case (confirmed r)
  let ?g = "\<lambda>i. i\<lparr>ir_confirmed_at := Some date, ir_amount_paid := Some amount, ir_updated_at := now\<rparr>"
  let ?is = "map (\<lambda>i. if ir_id i = key then ?g i else i) (pd_invoices d)"
  let ?msat = "credit_msat (ir_unit r) amount"
  have "paid_msat ?is pk = paid_msat (pd_invoices d) pk + (if ir_pubkey r = pk then ?msat else 0)" for pk
  proof -
    have "paid_msat ?is pk = sum_list (map (\<lambda>i. if ir_id i = ir_id r
        then (if ir_pubkey i = pk then credited (?g i) else 0) else (if ir_pubkey i = pk then credited i else 0))
        (pd_invoices d))"
      unfolding paid_msat_def map_map by (intro arg_cong [of _ _ sum_list] map_cong) (auto simp: confirmed)
    also have "\<dots> = paid_msat (pd_invoices d) pk + (if ir_pubkey r = pk then ?msat else 0)"
      unfolding paid_msat_def
      using sum_list_update [of ir_id "pd_invoices d" r "\<lambda>i. if ir_pubkey i = pk then credited (?g i) else 0"
          "\<lambda>i. if ir_pubkey i = pk then credited i else 0"] assms(1) confirmed
      by (simp add: ledger_ok_def credited_def)
    finally show ?thesis .
  qed
  then have "\<forall>u \<in> set (pd_users d'). ur_balance u = paid_msat (pd_invoices d') (ur_pubkey u)"
    using assms(1) confirmed by (auto simp: ledger_ok_def credit_user_def)
  moreover have "map ur_pubkey (pd_users d') = map ur_pubkey (pd_users d)"
    "map ir_id (pd_invoices d') = map ir_id (pd_invoices d)"
    "map ir_pubkey (pd_invoices d') = map ir_pubkey (pd_invoices d)"
    using confirmed by (auto intro!: map_cong simp: comp_def)
  ultimately show ?thesis using assms(1) unfolding ledger_ok_def set_map [symmetric] by metis
qed (use assms(1) in simp_all)

text \<open>The effect of any statement on the ledger. Only an insert of an invoice needs a user to exist.\<close>

definition has_user :: "payments_db \<Rightarrow> buffer \<Rightarrow> bool" where
  "has_user d pk \<longleftrightarrow> pk \<in> ur_pubkey ` set (pd_users d)"

definition statement_allowed :: "payments_statement \<Rightarrow> payments_db \<Rightarrow> bool" where
  "statement_allowed s d \<longleftrightarrow> (case s of UpsertInvoice i \<Rightarrow> has_user d (ii_pubkey i) | _ \<Rightarrow> True)"

lemma statement_ledger:
  assumes "ledger_ok d" and "statement_outcome s d a d'" and "statement_allowed s d"
  shows "ledger_ok d'"
proof (cases s)
  case (UpsertUser i)
  then show ?thesis using assms upsert_user_ledger by (auto simp: statement_outcome_def)
next
  case (UpdateInvoice key st now)
  then obtain k where "key = Some k" using assms(2) by (cases key) (auto simp: statement_outcome_def)
  then have "d' = d\<lparr>pd_invoices := map (\<lambda>r. if ir_id r = k then merge_invoice_row st now r else r) (pd_invoices d)\<rparr>"
    using assms(2) UpdateInvoice by (auto simp: statement_outcome_def Let_def)
  then show ?thesis by (simp only:) (rule ledger_update_invoices [OF assms(1)]; simp)
next
  case (UpsertInvoice i)
  then show ?thesis using assms upsert_invoice_ledger
    by (auto simp: statement_outcome_def statement_allowed_def has_user_def)
next
  case (ConfirmInvoice key amount date now)
  then show ?thesis using assms confirm_invoice_ledger by (auto simp: statement_outcome_def)
qed (use assms in \<open>auto simp: statement_outcome_def\<close>)

lemma confirm_invoice_users: "confirm_invoice key amount date now d = Some d' \<Longrightarrow> has_user d' pk = has_user d pk"
  by (erule confirm_invoice_cases) (simp_all add: has_user_def set_map [symmetric] del: set_map)

lemma statement_users:
  assumes "statement_outcome s d a d'" "has_user d pk"
  shows "has_user d' pk"
proof (cases s)
  case (UpsertUser i)
  then show ?thesis using assms unfolding has_user_def set_map [symmetric]
    by (auto simp: statement_outcome_def upsert_user_keys simp del: set_map)
next
  case (UpdateInvoice key st now)
  then show ?thesis using assms by (cases key) (auto simp: statement_outcome_def has_user_def Let_def)
next
  case (ConfirmInvoice key amount date now)
  then show ?thesis using assms confirm_invoice_users by (auto simp: statement_outcome_def)
qed (use assms in \<open>auto simp: statement_outcome_def has_user_def\<close>)

section \<open>The repositories over a database that keeps its promises\<close>

context payments_database begin

text \<open>No transaction is open and the ledger is in order.\<close>

definition settled :: "'w \<Rightarrow> bool" where
  "settled w \<longleftrightarrow> saved w = None \<and> ledger_ok (db w)"

lemma main_keeps_settled [inv_intros]:
  assumes "\<And>d. statement_allowed s d"
  shows "keeps settled (dc_sql dc MainClient s)"
proof (rule keepsI)
  fix w r w' assume "settled w" and "dc_sql dc MainClient s w = (r, w')"
  then show "settled w'" using sql_main [of w s r w'] statement_ledger [OF _ _ assms]
    by (auto simp: settled_def split: sum.splits)
qed

lemma trx_statement:
  assumes "\<And>a x x'. p x \<Longrightarrow> statement_outcome s x a x' \<Longrightarrow> q a x'"
  shows "triple (\<lambda>w. saved w = Some d \<and> p (db w)) (dc_sql dc TrxClient s)
    (\<lambda>a w. saved w = Some d \<and> q a (db w)) (\<lambda>_ w. saved w = Some d)"
proof (rule tripleI; elim conjE)
  fix w a w' assume "saved w = Some d" "p (db w)" "dc_sql dc TrxClient s w = (Inr a, w')"
  then show "saved w' = Some d \<and> q a (db w')" using sql_trx [of w d s "Inr a" w'] assms by auto
next
  fix w x w' assume "saved w = Some d" "dc_sql dc TrxClient s w = (Inl x, w')"
  then show "saved w' = Some d" using sql_trx [of w d s "Inl x" w'] by auto
qed

lemma repository_keeps_settled [inv_intros]:
  "keeps settled (findByPubkey dc MainClient pk)" "keeps settled (getBalanceByPubkey dc MainClient pk)"
  "keeps settled (user_upsert dc MainClient pk admitted tos)"
  "keeps settled (findById dc MainClient key)" "keeps settled (findPendingInvoices dc MainClient m n)"
  "keeps settled (updateStatus dc MainClient ko st)"
  unfolding findByPubkey_def getBalanceByPubkey_def user_upsert_def findById_def
    findPendingInvoices_def updateStatus_def
  by (intro inv_intros; simp add: statement_allowed_def)+

end

section \<open>The tables as a database\<close>

text \<open>
  \<open>dw_budget\<close> bounds the number of statements and commits that still succeed; \<open>None\<close> is a database
  that never fails.
\<close>

record db_world =
  dw_db :: payments_db
  dw_saved :: "payments_db option"
  dw_now :: int
  dw_ids :: nat
  dw_budget :: "nat option"

definition database_down :: exn where
  "database_down = plain_error ''Connection terminated unexpectedly''"

definition spend :: "('w db_world_scheme, unit) task" where
  "spend w = (case dw_budget w of
     None \<Rightarrow> (Inr (), w)
   | Some 0 \<Rightarrow> (Inl database_down, w)
   | Some (Suc n) \<Rightarrow> (Inr (), w\<lparr>dw_budget := Some n\<rparr>))"

definition table_sql :: "client_choice \<Rightarrow> payments_statement \<Rightarrow> ('w db_world_scheme, sql_answer) task" where
  "table_sql client s =
     await spend (\<lambda>_ w.
       case (client, dw_saved w) of
         (MainClient, Some d) \<Rightarrow>
           (case perform_statement s d of
              None \<Rightarrow> (Inl (plain_error ''database error''), w)
            | Some (a, d') \<Rightarrow> (Inr a, w\<lparr>dw_saved := Some d'\<rparr>))
       | (TrxClient, None) \<Rightarrow> (Inl (plain_error ''no transaction''), w)
       | _ \<Rightarrow>
           (case perform_statement s (dw_db w) of
              None \<Rightarrow> (Inl (plain_error ''database error''), w)
            | Some (a, d') \<Rightarrow> (Inr a, w\<lparr>dw_db := d'\<rparr>)))"

definition table_begin :: "('w db_world_scheme, unit) task" where
  "table_begin = await spend (\<lambda>_ w. (Inr (), w\<lparr>dw_saved := Some (dw_db w)\<rparr>))"

definition table_rollback :: "('w db_world_scheme, unit) task" where
  "table_rollback w =
     (Inr (), case dw_saved w of None \<Rightarrow> w | Some d \<Rightarrow> w\<lparr>dw_db := d, dw_saved := None\<rparr>)"

definition table_commit :: "('w db_world_scheme, unit) task" where
  "table_commit w =
     (case spend w of
        (Inl x, w1) \<Rightarrow> (Inl x, snd (table_rollback w1))
      | (Inr _, w1) \<Rightarrow> (Inr (), w1\<lparr>dw_saved := None\<rparr>))"

definition table_client :: "'w db_world_scheme db_client" where
  "table_client = \<lparr>dc_sql = table_sql, dc_begin = table_begin, dc_commit = table_commit,
     dc_rollback = table_rollback, dc_now = dw_now,
     dc_uuid = (\<lambda>w. (Inr (''uuid-'' @ nat_to_string (dw_ids w)), w\<lparr>dw_ids := Suc (dw_ids w)\<rparr>))\<rparr>"

lemma spend_frame: "spend w = (r, w') \<Longrightarrow> dw_db w' = dw_db w \<and> dw_saved w' = dw_saved w"
  by (auto simp: spend_def split: option.splits nat.splits)

lemma mset_take_drop: "mset (take l (drop n xs)) \<subseteq># mset xs"
  by (metis append_take_drop_id mset_append mset_subset_eq_add_left mset_subset_eq_add_right
      subset_mset.order_trans)

lemma perform_statement_outcome: "perform_statement s d = Some (a, d') \<Longrightarrow> statement_outcome s d a d'"
  by (cases s) (auto simp: statement_outcome_def mset_take_drop min.commute simp del: mset_filter)

lemma table_sql_main:
  assumes "dw_saved w = None" "table_sql MainClient s w = (r, w')"
  shows "dw_saved w' = None \<and> (case r of Inl _ \<Rightarrow> dw_db w' = dw_db w
    | Inr a \<Rightarrow> statement_outcome s (dw_db w) a (dw_db w'))"
proof (cases "spend w")
  case (Pair b w1)
  then show ?thesis using assms spend_frame [OF Pair] perform_statement_outcome
    by (cases b) (auto simp: table_sql_def await_def split: option.splits prod.splits)
qed

lemma table_sql_trx:
  assumes "dw_saved w = Some d" "table_sql TrxClient s w = (r, w')"
  shows "dw_saved w' = Some d \<and> (case r of Inl _ \<Rightarrow> True
    | Inr a \<Rightarrow> statement_outcome s (dw_db w) a (dw_db w'))"
proof (cases "spend w")
  case (Pair b w1)
  then show ?thesis using assms spend_frame [OF Pair] perform_statement_outcome
    by (cases b) (auto simp: table_sql_def await_def split: option.splits prod.splits)
qed

lemma table_begins:
  assumes "dw_saved w = None" "table_begin w = (t, w')"
  shows "dw_db w' = dw_db w \<and> dw_saved w' = (case t of Inl _ \<Rightarrow> None | Inr _ \<Rightarrow> Some (dw_db w))"
proof (cases "spend w")
  case (Pair b w1)
  then show ?thesis using assms spend_frame [OF Pair]
    by (cases b) (auto simp: table_begin_def await_def)
qed

lemma table_commits:
  assumes "dw_saved w = Some d" "table_commit w = (t, w')"
  shows "dw_saved w' = None \<and> dw_db w' = (case t of Inl _ \<Rightarrow> d | Inr _ \<Rightarrow> dw_db w)"
proof (cases "spend w")
  case (Pair b w1)
  then show ?thesis using assms spend_frame [OF Pair]
    by (cases b) (auto simp: table_commit_def table_rollback_def)
qed

lemma table_rolls_back:
  "table_rollback w = (t, w') \<Longrightarrow>
     dw_saved w' = None \<and> dw_db w' = (case dw_saved w of None \<Rightarrow> dw_db w | Some d \<Rightarrow> d)"
  by (auto simp: table_rollback_def split: option.splits)

lemma table_client_simps [simp]:
  "dc_sql table_client = table_sql" "dc_begin table_client = table_begin"
  "dc_commit table_client = table_commit" "dc_rollback table_client = table_rollback"
  "dc_now table_client = dw_now"
  by (simp_all add: table_client_def)

lemma table_uuids: "dc_uuid table_client w = (u, w') \<Longrightarrow> dw_db w' = dw_db w \<and> dw_saved w' = dw_saved w"
  by (auto simp: table_client_def)

interpretation tables: payments_database table_client dw_db dw_saved
  by (rule payments_database.intro, unfold table_client_simps;
      (erule (1) table_sql_main table_sql_trx table_begins table_commits
        | erule table_rolls_back table_uuids))

end
