(* ===== verification/Payments_Service.thy ===== *)
theory Payments_Service
  imports Payments_Store Canonical_Json
begin

text \<open>
  \<open>src/services/payments-service.ts\<close> and \<open>src/app/maintenance-worker.ts\<close>: creating, updating and
  confirming invoices in serializable transactions, the notification of a payment, and the periodic
  check of pending invoices. The payment processor, the event repository and the process are the
  record \<open>payments_env\<close>; the database client is that of \<open>Payments_Store\<close>.
\<close>

section \<open>The services of a payments service\<close>

text \<open>\<open>Invoice | string\<close>, and the request for a new invoice.\<close>

datatype invoice_ref = RefId "string option" | RefInvoice invoice

record invoice_request =
  rq_amount :: int
  rq_description :: string
  rq_requestId :: string

text \<open>
  An object that is merged into another one: which of the keys of \<open>Invoice\<close> it has (a key may be
  present with an undefined value), and its values.
\<close>

datatype invoice_key =
    KId | KPubkey | KBolt11 | KAmountRequested | KAmountPaid | KUnit | KStatus | KDescription
  | KConfirmedAt | KExpiresAt | KUpdatedAt | KCreatedAt | KVerifyURL

type_synonym invoice_object = "invoice_key list \<times> invoice"

text \<open>
  \<open>pe_getInvoice\<close> and \<open>pe_createInvoice\<close> are the configured payments processor, \<open>pe_createEvent\<close> is
  \<open>eventRepository.create\<close>, \<open>pe_sign\<close> the schnorr signature, \<open>pe_send\<close> is \<open>process.send\<close> to the
  primary process (\<open>None\<close> outside a worker), \<open>pe_next_month\<close> the calendar computation
  \<open>new Date(year, month + 1, day)\<close> on a time in milliseconds.
\<close>

record 'w payments_env =
  pe_dc :: "'w db_client"
  pe_getInvoice :: "invoice_ref \<Rightarrow> ('w, invoice_object) task"
  pe_createInvoice :: "invoice_request \<Rightarrow> ('w, invoice) task"
  pe_createEvent :: "nostr_event \<Rightarrow> ('w, nat) task"
  pe_sha256 :: "buffer \<Rightarrow> buffer"
  pe_sign :: "string \<Rightarrow> string \<Rightarrow> ('w, buffer) task"
  pe_send :: "(nostr_event \<Rightarrow> ('w, unit) task) option"
  pe_relayPrivateKey :: "string \<Rightarrow> ('w, string) task"
  pe_publicKey :: "string \<Rightarrow> string"
  pe_next_month :: "int \<Rightarrow> int"

section \<open>PaymentsService\<close>

definition getPendingInvoices :: "'w payments_env \<Rightarrow> ('w, invoice list) task" where
  "getPendingInvoices env = findPendingInvoices (pe_dc env) MainClient 0 10"

text \<open>\<open>typeof invoice === 'string' || invoice?.verifyURL ? invoice : invoice.id\<close>.\<close>

fun processor_ref :: "invoice_ref \<Rightarrow> invoice_ref" where
  "processor_ref (RefId i) = RefId i"
| "processor_ref (RefInvoice invoice) =
     (case iv_verifyURL invoice of
        None \<Rightarrow> RefId (iv_id invoice)
      | Some url \<Rightarrow> if url = [] then RefId (iv_id invoice) else RefInvoice invoice)"

definition getInvoiceFromPaymentsProcessor ::
    "'w payments_env \<Rightarrow> invoice_ref \<Rightarrow> ('w, invoice_object) task" where
  "getInvoiceFromPaymentsProcessor env invoice = pe_getInvoice env (processor_ref invoice)"

text \<open>The \<open>catch\<close> of both transactions: roll back, then throw the error again. Rolling back before
  \<open>begin\<close> throws itself.\<close>

definition rollback_and_throw :: "'w db_client \<Rightarrow> bool \<Rightarrow> exn \<Rightarrow> ('w, 'a) task" where
  "rollback_and_throw dc started x = await (trx_rollback dc started) (\<lambda>_. throwing x)"

definition in_transaction :: "'w db_client \<Rightarrow> ('w, 'a) task \<Rightarrow> ('w, 'a) task" where
  "in_transaction dc body w =
     (case dc_begin dc w of
        (Inl x, w1) \<Rightarrow> rollback_and_throw dc False x w1
      | (Inr _, w1) \<Rightarrow>
          catching (await body (\<lambda>a. await (trx_commit dc True) (\<lambda>_. returning a)))
            (rollback_and_throw dc True) w1)"

definition createInvoice :: "'w payments_env \<Rightarrow> string \<Rightarrow> int \<Rightarrow> string \<Rightarrow> ('w, invoice) task" where
  "createInvoice env pubkey amount description =
     in_transaction (pe_dc env)
       (await (user_upsert (pe_dc env) TrxClient pubkey None None) (\<lambda>_.
        await (pe_createInvoice env \<lparr>rq_amount = amount, rq_description = description, rq_requestId = pubkey\<rparr>)
          (\<lambda>invoiceResponse.
        await (reading (dc_now (pe_dc env))) (\<lambda>date.
        await (invoice_upsert (pe_dc env) TrxClient
            (invoiceResponse\<lparr>iv_pubkey := Some pubkey, iv_amountPaid := None, iv_confirmedAt := None,
               iv_updatedAt := Some date, iv_createdAt := Some date\<rparr>)) (\<lambda>_.
        returning (invoiceResponse\<lparr>iv_pubkey := Some pubkey, iv_description := Some description,
            iv_amountPaid := None, iv_confirmedAt := None, iv_updatedAt := Some date\<rparr>))))))"

definition updateInvoiceStatus ::
    "'w payments_env \<Rightarrow> string option \<Rightarrow> invoice_status option \<Rightarrow> ('w, invoice option) task" where
  "updateInvoiceStatus env i status = updateStatus (pe_dc env) MainClient i status"

definition updateInvoice :: "'w payments_env \<Rightarrow> invoice \<Rightarrow> ('w, unit) task" where
  "updateInvoice env invoice =
     await (updateStatus (pe_dc env) MainClient (iv_id invoice) (iv_status invoice)) (\<lambda>_. returning ())"

subsection \<open>confirmInvoice\<close>

text \<open>The amount in millisatoshis as \<open>confirmInvoice\<close> computes it.\<close>

fun amount_msat :: "invoice_unit option \<Rightarrow> int \<Rightarrow> int" where
  "amount_msat (Some SATS) amount = amount * 1000"
| "amount_msat (Some BTC) amount = amount * (1000 * 100000000)"
| "amount_msat _ amount = amount"

text \<open>\<open>isApplicableFee\<close>: an undefined public key has no \<open>startsWith\<close>.\<close>

definition payer_fee_applies :: "string option \<Rightarrow> fee_schedule \<Rightarrow> bool result" where
  "payer_fee_applies pubkey fee =
     (if \<not> fs_enabled fee then Inr False
      else case (case fs_whitelists fee of None \<Rightarrow> None | Some wl \<Rightarrow> fw_pubkeys wl) of
             None \<Rightarrow> Inr True
           | Some [] \<Rightarrow> Inr True
           | Some ps \<Rightarrow>
               (case pubkey of
                  None \<Rightarrow> Inl (type_error ''Cannot read properties of undefined (reading 'startsWith')'')
                | Some pk \<Rightarrow> Inr (\<not> list_ex (starts_with pk) ps)))"

definition admission_schedules :: "relay_settings \<Rightarrow> fee_schedule list" where
  "admission_schedules st =
     (case st_payments st of None \<Rightarrow> [] | Some p \<Rightarrow> (case pay_admission p of None \<Rightarrow> [] | Some fs \<Rightarrow> fs))"

fun admission_fee_loop :: "string option \<Rightarrow> int \<Rightarrow> fee_schedule list \<Rightarrow> int result" where
  "admission_fee_loop pubkey acc [] = Inr acc"
| "admission_fee_loop pubkey acc (fee # fees) =
     (case payer_fee_applies pubkey fee of
        Inl x \<Rightarrow> Inl x
      | Inr b \<Rightarrow> admission_fee_loop pubkey (acc + (if b then fs_amount fee else 0)) fees)"

definition admissionFeeAmount :: "relay_settings \<Rightarrow> string option \<Rightarrow> int result" where
  "admissionFeeAmount st pubkey = admission_fee_loop pubkey 0 (admission_schedules st)"

text \<open>What happens after the stored function has run.\<close>

definition admit_payer ::
    "'w payments_env \<Rightarrow> relay_settings \<Rightarrow> string option \<Rightarrow> int \<Rightarrow> ('w, unit) task" where
  "admit_payer env st pubkey amountPaidMsat =
     (case admissionFeeAmount st pubkey of
        Inl x \<Rightarrow> throwing x
      | Inr fee \<Rightarrow>
          if fee > 0 \<and> amountPaidMsat \<ge> fee
          then await (reading (dc_now (pe_dc env))) (\<lambda>date.
                 case pubkey of
                   None \<Rightarrow> throwing (type_error ''The first argument must be of type string'')
                 | Some pk \<Rightarrow>
                     await (user_upsert (pe_dc env) TrxClient pk (Some True) (Some date)) (\<lambda>_. returning ()))
          else returning ())"

definition confirmInvoice :: "'w payments_env \<Rightarrow> relay_settings \<Rightarrow> invoice \<Rightarrow> ('w, unit) task" where
  "confirmInvoice env st invoice =
     (case iv_confirmedAt invoice of
        None \<Rightarrow> rollback_and_throw (pe_dc env) False (plain_error ''Invoice confirmation date is not set'')
      | Some confirmedAt \<Rightarrow>
          if iv_status invoice \<noteq> Some COMPLETED
          then rollback_and_throw (pe_dc env) False (plain_error (''Invoice is not complete: '' @
                 (case iv_status invoice of None \<Rightarrow> ''undefined'' | Some s \<Rightarrow> status_name s)))
          else
            case iv_amountPaid invoice of
              None \<Rightarrow> rollback_and_throw (pe_dc env) False
                       (plain_error ''Invoice paid amount is not set: undefined'')
            | Some amountPaid \<Rightarrow>
                in_transaction (pe_dc env)
                  (await (invoice_confirm (pe_dc env) TrxClient (iv_id invoice) amountPaid confirmedAt) (\<lambda>_.
                     admit_payer env st (iv_pubkey invoice) (amount_msat (iv_unit invoice) amountPaid))))"

subsection \<open>sendInvoiceUpdateNotification\<close>

text \<open>Division of \<open>bigint\<close>s truncates towards zero.\<close>

definition bigint_div :: "int \<Rightarrow> int \<Rightarrow> int" where
  "bigint_div a b = (if a \<ge> 0 then a div b else - ((- a) div b))"

definition notified_amount :: "invoice_unit option \<Rightarrow> int \<Rightarrow> int" where
  "notified_amount unit amount = (if unit = Some MSATS then bigint_div amount 1000 else amount)"

definition notified_unit :: "invoice_unit option \<Rightarrow> string" where
  "notified_unit unit =
     (case unit of None \<Rightarrow> ''undefined'' | Some MSATS \<Rightarrow> ''sats'' | Some u \<Rightarrow> unit_name u)"

text \<open>The type of the source makes \<open>pubkey\<close> and \<open>bolt11\<close> strings.\<close>

definition string_or_empty :: "string option \<Rightarrow> string" where
  "string_or_empty s = (case s of None \<Rightarrow> '''' | Some x \<Rightarrow> x)"

definition invoice_event :: "'w payments_env \<Rightarrow> string \<Rightarrow> invoice \<Rightarrow> int \<Rightarrow> int \<Rightarrow> nostr_event" where
  "invoice_event env relayPubkey invoice amount now =
     (let expiration = pe_next_month env now in
      \<lparr>ev_id = '''', ev_pubkey = relayPubkey, ev_created_at = now div 1000,
       ev_kind = kind_number INVOICE_UPDATE,
       ev_tags = [[tag_name PubkeyTag, string_or_empty (iv_pubkey invoice)],
                  [tag_name InvoiceTag, string_or_empty (iv_bolt11 invoice)],
                  [tag_name ExpirationTag, int_to_string (expiration div 1000)]],
       ev_sig = '''',
       ev_content = ''Invoice paid: '' @ int_to_string (notified_amount (iv_unit invoice) amount) @ '' '' @
         notified_unit (iv_unit invoice),
       ev_context = None, ev_expiration = Some (expiration div 1000), ev_dedup = None\<rparr>)"

definition signEvent :: "'w payments_env \<Rightarrow> string \<Rightarrow> nostr_event \<Rightarrow> ('w, nostr_event) task" where
  "signEvent env privkey e =
     await (pe_sign env (ev_id e) privkey) (\<lambda>sig. returning (e\<lparr>ev_sig := fromBuffer sig\<rparr>))"

definition broadcastEvent :: "'w payments_env \<Rightarrow> nostr_event \<Rightarrow> ('w, nostr_event) task" where
  "broadcastEvent env e =
     (case pe_send env of None \<Rightarrow> returning e | Some send \<Rightarrow> await (send e) (\<lambda>_. returning e))"

definition sendInvoiceUpdateNotification ::
    "'w payments_env \<Rightarrow> relay_settings \<Rightarrow> invoice \<Rightarrow> ('w, unit) task" where
  "sendInvoiceUpdateNotification env st invoice =
     await (pe_relayPrivateKey env (st_relay_url st)) (\<lambda>relayPrivkey.
       case iv_amountPaid invoice of
         None \<Rightarrow> throwing (plain_error (''Unable to notify user '' @ string_or_empty (iv_pubkey invoice) @
                   '' for invoice '' @ string_or_empty (iv_id invoice)))
       | Some amount \<Rightarrow>
           await (reading (dc_now (pe_dc env))) (\<lambda>now.
             catching
               (await (signEvent env relayPrivkey (identifyEvent (pe_sha256 env)
                   (invoice_event env (pe_publicKey env relayPrivkey) invoice amount now))) (\<lambda>event.
                await (pe_createEvent env event) (\<lambda>_.
                await (broadcastEvent env event) (\<lambda>_. returning ()))))
               (\<lambda>_. returning ())))"

section \<open>MaintenanceWorker\<close>

text \<open>Ramda's \<open>mergeDeepLeft\<close> on invoices, whose values are no plain objects.\<close>

fun take_key :: "invoice_key \<Rightarrow> invoice \<Rightarrow> invoice \<Rightarrow> invoice" where
  "take_key KId l r = r\<lparr>iv_id := iv_id l\<rparr>"
| "take_key KPubkey l r = r\<lparr>iv_pubkey := iv_pubkey l\<rparr>"
| "take_key KBolt11 l r = r\<lparr>iv_bolt11 := iv_bolt11 l\<rparr>"
| "take_key KAmountRequested l r = r\<lparr>iv_amountRequested := iv_amountRequested l\<rparr>"
| "take_key KAmountPaid l r = r\<lparr>iv_amountPaid := iv_amountPaid l\<rparr>"
| "take_key KUnit l r = r\<lparr>iv_unit := iv_unit l\<rparr>"
| "take_key KStatus l r = r\<lparr>iv_status := iv_status l\<rparr>"
| "take_key KDescription l r = r\<lparr>iv_description := iv_description l\<rparr>"
| "take_key KConfirmedAt l r = r\<lparr>iv_confirmedAt := iv_confirmedAt l\<rparr>"
| "take_key KExpiresAt l r = r\<lparr>iv_expiresAt := iv_expiresAt l\<rparr>"
| "take_key KUpdatedAt l r = r\<lparr>iv_updatedAt := iv_updatedAt l\<rparr>"
| "take_key KCreatedAt l r = r\<lparr>iv_createdAt := iv_createdAt l\<rparr>"
| "take_key KVerifyURL l r = r\<lparr>iv_verifyURL := iv_verifyURL l\<rparr>"

definition mergeDeepLeft :: "invoice_object \<Rightarrow> invoice \<Rightarrow> invoice" where
  "mergeDeepLeft l r = fold (\<lambda>k. take_key k (snd l)) (fst l) r"

text \<open>\<open>Promise.all([m, n])\<close>: both run to their end, whatever becomes of the other.\<close>

definition both :: "('w, unit) task \<Rightarrow> ('w, unit) task \<Rightarrow> ('w, unit) task" where
  "both m n w =
     (case m w of (r1, w1) \<Rightarrow>
       (case n w1 of (r2, w2) \<Rightarrow> (case r1 of Inl x \<Rightarrow> Inl x | Inr _ \<Rightarrow> r2, w2)))"

definition merged_update :: "invoice_object \<Rightarrow> invoice \<Rightarrow> invoice" where
  "merged_update updatedInvoice invoice =
     mergeDeepLeft ([KAmountPaid], no_invoice\<lparr>iv_amountPaid := iv_amountRequested invoice\<rparr>)
       (mergeDeepLeft updatedInvoice invoice)"

text \<open>The body of the loop; the value tells whether the invoice counts as successful.\<close>

definition schedule_one :: "'w payments_env \<Rightarrow> relay_settings \<Rightarrow> invoice \<Rightarrow> ('w, bool) task" where
  "schedule_one env st invoice =
     catching
       (await (getInvoiceFromPaymentsProcessor env (RefInvoice invoice)) (\<lambda>(keys, updatedInvoice).
          if iv_id updatedInvoice = None \<or> iv_status updatedInvoice = None then returning False
          else
            await (updateInvoiceStatus env (iv_id updatedInvoice) (iv_status updatedInvoice)) (\<lambda>_.
            await (if iv_status invoice \<noteq> iv_status updatedInvoice \<and>
                      iv_status updatedInvoice = Some COMPLETED \<and> iv_confirmedAt updatedInvoice \<noteq> None
                   then both (confirmInvoice env st (merged_update (keys, updatedInvoice) invoice))
                          (sendInvoiceUpdateNotification env st (merged_update (keys, updatedInvoice) invoice))
                   else returning ()) (\<lambda>_.
            returning True))))
       (\<lambda>_. returning False)"

fun schedule_loop :: "'w payments_env \<Rightarrow> relay_settings \<Rightarrow> nat \<Rightarrow> invoice list \<Rightarrow> ('w, nat) task" where
  "schedule_loop env st successful [] = returning successful"
| "schedule_loop env st successful (invoice # invoices) =
     await (schedule_one env st invoice) (\<lambda>ok.
       schedule_loop env st (if ok then Suc successful else successful) invoices)"

text \<open>The value is the number logged at the end.\<close>

definition onSchedule :: "'w payments_env \<Rightarrow> relay_settings \<Rightarrow> ('w, nat) task" where
  "onSchedule env st =
     (if \<not> (case st_payments st of None \<Rightarrow> False | Some p \<Rightarrow> pay_enabled p) then returning 0
      else await (getPendingInvoices env) (schedule_loop env st 0))"

section \<open>The effect of a payment\<close>

text \<open>Whether the payment covers the admission fee, and what confirming it does to the tables.\<close>

definition fee_paid :: "relay_settings \<Rightarrow> invoice \<Rightarrow> bool" where
  "fee_paid st invoice =
     (case (admissionFeeAmount st (iv_pubkey invoice), iv_amountPaid invoice) of
        (Inr fee, Some amount) \<Rightarrow> fee > 0 \<and> amount_msat (iv_unit invoice) amount \<ge> fee
      | _ \<Rightarrow> False)"

definition admit :: "string \<Rightarrow> int \<Rightarrow> int \<Rightarrow> payments_db \<Rightarrow> payments_db" where
  "admit pk tos date d = d\<lparr>pd_users := upsert_user \<lparr>ui_pubkey = toBuffer pk, ui_is_admitted = Some True,
     ui_tos_accepted_at = Some tos, ui_updated_at = date, ui_created_at = date\<rparr> (pd_users d)\<rparr>"

definition payment_effect :: "relay_settings \<Rightarrow> invoice \<Rightarrow> payments_db \<Rightarrow> payments_db \<Rightarrow> bool" where
  "payment_effect st invoice d d' \<longleftrightarrow>
     iv_status invoice = Some COMPLETED \<and>
     (\<exists>key amount confirmedAt now d1.
        iv_id invoice = Some key \<and> iv_amountPaid invoice = Some amount \<and>
        iv_confirmedAt invoice = Some confirmedAt \<and>
        confirm_invoice key amount confirmedAt now d = Some d1 \<and>
        (if fee_paid st invoice then \<exists>pk tos date. iv_pubkey invoice = Some pk \<and> d' = admit pk tos date d1 else d' = d1))"

lemma payment_effect_ledger:
  assumes "ledger_ok d" and "payment_effect st invoice d d'"
  shows "ledger_ok d'"
  using assms confirm_invoice_ledger upsert_user_ledger
  by (auto simp: payment_effect_def admit_def split: if_splits)

definition create_effect :: "string \<Rightarrow> payments_db \<Rightarrow> payments_db \<Rightarrow> bool" where
  "create_effect pk d d' \<longleftrightarrow>
     (\<exists>i date invoices. ii_pubkey i = toBuffer pk \<and> upsert_invoice i (pd_invoices d) = Some invoices \<and>
        d' = d\<lparr>pd_users := upsert_user \<lparr>ui_pubkey = toBuffer pk, ui_is_admitted = None,
               ui_tos_accepted_at = None, ui_updated_at = date, ui_created_at = date\<rparr> (pd_users d),
             pd_invoices := invoices\<rparr>)"

lemma create_effect_ledger:
  assumes "ledger_ok d" and "create_effect pk d d'"
  shows "ledger_ok d'"
proof -
  obtain i u invoices where i: "ii_pubkey i = toBuffer pk" "upsert_invoice i (pd_invoices d) = Some invoices"
      "ui_pubkey u = toBuffer pk" "d' = d\<lparr>pd_users := upsert_user u (pd_users d), pd_invoices := invoices\<rparr>"
    using assms(2) unfolding create_effect_def by (metis user_insert.select_convs(1))
  let ?d1 = "d\<lparr>pd_users := upsert_user u (pd_users d)\<rparr>"
  have "ii_pubkey i \<in> ur_pubkey ` set (pd_users ?d1)"
    unfolding set_map [symmetric] by (simp add: upsert_user_keys i del: set_map) (auto simp: i)
  then show ?thesis
    using upsert_invoice_ledger [OF upsert_user_ledger [OF assms(1), of u], of i invoices] i by simp
qed

section \<open>Admission\<close>

definition is_admitted :: "payments_db \<Rightarrow> buffer \<Rightarrow> bool" where
  "is_admitted d pk \<longleftrightarrow> list_ex (\<lambda>u. ur_pubkey u = pk \<and> ur_is_admitted u) (pd_users d)"

lemma upsert_user_admitted:
  assumes "is_admitted (d\<lparr>pd_users := upsert_user i (pd_users d)\<rparr>) pk"
  shows "is_admitted d pk \<or> (ui_pubkey i = pk \<and> ui_is_admitted i = Some True)"
  using assms
  by (auto simp: is_admitted_def list_ex_iff upsert_user_def merge_user_row_def new_user_row_def
      split: if_splits option.splits)

lemma credit_user_admitted:
  "list_ex (\<lambda>u. ur_pubkey u = pk \<and> ur_is_admitted u) (credit_user p m us) =
     list_ex (\<lambda>u. ur_pubkey u = pk \<and> ur_is_admitted u) us"
  by (induction us) (auto simp: credit_user_def)

lemma update_invoice_users:
  "statement_outcome (UpdateInvoice key st now) d a d' \<Longrightarrow> pd_users d' = pd_users d"
  by (cases key) (auto simp: statement_outcome_def Let_def)

lemma confirm_invoice_admitted: "confirm_invoice key amount date now d = Some d' \<Longrightarrow> is_admitted d' pk = is_admitted d pk"
  by (erule confirm_invoice_cases) (simp_all add: is_admitted_def credit_user_admitted)

lemma payment_effect_admitted:
  assumes "payment_effect st invoice d d'" "is_admitted d' pk"
  shows "is_admitted d pk \<or> (iv_status invoice = Some COMPLETED \<and> fee_paid st invoice \<and>
    (\<exists>p. iv_pubkey invoice = Some p \<and> toBuffer p = pk))"
  using assms confirm_invoice_admitted
  by (auto simp: payment_effect_def admit_def split: if_splits dest!: upsert_user_admitted)

lemma create_effect_admitted:
  assumes "create_effect p d d'" "is_admitted d' pk"
  shows "is_admitted d pk"
proof -
  obtain u invoices where u: "ui_is_admitted u = None"
      "d' = d\<lparr>pd_users := upsert_user u (pd_users d), pd_invoices := invoices\<rparr>"
    using assms(1) unfolding create_effect_def by (metis user_insert.select_convs(2))
  have "is_admitted (d\<lparr>pd_users := upsert_user u (pd_users d)\<rparr>) pk"
    using assms(2) u(2) by (simp add: is_admitted_def)
  then show ?thesis using upsert_user_admitted u(1) by fastforce
qed

section \<open>One invoice among others\<close>

definition row_of :: "string \<Rightarrow> payments_db \<Rightarrow> invoice_row option" where
  "row_of key d = List.find (\<lambda>r. ir_id r = key) (pd_invoices d)"

lemma find_update_other:
  assumes "k \<noteq> key" "\<And>r. ir_id (g r) = ir_id r"
  shows "List.find (\<lambda>r. ir_id r = key) (map (\<lambda>r. if ir_id r = k then g r else r) rs) =
    List.find (\<lambda>r. ir_id r = key) rs"
  using assms by (induction rs) auto

lemma confirm_invoice_other:
  "confirm_invoice k amount date now d = Some d' \<Longrightarrow> k \<noteq> key \<Longrightarrow> row_of key d' = row_of key d"
  by (erule confirm_invoice_cases) (simp_all add: row_of_def find_update_other)

lemma payment_effect_other:
  assumes "payment_effect st invoice d d'" "iv_id invoice \<noteq> Some key"
  shows "row_of key d' = row_of key d"
proof -
  obtain k amount date now d1 where "iv_id invoice = Some k" "confirm_invoice k amount date now d = Some d1"
      "pd_invoices d' = pd_invoices d1"
    using assms(1) by (auto simp: payment_effect_def admit_def split: if_splits)
  then show ?thesis using confirm_invoice_other assms(2) by (simp add: row_of_def)
qed

lemma update_invoice_other:
  "statement_outcome (UpdateInvoice (Some k) st now) d a d' \<Longrightarrow> k \<noteq> key \<Longrightarrow> row_of key d' = row_of key d"
  by (auto simp: statement_outcome_def Let_def row_of_def find_update_other)

lemma merged_id:
  assumes "iv_id u = iv_id invoice"
  shows "iv_id (merged_update (ks, u) invoice) = iv_id invoice"
proof -
  have take: "iv_id (take_key k l r) = (if k = KId then iv_id l else iv_id r)" for k l r
    by (cases k) simp_all
  have "iv_id (fold (\<lambda>k. take_key k u) ks r) = iv_id invoice" if "iv_id r = iv_id invoice" for r
    using that by (induction ks arbitrary: r) (simp_all add: take assms)
  then show ?thesis by (simp add: merged_update_def mergeDeepLeft_def)
qed

section \<open>Sequences of service calls\<close>

datatype service_call =
    ServiceCreate string int string
  | ServiceUpdate invoice
  | ServiceUpdateStatus "string option" "invoice_status option"
  | ServiceConfirm invoice
  | ServiceNotify invoice
  | ServiceSchedule

fun run_call :: "'w payments_env \<Rightarrow> relay_settings \<times> service_call \<Rightarrow> 'w \<Rightarrow> 'w" where
  "run_call env (st, ServiceCreate pk amount description) w = snd (createInvoice env pk amount description w)"
| "run_call env (st, ServiceUpdate i) w = snd (updateInvoice env i w)"
| "run_call env (st, ServiceUpdateStatus key status) w = snd (updateInvoiceStatus env key status w)"
| "run_call env (st, ServiceConfirm i) w = snd (confirmInvoice env st i w)"
| "run_call env (st, ServiceNotify i) w = snd (sendInvoiceUpdateNotification env st i w)"
| "run_call env (st, ServiceSchedule) w = snd (onSchedule env st w)"

definition run_calls :: "'w payments_env \<Rightarrow> (relay_settings \<times> service_call) list \<Rightarrow> 'w \<Rightarrow> 'w" where
  "run_calls env calls w = fold (run_call env) calls w"

text \<open>The call that admits a user is a confirmation of a payment that covers the fee.\<close>

definition admitting :: "relay_settings \<times> service_call \<Rightarrow> buffer \<Rightarrow> bool" where
  "admitting c pk \<longleftrightarrow> (\<exists>st invoice p. c = (st, ServiceConfirm invoice) \<and> iv_status invoice = Some COMPLETED \<and>
     fee_paid st invoice \<and> iv_pubkey invoice = Some p \<and> toBuffer p = pk)"

lemma keeps_both [inv_intros]: "keeps p m \<Longrightarrow> keeps p n \<Longrightarrow> keeps p (both m n)"
  by (rule keepsI) (auto simp: both_def split: prod.splits dest: keepsD)

section \<open>What the service relies on\<close>

text \<open>The other services do not touch the tables of users and invoices.\<close>

locale payments_backend = payments_database "pe_dc env" db saved
  for env :: "'w payments_env" and db saved +
  assumes others: "frames (\<lambda>w. (db w, saved w)) (pe_getInvoice env ref)"
    "frames (\<lambda>w. (db w, saved w)) (pe_createInvoice env request)"
    "frames (\<lambda>w. (db w, saved w)) (pe_createEvent env event)"
    "frames (\<lambda>w. (db w, saved w)) (pe_sign env i key)"
    "frames (\<lambda>w. (db w, saved w)) (pe_relayPrivateKey env url)"
    and sends: "pe_send env = Some send \<Longrightarrow> frames (\<lambda>w. (db w, saved w)) (send event)"
begin

lemma notification_frames:
  "frames (\<lambda>w. (db w, saved w)) (sendInvoiceUpdateNotification env st invoice)"
proof -
  have broadcast: "frames (\<lambda>w. (db w, saved w)) (broadcastEvent env e)" for e
    unfolding broadcastEvent_def by (cases "pe_send env") (simp_all add: inv_intros sends)
  have sign: "frames (\<lambda>w. (db w, saved w)) (signEvent env k e)" for k e
    unfolding signEvent_def by (intro inv_intros others)
  show ?thesis unfolding sendInvoiceUpdateNotification_def
    by (intro inv_intros others broadcast sign)
qed

lemma frames_settled:
  "frames (\<lambda>w. (db w, saved w)) m \<Longrightarrow> keeps settled m"
  by (rule frames_keeps) (auto simp: settled_def)

text \<open>A transaction: it starts from the saved tables, and either its body's result is committed or
  the tables are as they were.\<close>

lemma transaction_triple:
  assumes "triple (\<lambda>w. saved w = Some d \<and> db w = d) body (\<lambda>a w. saved w = Some d \<and> q a (db w))
    (\<lambda>_ w. saved w = Some d)"
  shows "triple (\<lambda>w. saved w = None \<and> db w = d) (in_transaction (pe_dc env) body)
    (\<lambda>a w. saved w = None \<and> q a (db w)) (\<lambda>_ w. saved w = None \<and> db w = d)"
proof -
  let ?dc = "pe_dc env"
  have rb: "triple (\<lambda>w. (saved w = Some d) \<or> (saved w = None \<and> db w = d)) (rollback_and_throw ?dc True x) q'
      (\<lambda>_ w. saved w = None \<and> db w = d)" for x :: exn and q' :: "'b \<Rightarrow> 'w \<Rightarrow> bool"
    unfolding rollback_and_throw_def trx_rollback_def
    by (rule tripleI) (auto simp: await_Inr await_Inl dest!: rolls_back)
  have commit: "triple (\<lambda>w. saved w = Some d \<and> q a (db w)) (await (trx_commit ?dc True) (\<lambda>_. returning a))
      (\<lambda>a w. saved w = None \<and> q a (db w)) (\<lambda>_ w. saved w = Some d \<or> (saved w = None \<and> db w = d))" for a
    unfolding trx_commit_def
    by (rule tripleI) (auto simp: await_Inr await_Inl dest!: commits)
  have inner: "triple (\<lambda>w. saved w = Some d \<and> db w = d)
      (catching (await body (\<lambda>a. await (trx_commit ?dc True) (\<lambda>_. returning a))) (rollback_and_throw ?dc True))
      (\<lambda>a w. saved w = None \<and> q a (db w)) (\<lambda>_ w. saved w = None \<and> db w = d)"
    by (rule triple_catching [OF triple_await [OF _ commit] rb])
       (rule triple_weaken [OF assms]; simp)
  have run: "in_transaction ?dc body w = (case dc_begin ?dc w of
      (Inl x, w1) \<Rightarrow> (Inl not_started, w1)
    | (Inr _, w1) \<Rightarrow> catching (await body (\<lambda>a. await (trx_commit ?dc True) (\<lambda>_. returning a)))
        (rollback_and_throw ?dc True) w1)" for w
    by (simp add: in_transaction_def rollback_and_throw_def trx_rollback_def split: prod.splits sum.splits)
  show ?thesis
  proof (rule tripleI; elim conjE)
    fix w a w' assume w: "saved w = None" "db w = d" and r: "in_transaction ?dc body w = (Inr a, w')"
    obtain u w1 where t: "dc_begin ?dc w = (Inr u, w1)"
      using r by (auto simp: run split: prod.splits sum.splits)
    then show "saved w' = None \<and> q a (db w')"
      using triple_Inr [OF inner, of w1] begins [OF w(1) t] r w by (simp add: run)
  next
    fix w x w' assume w: "saved w = None" "db w = d" and r: "in_transaction ?dc body w = (Inl x, w')"
    obtain t w1 where t: "dc_begin ?dc w = (t, w1)" by (metis prod.collapse)
    show "saved w' = None \<and> db w' = d"
    proof (cases t)
      case (Inl y)
      then show ?thesis using begins [OF w(1) t] r w t by (simp add: run)
    next
      case (Inr u)
      then show ?thesis using triple_Inl [OF inner, of w1] begins [OF w(1) t] r w t by (simp add: run)
    qed
  qed
qed

text \<open>The statements of the two transactions.\<close>

lemma trx_other:
  assumes "frames (\<lambda>w. (db w, saved w)) m"
  shows "triple (\<lambda>w. saved w = Some d \<and> p (db w)) m (\<lambda>_ w. saved w = Some d \<and> p (db w))
    (\<lambda>_ w. saved w = Some d)"
  using framesD [OF assms] by (intro tripleI) auto

lemma trx_confirm:
  "triple (\<lambda>w. saved w = Some d \<and> p (db w)) (invoice_confirm (pe_dc env) TrxClient key amount date)
     (\<lambda>_ w. saved w = Some d \<and> (\<exists>k now x. p x \<and> key = Some k \<and> confirm_invoice k amount date now x = Some (db w)))
     (\<lambda>_ w. saved w = Some d)"
proof (cases key)
  case None
  then show ?thesis unfolding invoice_confirm_def by (auto intro!: triple_throwing)
next
  case (Some k)
  have stmt: "triple (\<lambda>w. saved w = Some d \<and> p (db w)) (dc_sql (pe_dc env) TrxClient (ConfirmInvoice k amount date now))
      (\<lambda>_ w. saved w = Some d \<and> (\<exists>now x. p x \<and> confirm_invoice k amount date now x = Some (db w)))
      (\<lambda>_ w. saved w = Some d)" for now
    by (rule trx_statement) (auto simp: statement_outcome_def)
  show ?thesis unfolding invoice_confirm_def Some option.case
    by (rule triple_await [OF triple_reading], assumption, rule triple_await [OF stmt triple_returning]) auto
qed

lemma trx_user:
  "triple (\<lambda>w. saved w = Some d \<and> p (db w)) (user_upsert (pe_dc env) TrxClient pk admitted tos)
     (\<lambda>_ w. saved w = Some d \<and> (\<exists>date x. p x \<and> db w = x\<lparr>pd_users := upsert_user \<lparr>ui_pubkey = toBuffer pk,
        ui_is_admitted = admitted, ui_tos_accepted_at = tos, ui_updated_at = date, ui_created_at = date\<rparr>
        (pd_users x)\<rparr>))
     (\<lambda>_ w. saved w = Some d)"
proof -
  have stmt: "triple (\<lambda>w. saved w = Some d \<and> p (db w))
      (dc_sql (pe_dc env) TrxClient (UpsertUser \<lparr>ui_pubkey = toBuffer pk,
        ui_is_admitted = admitted, ui_tos_accepted_at = tos, ui_updated_at = date, ui_created_at = date\<rparr>))
      (\<lambda>_ w. saved w = Some d \<and> (\<exists>date x. p x \<and> db w = x\<lparr>pd_users := upsert_user \<lparr>ui_pubkey = toBuffer pk,
        ui_is_admitted = admitted, ui_tos_accepted_at = tos, ui_updated_at = date, ui_created_at = date\<rparr>
        (pd_users x)\<rparr>))
      (\<lambda>_ w. saved w = Some d)" for date
    by (rule trx_statement) (auto simp: statement_outcome_def)
  show ?thesis unfolding user_upsert_def
    by (rule triple_await [OF triple_reading], assumption, rule triple_await [OF stmt triple_returning]) auto
qed

lemma trx_invoice:
  assumes "iv_pubkey invoice = Some pk"
  shows "triple (\<lambda>w. saved w = Some d \<and> p (db w)) (invoice_upsert (pe_dc env) TrxClient invoice)
     (\<lambda>_ w. saved w = Some d \<and> (\<exists>i x is. p x \<and> ii_pubkey i = toBuffer pk \<and>
        upsert_invoice i (pd_invoices x) = Some is \<and> db w = x\<lparr>pd_invoices := is\<rparr>))
     (\<lambda>_ w. saved w = Some d)"
proof -
  have stmt: "triple (\<lambda>w. saved w = Some d \<and> p (db w)) (dc_sql (pe_dc env) TrxClient (UpsertInvoice i))
      (\<lambda>_ w. saved w = Some d \<and> (\<exists>i x is. p x \<and> ii_pubkey i = toBuffer pk \<and>
        upsert_invoice i (pd_invoices x) = Some is \<and> db w = x\<lparr>pd_invoices := is\<rparr>))
      (\<lambda>_ w. saved w = Some d)" if "ii_pubkey i = toBuffer pk" for i
    using that by (intro trx_statement) (auto simp: statement_outcome_def)
  have uuid: "triple (\<lambda>w. saved w = Some d \<and> p (db w)) (dc_uuid (pe_dc env))
      (\<lambda>_ w. saved w = Some d \<and> p (db w)) (\<lambda>_ w. saved w = Some d)"
    by (intro tripleI) (auto dest: uuids)
  show ?thesis unfolding invoice_upsert_def assms option.case
    by (rule triple_await [OF uuid], rule triple_await [OF triple_reading], assumption,
        rule triple_await [OF stmt triple_returning]) auto
qed

text \<open>The effects of the two transactions.\<close>

lemma confirm_triple:
  "triple (\<lambda>w. saved w = None \<and> db w = d) (confirmInvoice env st invoice)
     (\<lambda>_ w. saved w = None \<and> payment_effect st invoice d (db w)) (\<lambda>_ w. saved w = None \<and> db w = d)"
proof -
  have early: "triple (\<lambda>w. saved w = None \<and> db w = d) (rollback_and_throw (pe_dc env) False x)
      q (\<lambda>_ w. saved w = None \<and> db w = d)" for x and q :: "unit \<Rightarrow> 'w \<Rightarrow> bool"
    by (simp add: rollback_and_throw_def trx_rollback_def triple_def)
  have admission: "triple (\<lambda>w. saved w = Some d \<and> (\<exists>k now x. x = d \<and> key = Some k \<and>
        confirm_invoice k amount date now x = Some (db w)))
      (admit_payer env st (iv_pubkey invoice) (amount_msat (iv_unit invoice) amount))
      (\<lambda>_ w. saved w = Some d \<and> payment_effect st invoice d (db w)) (\<lambda>_ w. saved w = Some d)"
    if inv: "iv_status invoice = Some COMPLETED" "iv_id invoice = key" "iv_amountPaid invoice = Some amount"
      "iv_confirmedAt invoice = Some date" for key amount date
  proof (cases "admissionFeeAmount st (iv_pubkey invoice)")
    case (Inl x)
    then show ?thesis by (auto simp: admit_payer_def intro!: triple_throwing)
  next
    case fee: (Inr fee)
    show ?thesis
    proof (cases "fee > 0 \<and> amount_msat (iv_unit invoice) amount \<ge> fee")
      case False
      then have "\<not> fee_paid st invoice" by (auto simp: fee_paid_def fee inv)
      then show ?thesis using False
        by (auto simp: admit_payer_def fee payment_effect_def inv intro!: triple_returning)
    next
      case True
      then have paid: "fee_paid st invoice" by (simp add: fee_paid_def fee inv)
      show ?thesis
      proof (cases "iv_pubkey invoice")
        case None
        have "admissionFeeAmount st None = Inr fee" using fee None by simp
        then show ?thesis unfolding admit_payer_def None option.case using True
          by (simp only: if_True simp_thms sum.case)
             (rule triple_await [OF triple_reading], assumption, rule triple_throwing, simp)
      next
        case (Some pk)
        let ?p = "\<lambda>x. \<exists>k now. key = Some k \<and> confirm_invoice k amount date now d = Some x"
        have effect: "payment_effect st invoice d (db w)" if "\<exists>t x. ?p x \<and> db w = x\<lparr>pd_users := upsert_user
            \<lparr>ui_pubkey = toBuffer pk, ui_is_admitted = Some True, ui_tos_accepted_at = Some t',
               ui_updated_at = t, ui_created_at = t\<rparr> (pd_users x)\<rparr>" for w t'
          using that Some paid inv unfolding payment_effect_def admit_def
          by auto (intro exI conjI, assumption, rule refl)
        have "admissionFeeAmount st (Some pk) = Inr fee" using fee Some by simp
        then show ?thesis unfolding admit_payer_def Some option.case using True
          by (simp only: if_True simp_thms sum.case)
             (rule triple_await [OF triple_reading [where q = "\<lambda>_ w. saved w = Some d \<and> ?p (db w)"]], blast,
              rule triple_await [OF trx_user triple_returning], use effect in blast)
      qed
    qed
  qed
  show ?thesis
  proof (cases "iv_confirmedAt invoice = None \<or> iv_status invoice \<noteq> Some COMPLETED \<or> iv_amountPaid invoice = None")
    case True
    then show ?thesis using early by (auto simp: confirmInvoice_def split: option.splits)
  next
    case False
    then obtain date amount where inv: "iv_confirmedAt invoice = Some date" "iv_status invoice = Some COMPLETED"
        "iv_amountPaid invoice = Some amount" by auto
    show ?thesis
      using transaction_triple [OF triple_await [OF trx_confirm [where p = "\<lambda>x. x = d"] admission]] inv
      by (simp add: confirmInvoice_def)
  qed
qed

lemma create_triple:
  "triple (\<lambda>w. saved w = None \<and> db w = d) (createInvoice env pk amount description)
     (\<lambda>_ w. saved w = None \<and> create_effect pk d (db w)) (\<lambda>_ w. saved w = None \<and> db w = d)"
proof -
  let ?u = "\<lambda>date. \<lparr>ui_pubkey = toBuffer pk, ui_is_admitted = None, ui_tos_accepted_at = None,
    ui_updated_at = date, ui_created_at = date\<rparr>"
  let ?p = "\<lambda>x. \<exists>date y. y = d \<and> x = y\<lparr>pd_users := upsert_user (?u date) (pd_users y)\<rparr>"
  have effect: "create_effect pk d (db w)" if "\<exists>i x is. ?p x \<and> ii_pubkey i = toBuffer pk \<and>
      upsert_invoice i (pd_invoices x) = Some is \<and> db w = x\<lparr>pd_invoices := is\<rparr>" for w
    using that unfolding create_effect_def by auto (intro exI conjI, assumption, assumption, rule refl)
  show ?thesis unfolding createInvoice_def
    by (rule transaction_triple, rule triple_await [OF trx_user [where p = "\<lambda>x. x = d"]],
        rule triple_await [OF trx_other [OF others(2), where p = ?p]],
        rule triple_await [OF triple_reading], assumption,
        rule triple_await [OF trx_invoice [where pk = pk and p = ?p] triple_returning])
       (use effect in auto)
qed

lemma keeps_from_triple:
  assumes "\<And>d. triple (\<lambda>w. saved w = None \<and> db w = d) m (\<lambda>_ w. saved w = None \<and> q d (db w))
      (\<lambda>_ w. saved w = None \<and> db w = d)" and "\<And>d d'. ledger_ok d \<Longrightarrow> q d d' \<Longrightarrow> ledger_ok d'"
  shows "keeps settled m"
proof (rule keepsI)
  fix w r w' assume w: "settled w" and run: "m w = (r, w')"
  show "settled w'"
  proof (cases r)
    case (Inl x)
    then show ?thesis using triple_Inl [OF assms(1) [of "db w"], of w x w'] w run by (auto simp: settled_def)
  next
    case (Inr a)
    then show ?thesis using triple_Inr [OF assms(1) [of "db w"], of w a w'] w run assms(2)
      by (auto simp: settled_def)
  qed
qed

lemma create_keeps_settled [inv_intros]: "keeps settled (createInvoice env pk amount description)"
  by (rule keeps_from_triple [OF create_triple]) (rule create_effect_ledger)

lemma confirm_keeps_settled [inv_intros]: "keeps settled (confirmInvoice env st invoice)"
  by (rule keeps_from_triple [OF confirm_triple]) (rule payment_effect_ledger)

lemma update_keeps_settled [inv_intros]:
  "keeps settled (updateInvoiceStatus env key status)" "keeps settled (updateInvoice env invoice)"
  unfolding updateInvoiceStatus_def updateInvoice_def
  by (intro repository_keeps_settled keeps_await keeps_basic)+

lemma other_keeps_settled [inv_intros]:
  "keeps settled (getPendingInvoices env)"
  "keeps settled (sendInvoiceUpdateNotification env st invoice)"
  "keeps settled (getInvoiceFromPaymentsProcessor env ref)"
  unfolding getPendingInvoices_def getInvoiceFromPaymentsProcessor_def
  by (rule repository_keeps_settled frames_settled [OF notification_frames] frames_settled [OF others(1)])+

lemma schedule_keeps_settled [inv_intros]:
  "keeps settled (onSchedule env st)"
proof -
  have one: "keeps settled (schedule_one env st invoice)" for invoice
    unfolding schedule_one_def split_def by (intro inv_intros)
  have "keeps settled (schedule_loop env st n invoices)" for n invoices
    by (induction invoices arbitrary: n) (auto intro!: inv_intros one)
  then show ?thesis unfolding onSchedule_def by (intro inv_intros)
qed

lemma run_call_settled: "settled w \<Longrightarrow> settled (run_call env c w)"
  by (cases "(env, c, w)" rule: run_call.cases)
     (simp_all add: keeps_snd create_keeps_settled confirm_keeps_settled update_keeps_settled
        other_keeps_settled schedule_keeps_settled)

lemma run_calls_settled: "settled w \<Longrightarrow> settled (run_calls env calls w)"
  unfolding run_calls_def by (induction calls arbitrary: w) (simp_all add: run_call_settled)

lemma run_calls_ledger:
  "saved w = None \<Longrightarrow> ledger_ok (db w) \<Longrightarrow>
     ledger_ok (db (run_calls env calls w)) \<and> saved (run_calls env calls w) = None"
  using run_calls_settled [of w calls] by (simp add: settled_def)

lemma confirm_outcome:
  assumes "saved w = None" and "confirmInvoice env st invoice w = (r, w')"
  shows "saved w' = None \<and>
    (case r of Inl x \<Rightarrow> db w' = db w | Inr _ \<Rightarrow> payment_effect st invoice (db w) (db w'))"
  using triple_run [OF confirm_triple [of "db w"] _ assms(2)] assms(1) by (cases r) auto

lemma update_unadmitted:
  "keeps (\<lambda>w. saved w = None \<and> \<not> is_admitted (db w) pk) (updateStatus (pe_dc env) MainClient key status)"
proof (rule keepsI, elim conjE)
  fix w r w' assume w: "saved w = None" "\<not> is_admitted (db w) pk"
    and run: "updateStatus (pe_dc env) MainClient key status w = (r, w')"
  obtain q w1 where q: "dc_sql (pe_dc env) MainClient (UpdateInvoice key status (dc_now (pe_dc env) w)) w = (q, w1)"
    by (metis prod.collapse)
  have "w' = w1" using run q by (cases q) (simp_all add: updateStatus_def await_simps)
  moreover have "saved w1 = None \<and> \<not> is_admitted (db w1) pk"
    using sql_main [OF w(1) q] w(2) update_invoice_users
    by (cases q) (auto simp: is_admitted_def)
  ultimately show "saved w' = None \<and> \<not> is_admitted (db w') pk" by simp
qed

lemma run_call_unadmitted:
  assumes w: "saved w = None \<and> \<not> is_admitted (db w) pk" and c: "\<not> admitting c pk" "snd c \<noteq> ServiceSchedule"
  shows "saved (run_call env c w) = None \<and> \<not> is_admitted (db (run_call env c w)) pk"
proof -
  obtain st call where cc: "c = (st, call)" by force
  show ?thesis
  proof (cases call)
    case (ServiceCreate p amount description)
    obtain r w' where run: "createInvoice env p amount description w = (r, w')" by (metis prod.collapse)
    show ?thesis
      using triple_run [OF create_triple [of "db w"] _ run] w run
      by (cases r) (auto simp: cc ServiceCreate dest: create_effect_admitted)
  next
    case (ServiceConfirm invoice)
    obtain r w' where run: "confirmInvoice env st invoice w = (r, w')" by (metis prod.collapse)
    show ?thesis
      using triple_run [OF confirm_triple [of "db w"] _ run] w run c(1)
      by (cases r) (auto simp: cc ServiceConfirm admitting_def dest: payment_effect_admitted)
  next
    case (ServiceNotify invoice)
    have "db (run_call env c w) = db w \<and> saved (run_call env c w) = saved w"
      using framesD [OF notification_frames surjective_pairing] by (simp add: cc ServiceNotify)
    then show ?thesis using w by simp
  next
    case (ServiceUpdate invoice)
    have "keeps (\<lambda>w. saved w = None \<and> \<not> is_admitted (db w) pk) (updateInvoice env invoice)"
      unfolding updateInvoice_def by (intro keeps_await update_unadmitted keeps_basic)
    from keeps_snd [OF this w] show ?thesis by (simp add: cc ServiceUpdate)
  next
    case (ServiceUpdateStatus key status)
    from keeps_snd [OF update_unadmitted w] show ?thesis
      by (simp add: cc ServiceUpdateStatus updateInvoiceStatus_def)
  qed (use c(2) cc in simp)
qed

lemma run_calls_unadmitted:
  assumes "saved w = None" "\<not> is_admitted (db w) pk" "\<forall>c \<in> set calls. \<not> admitting c pk \<and> snd c \<noteq> ServiceSchedule"
  shows "\<not> is_admitted (db (run_calls env calls w)) pk"
  using assms unfolding run_calls_def
proof (induction calls arbitrary: w)
  case (Cons c calls)
  then show ?case using run_call_unadmitted [of w pk c] by simp
qed simp

text \<open>The periodic check touches only the invoices that were pending.\<close>

definition has_row :: "string \<Rightarrow> invoice_row \<Rightarrow> 'w \<Rightarrow> bool" where
  "has_row key r w \<longleftrightarrow> saved w = None \<and> row_of key (db w) = Some r"

lemma update_other_row:
  assumes "k \<noteq> Some key"
  shows "keeps (has_row key r) (updateStatus (pe_dc env) MainClient k status)"
proof (rule keepsI)
  fix w q w' assume w: "has_row key r w" and run: "updateStatus (pe_dc env) MainClient k status w = (q, w')"
  obtain t w1 where t: "dc_sql (pe_dc env) MainClient (UpdateInvoice k status (dc_now (pe_dc env) w)) w = (t, w1)"
    by (metis prod.collapse)
  have "w' = w1" using run t by (cases t) (simp_all add: updateStatus_def await_simps)
  moreover have "has_row key r w1"
    using sql_main [OF _ t] w assms update_invoice_other
    by (cases t; cases k) (auto simp: has_row_def statement_outcome_def)
  ultimately show "has_row key r w'" by simp
qed

lemma confirm_other_row:
  assumes "iv_id invoice \<noteq> Some key"
  shows "keeps (has_row key r) (confirmInvoice env st invoice)"
proof (rule keepsI)
  fix w q w' assume w: "has_row key r w" and run: "confirmInvoice env st invoice w = (q, w')"
  then show "has_row key r w'"
    using triple_run [OF confirm_triple [of "db w"] _ run] payment_effect_other [OF _ assms]
    by (cases q) (auto simp: has_row_def)
qed

lemma frames_row: "frames (\<lambda>w. (db w, saved w)) m \<Longrightarrow> keeps (has_row key r) m"
  by (rule frames_keeps) (auto simp: has_row_def)

lemma schedule_other_row:
  assumes own: "\<And>ref w ks u w'. pe_getInvoice env ref w = (Inr (ks, u), w') \<Longrightarrow>
      iv_id u = (case ref of RefId i \<Rightarrow> i | RefInvoice i \<Rightarrow> iv_id i)"
    and other: "iv_id invoice \<noteq> Some key"
  shows "keeps (has_row key r) (schedule_one env st invoice)"
  unfolding schedule_one_def split_def
proof (intro keeps_catching keeps_basic keeps_await_value)
  show "keeps (has_row key r) (getInvoiceFromPaymentsProcessor env (RefInvoice invoice))"
    unfolding getInvoiceFromPaymentsProcessor_def by (rule frames_row [OF others(1)])
next
  fix w a w' assume "getInvoiceFromPaymentsProcessor env (RefInvoice invoice) w = (Inr a, w')"
  then have u: "iv_id (snd a) = iv_id invoice"
    using own [of "processor_ref (RefInvoice invoice)" w "fst a" "snd a" w']
    by (auto simp: getInvoiceFromPaymentsProcessor_def split: option.splits if_splits)
  then show "keeps (has_row key r) (if iv_id (snd a) = None \<or> iv_status (snd a) = None then returning False
      else await (updateInvoiceStatus env (iv_id (snd a)) (iv_status (snd a))) (\<lambda>_.
        await (if iv_status invoice \<noteq> iv_status (snd a) \<and> iv_status (snd a) = Some COMPLETED \<and>
            iv_confirmedAt (snd a) \<noteq> None
          then both (confirmInvoice env st (merged_update (fst a, snd a) invoice))
                 (sendInvoiceUpdateNotification env st (merged_update (fst a, snd a) invoice))
          else returning ()) (\<lambda>_. returning True)))"
    using other u merged_id [of "snd a" invoice "fst a"] unfolding updateInvoiceStatus_def
    by (intro keeps_if keeps_basic keeps_await keeps_both update_other_row confirm_other_row
        frames_row notification_frames) simp_all
qed

lemma schedule_loop_other_row:
  assumes "\<And>ref w ks u w'. pe_getInvoice env ref w = (Inr (ks, u), w') \<Longrightarrow>
      iv_id u = (case ref of RefId i \<Rightarrow> i | RefInvoice i \<Rightarrow> iv_id i)"
    and "\<forall>i \<in> set invoices. iv_id i \<noteq> Some key"
  shows "keeps (has_row key r) (schedule_loop env st n invoices)"
  using assms(2)
proof (induction invoices arbitrary: n)
  case (Cons i invoices)
  then show ?case using schedule_other_row [OF assms(1)] by (simp add: keeps_await)
qed (simp add: inv_intros)

lemma pending_rows:
  assumes w: "saved w = None" "ledger_ok (db w)" and row: "row_of key (db w) = Some r" "ir_status r \<noteq> Some PENDING"
    and run: "getPendingInvoices env w = (Inr invoices, w')"
  shows "\<forall>i \<in> set invoices. iv_id i \<noteq> Some key"
proof
  fix i assume i: "i \<in> set invoices"
  obtain a w1 where a: "dc_sql (pe_dc env) MainClient (SelectInvoices PENDING 0 10) w = (Inr a, w1)"
      "invoices = map fromDBInvoice (invoice_rows a)"
    using run by (auto simp: getPendingInvoices_def findPendingInvoices_def await_Inr)
  obtain rs where rs: "a = InvoiceRows rs"
      "mset rs \<subseteq># mset (filter (\<lambda>r. ir_status r = Some PENDING) (pd_invoices (db w)))"
    using sql_main [OF w(1) a(1)] by (auto simp: statement_outcome_def)
  obtain x where x: "x \<in> set rs" "i = fromDBInvoice x" using i a(2) rs(1) by auto
  then have "x \<in> set (filter (\<lambda>r. ir_status r = Some PENDING) (pd_invoices (db w)))"
    using mset_subset_eqD [OF rs(2)] by (simp only: set_mset_mset [symmetric])
  then have in_table: "x \<in> set (pd_invoices (db w))" "ir_status x = Some PENDING" by auto
  have "r \<in> set (pd_invoices (db w))" "ir_id r = key" using row(1) by (auto simp: row_of_def find_Some_iff)
  then have "ir_id x \<noteq> key"
    using in_table row(2) w(2) by (auto simp: ledger_ok_def distinct_map dest: inj_onD)
  then show "iv_id i \<noteq> Some key" by (simp add: x fromDBInvoice_def)
qed

lemma schedule_keeps_row:
  assumes own: "\<And>ref w ks u w'. pe_getInvoice env ref w = (Inr (ks, u), w') \<Longrightarrow>
      iv_id u = (case ref of RefId i \<Rightarrow> i | RefInvoice i \<Rightarrow> iv_id i)"
    and w: "saved w = None" "ledger_ok (db w)" and row: "row_of key (db w) = Some r" "ir_status r \<noteq> Some PENDING"
  shows "row_of key (db (snd (onSchedule env st w))) = Some r"
proof -
  obtain q w1 where q: "getPendingInvoices env w = (q, w1)" by (metis prod.collapse)
  have w1: "has_row key r w1"
  proof -
    obtain t w2 where t: "dc_sql (pe_dc env) MainClient (SelectInvoices PENDING 0 10) w = (t, w2)"
      by (metis prod.collapse)
    then have "w1 = w2" using q
      by (cases t) (simp_all add: getPendingInvoices_def findPendingInvoices_def await_simps)
    then show ?thesis using sql_main [OF w(1) t] row(1)
      by (cases t) (auto simp: has_row_def statement_outcome_def)
  qed
  show ?thesis
  proof (cases q)
    case (Inl x)
    then show ?thesis using q w1 row(1) by (auto simp: onSchedule_def await_simps has_row_def split: option.splits)
  next
    case (Inr invoices)
    have "keeps (has_row key r) (schedule_loop env st 0 invoices)"
      by (rule schedule_loop_other_row [OF own pending_rows [OF w row q [unfolded Inr]]])
    from keeps_snd [OF this w1] show ?thesis
      using q row(1) by (auto simp: Inr onSchedule_def await_simps has_row_def)
  qed
qed

end

section \<open>A world of payments\<close>

text \<open>
  The tables, the events the relay has stored and the messages it has sent to the primary process.
  The processor's answers are an argument.
\<close>

record pay_world = db_world +
  pw_events :: "nostr_event list"
  pw_sent :: "nostr_event list"

definition pay_env :: "(string \<Rightarrow> invoice_object option) \<Rightarrow> pay_world payments_env" where
  "pay_env answers = \<lparr>pe_dc = table_client,
     pe_getInvoice = (\<lambda>ref.
       case (case ref of RefId (Some i) \<Rightarrow> answers i | _ \<Rightarrow> None) of
         None \<Rightarrow> throwing (plain_error ''Request failed with status code 404'')
       | Some answer \<Rightarrow> returning answer),
     pe_createInvoice = (\<lambda>rq. returning (no_invoice\<lparr>iv_id := Some ''invoice'', iv_bolt11 := Some ''lnbc1'',
       iv_amountRequested := Some (rq_amount rq), iv_unit := Some MSATS, iv_status := Some PENDING\<rparr>)),
     pe_createEvent = (\<lambda>e w. (Inr 1, w\<lparr>pw_events := pw_events w @ [e]\<rparr>)),
     pe_sha256 = (\<lambda>_. replicate 32 0),
     pe_sign = (\<lambda>i k. returning (replicate 64 0)),
     pe_send = Some (\<lambda>e w. (Inr (), w\<lparr>pw_sent := pw_sent w @ [e]\<rparr>)),
     pe_relayPrivateKey = (\<lambda>url. returning ''key''),
     pe_publicKey = (\<lambda>k. replicate 64 (CHR ''f'')),
     pe_next_month = (\<lambda>t. t + 30 * 24 * 3600 * 1000)\<rparr>"

interpretation pay: payments_backend "pay_env answers" dw_db dw_saved
proof -
  have "payments_database (pe_dc (pay_env answers)) dw_db dw_saved"
    using tables.payments_database_axioms by (simp add: pay_env_def)
  then show "payments_backend (pay_env answers) dw_db dw_saved"
    by (intro payments_backend.intro payments_backend_axioms.intro)
       (auto simp: pay_env_def frames_def split: option.splits invoice_ref.splits)
qed

definition pay_settings :: relay_settings where
  "pay_settings = plain_settings\<lparr>
     st_payments := Some \<lparr>pay_enabled = True, pay_processor = ''zebedee'',
       pay_admission = Some [\<lparr>fs_enabled = True, fs_amount = 1000, fs_whitelists = None\<rparr>],
       pay_publication = None\<rparr>\<rparr>"

definition open_invoice :: invoice_row where
  "open_invoice = \<lparr>ir_id = ''i1'', ir_pubkey = toBuffer ''ab'', ir_bolt11 = ''lnbc1'',
     ir_amount_requested = 5000, ir_amount_paid = None, ir_unit = Some MSATS, ir_status = Some PENDING,
     ir_description = None, ir_confirmed_at = None, ir_expires_at = None, ir_updated_at = 0,
     ir_created_at = 0, ir_verify_url = None\<rparr>"

definition open_world :: "nat option \<Rightarrow> pay_world" where
  "open_world budget = \<lparr>dw_db = \<lparr>pd_users = [\<lparr>ur_pubkey = toBuffer ''ab'', ur_is_admitted = False,
       ur_balance = 0, ur_tos_accepted_at = None, ur_created_at = 0, ur_updated_at = 0\<rparr>],
       pd_invoices = [open_invoice]\<rparr>,
     dw_saved = None, dw_now = 9000, dw_ids = 0, dw_budget = budget, pw_events = [], pw_sent = []\<rparr>"

definition paid_answers :: "string \<Rightarrow> invoice_object option" where
  "paid_answers i = Some ([KId, KStatus, KConfirmedAt],
     no_invoice\<lparr>iv_id := Some i, iv_status := Some COMPLETED, iv_confirmedAt := Some 8000\<rparr>)"

definition paid_invoice :: invoice where
  "paid_invoice = (fromDBInvoice open_invoice)\<lparr>iv_status := Some COMPLETED,
     iv_confirmedAt := Some 8000, iv_amountPaid := Some 5000\<rparr>"

section \<open>Properties\<close>

text \<open>
  C22. Every balance is the total of the user's confirmed invoices, each counted once: over any
  sequence of service calls (creating, updating, confirming twice, the periodic check, failing
  statements and commits), the ledger stays balanced and no transaction is left open.
\<close>

theorem ledger_balanced:
  assumes "payments_backend env db saved" and "saved w = None" and "ledger_ok (db w)"
  shows "ledger_ok (db (run_calls env calls w)) \<and> saved (run_calls env calls w) = None"
  by (rule payments_backend.run_calls_ledger [OF assms])

theorem ledger_balanced_witness:
  "(let d = dw_db (run_calls (pay_env paid_answers)
      [(pay_settings, ServiceSchedule), (pay_settings, ServiceConfirm paid_invoice)] (open_world None)) in
    list_all (\<lambda>u. ur_balance u = paid_msat (pd_invoices d) (ur_pubkey u)) (pd_users d))"
proof -
  have "dw_saved (open_world None) = None" "ledger_ok (dw_db (open_world None))" by code_simp+
  from ledger_balanced [OF pay.payments_backend_axioms this] show ?thesis
    by (auto simp: ledger_ok_def list_all_iff Let_def)
qed

text \<open>
  C23. Confirming an invoice is all or nothing: if \<open>confirmInvoice\<close> throws, whatever failed (the
  checks, a statement, the commit), the tables are what they were; if it returns, the stored function
  has run on the invoice and, exactly when the payment covers the admission fee, the payer has been
  admitted.
\<close>

theorem confirm_all_or_nothing:
  assumes "payments_backend env db saved" and "saved w = None"
    and "confirmInvoice env st invoice w = (r, w')"
  shows "saved w' = None \<and>
    (case r of Inl x \<Rightarrow> db w' = db w | Inr _ \<Rightarrow> payment_effect st invoice (db w) (db w'))"
  by (rule payments_backend.confirm_outcome [OF assms])

theorem confirm_all_or_nothing_witness:
  "dw_db (snd (confirmInvoice (pay_env paid_answers) pay_settings paid_invoice (open_world (Some 2)))) =
     dw_db (open_world (Some 2))"
proof -
  let ?run = "confirmInvoice (pay_env paid_answers) pay_settings paid_invoice (open_world (Some 2))"
  have "dw_saved (open_world (Some 2)) = None" by code_simp
  moreover have "fst ?run = Inl database_down" by code_simp
  moreover have "?run = (fst ?run, snd ?run)" by simp
  ultimately show ?thesis
    using confirm_all_or_nothing [OF pay.payments_backend_axioms, of "open_world (Some 2)" paid_answers
        pay_settings paid_invoice "fst ?run" "snd ?run"] by simp
qed





end
