(* ===== verification/Payment_Processors.thy ===== *)
theory Payment_Processors
  imports Payments_Service
begin

text \<open>
  \<open>src/payments-processors/\<close>, the conversions \<open>from*Invoice\<close>, \<open>fromBech32\<close> and \<open>toBech32\<close> of
  \<open>src/utils/transform.ts\<close>, \<open>src/utils/secret.ts\<close> and \<open>src/factories/payments-processor-factory.ts\<close>.
  A processor is reached over HTTP, a parameter that answers a request with a JSON value. The values
  of the properties the relay reads have the types of the processors' APIs: numbers are integers,
  dates are strings that \<open>new Date\<close> can read (\<open>de_parse\<close>), and a string that is no invoice status or
  unit is refused here, as the enumerated columns of the table refuse it.
\<close>

section \<open>JSON values\<close>

datatype jvalue =
    JUndefined
  | JNull
  | JBool bool
  | JNumber int
  | JString string
  | JObject "(string \<times> jvalue) list"

text \<open>Ramda's \<open>prop\<close> and \<open>path\<close>; a repeated key of an object has its last value.\<close>

fun jprop :: "string \<Rightarrow> jvalue \<Rightarrow> jvalue" where
  "jprop name (JObject members) = (case map_of (rev members) name of None \<Rightarrow> JUndefined | Some v \<Rightarrow> v)"
| "jprop name _ = JUndefined"

definition jpath :: "string list \<Rightarrow> jvalue \<Rightarrow> jvalue" where
  "jpath names v = fold jprop names v"

fun string_of :: "jvalue \<Rightarrow> string option" where
  "string_of (JString s) = Some s"
| "string_of _ = None"

fun number_of :: "jvalue \<Rightarrow> int option" where
  "number_of (JNumber n) = Some n"
| "number_of _ = None"

fun truthy :: "jvalue \<Rightarrow> bool" where
  "truthy JUndefined = False"
| "truthy JNull = False"
| "truthy (JBool b) = b"
| "truthy (JNumber n) = (n \<noteq> 0)"
| "truthy (JString s) = (s \<noteq> [])"
| "truthy (JObject members) = True"

text \<open>\<open>toBigInt\<close>: \<open>BigInt\<close> of a string reads a decimal integer.\<close>

definition bigint_of_string :: "string \<Rightarrow> int result" where
  "bigint_of_string s =
     (case js_trim s of
        [] \<Rightarrow> Inr 0
      | c # ds \<Rightarrow>
          if list_all is_digit (c # ds) then Inr (int (dec_value (c # ds)))
          else if c = CHR ''-'' \<and> ds \<noteq> [] \<and> list_all is_digit ds then Inr (- int (dec_value ds))
          else if c = CHR ''+'' \<and> ds \<noteq> [] \<and> list_all is_digit ds then Inr (int (dec_value ds))
          else Inl (Err ''SyntaxError'' ''Cannot convert to a BigInt''))"

fun toBigInt :: "jvalue \<Rightarrow> int result" where
  "toBigInt (JNumber n) = Inr n"
| "toBigInt (JString s) = bigint_of_string s"
| "toBigInt (JBool b) = Inr (if b then 1 else 0)"
| "toBigInt (JObject members) = Inl (Err ''SyntaxError'' ''Cannot convert [object Object] to a BigInt'')"
| "toBigInt _ = Inl (type_error ''Cannot convert to a BigInt'')"

definition status_of_string :: "string \<Rightarrow> invoice_status option" where
  "status_of_string s = List.find (\<lambda>x. status_name x = s) [PENDING, COMPLETED, EXPIRED]"

definition unit_of_string :: "string \<Rightarrow> invoice_unit option" where
  "unit_of_string s = List.find (\<lambda>x. unit_name x = s) [MSATS, SATS, BTC]"

definition enum_of :: "(string \<Rightarrow> 'a option) \<Rightarrow> jvalue \<Rightarrow> 'a option result" where
  "enum_of f v =
     (case v of
        JString s \<Rightarrow>
          (case f s of None \<Rightarrow> Inl (plain_error ''new row violates check constraint'') | Some x \<Rightarrow> Inr (Some x))
      | _ \<Rightarrow> Inr None)"

section \<open>Conversions of the processors' invoices\<close>

text \<open>\<open>de_parse\<close> is \<open>new Date(text)\<close>, \<open>de_now\<close> is \<open>new Date()\<close>.\<close>

record date_env =
  de_parse :: "string \<Rightarrow> int"
  de_now :: int

definition date_of :: "date_env \<Rightarrow> jvalue \<Rightarrow> int option" where
  "date_of de v = map_option (de_parse de) (string_of v)"

definition converted_keys :: "invoice_key list" where
  "converted_keys = [KId, KPubkey, KBolt11, KAmountRequested, KDescription, KUnit, KStatus, KExpiresAt,
     KConfirmedAt, KCreatedAt]"

definition fromZebedeeInvoice :: "date_env \<Rightarrow> jvalue \<Rightarrow> invoice_object result" where
  "fromZebedeeInvoice de v =
     (case toBigInt (jprop ''amount'' v) of
        Inl x \<Rightarrow> Inl x
      | Inr amount \<Rightarrow>
          (case enum_of unit_of_string (jprop ''unit'' v) of
             Inl x \<Rightarrow> Inl x
           | Inr u \<Rightarrow>
               (case enum_of status_of_string (jprop ''status'' v) of
                  Inl x \<Rightarrow> Inl x
                | Inr status \<Rightarrow>
                    Inr (converted_keys, no_invoice\<lparr>iv_id := string_of (jprop ''id'' v),
                      iv_pubkey := string_of (jprop ''internalId'' v),
                      iv_bolt11 := string_of (jpath [''invoice'', ''request''] v),
                      iv_amountRequested := Some amount,
                      iv_description := string_of (jprop ''description'' v), iv_unit := u,
                      iv_status := status, iv_expiresAt := date_of de (jprop ''expiresAt'' v),
                      iv_confirmedAt := date_of de (jprop ''confirmedAt'' v),
                      iv_createdAt := date_of de (jprop ''createdAt'' v)\<rparr>))))"

definition nodeless_status :: "jvalue \<Rightarrow> invoice_status option" where
  "nodeless_status v =
     (if v = JString ''new'' then Some PENDING
      else if v = JString ''pending_confirmation'' then Some PENDING
      else if v = JString ''underpaid'' then Some PENDING
      else if v = JString ''in_flight'' then Some PENDING
      else if v = JString ''paid'' then Some COMPLETED
      else if v = JString ''overpaid'' then Some COMPLETED
      else if v = JString ''expired'' then Some EXPIRED
      else None)"

definition fromNodelessInvoice :: "date_env \<Rightarrow> jvalue \<Rightarrow> invoice_object result" where
  "fromNodelessInvoice de v =
     (case toBigInt (jprop ''satsAmount'' v) of
        Inl x \<Rightarrow> Inl x
      | Inr amount \<Rightarrow>
          (case enum_of unit_of_string (jpath [''metadata'', ''unit''] v) of
             Inl x \<Rightarrow> Inl x
           | Inr u \<Rightarrow>
               Inr (converted_keys, no_invoice\<lparr>iv_id := string_of (jprop ''id'' v),
                 iv_pubkey := string_of (jpath [''metadata'', ''requestId''] v),
                 iv_bolt11 := string_of (jprop ''lightningInvoice'' v),
                 iv_amountRequested := Some amount,
                 iv_description := string_of (jpath [''metadata'', ''description''] v), iv_unit := u,
                 iv_status := nodeless_status (jprop ''status'' v),
                 iv_expiresAt := (case date_of de (jprop ''expiresAt'' v) of
                    Some t \<Rightarrow> Some t
                  | None \<Rightarrow> map_option (\<lambda>t. t + 15 * 60000) (date_of de (jprop ''createdAt'' v))),
                 iv_confirmedAt := date_of de (jprop ''paidAt'' v),
                 iv_createdAt := date_of de (jprop ''createdAt'' v)\<rparr>)))"

definition opennode_status :: "jvalue \<Rightarrow> invoice_status option" where
  "opennode_status v =
     (if v = JString ''expired'' then Some EXPIRED
      else if v = JString ''refunded'' then Some EXPIRED
      else if v = JString ''unpaid'' then Some PENDING
      else if v = JString ''processing'' then Some PENDING
      else if v = JString ''underpaid'' then Some PENDING
      else if v = JString ''paid'' then Some COMPLETED
      else None)"

text \<open>A date of neither form is \<open>new Date(undefined)\<close>, which no later code can print.\<close>

definition fromOpenNodeInvoice :: "date_env \<Rightarrow> jvalue \<Rightarrow> invoice_object result" where
  "fromOpenNodeInvoice de v =
     (case toBigInt (case number_of (jprop ''amount'' v) of Some n \<Rightarrow> JNumber n | None \<Rightarrow> jprop ''price'' v) of
        Inl x \<Rightarrow> Inl x
      | Inr amount \<Rightarrow>
          Inr (converted_keys, no_invoice\<lparr>iv_id := string_of (jprop ''id'' v),
            iv_pubkey := string_of (jprop ''order_id'' v),
            iv_bolt11 := (case string_of (jpath [''lightning_invoice'', ''payreq''] v) of
               Some s \<Rightarrow> Some s | None \<Rightarrow> string_of (jpath [''lightning'', ''payreq''] v)),
            iv_amountRequested := Some amount,
            iv_description := string_of (jprop ''description'' v), iv_unit := Some SATS,
            iv_status := opennode_status (jprop ''status'' v),
            iv_expiresAt := (case string_of (jpath [''lightning'', ''expires_at''] v) of
               Some s \<Rightarrow> Some (de_parse de s)
             | None \<Rightarrow> map_option (\<lambda>n. n * 1000) (number_of (jpath [''lightning_invoice'', ''expires_at''] v))),
            iv_confirmedAt := (if jprop ''status'' v = JString ''paid'' then Some (de_now de) else None),
            iv_createdAt := (case number_of (jprop ''created_at'' v) of
               Some n \<Rightarrow> Some (n * 1000) | None \<Rightarrow> date_of de (jprop ''created_at'' v))\<rparr>))"

section \<open>Bech32\<close>

text \<open>The package \<open>bech32\<close>: \<open>decode\<close> yields prefix and words or throws, \<open>encode\<close> prints them,
  \<open>toWords\<close> and \<open>fromWords\<close> regroup bytes into words of five bits and back.\<close>

record bech32_package =
  b32_decode :: "string \<Rightarrow> (string \<times> nat list) result"
  b32_encode :: "string \<Rightarrow> nat list \<Rightarrow> string result"
  b32_toWords :: "buffer \<Rightarrow> nat list"
  b32_fromWords :: "nat list \<Rightarrow> buffer result"

definition fromBech32 :: "bech32_package \<Rightarrow> string \<Rightarrow> string result" where
  "fromBech32 b32 input =
     (case b32_decode b32 input of
        Inl x \<Rightarrow> Inl x
      | Inr (pre, words) \<Rightarrow>
          if \<not> starts_with input pre then Inl (plain_error (''Bech32 invalid prefix: '' @ pre))
          else
            case b32_fromWords b32 words of
              Inl x \<Rightarrow> Inl x
            | Inr bytes \<Rightarrow> Inr (fromBuffer (take 32 bytes)))"

definition toBech32 :: "bech32_package \<Rightarrow> string \<Rightarrow> string \<Rightarrow> string result" where
  "toBech32 b32 pre input = b32_encode b32 pre (b32_toWords b32 (toBuffer input))"

section \<open>Secrets\<close>

text \<open>\<open>se_secret\<close> is \<open>process.env.SECRET\<close>, \<open>se_hmac\<close> is HMAC-SHA256 of the crypto module.\<close>

record secret_env =
  se_secret :: "string option"
  se_hmac :: "buffer \<Rightarrow> buffer \<Rightarrow> buffer"

definition hmacSha256 :: "secret_env \<Rightarrow> buffer \<Rightarrow> buffer \<Rightarrow> buffer" where
  "hmacSha256 se secret data = se_hmac se secret data"

definition deriveFromSecret :: "secret_env \<Rightarrow> buffer \<Rightarrow> buffer result" where
  "deriveFromSecret se purpose =
     (case se_secret se of
        None \<Rightarrow> Inl (plain_error ''SECRET environment variable not set'')
      | Some secret \<Rightarrow>
          if secret = [] then Inl (plain_error ''SECRET environment variable not set'')
          else Inr (hmacSha256 se (utf8 secret) purpose))"

section \<open>The processors\<close>

text \<open>
  \<open>hc_get\<close> and \<open>hc_post\<close> are the axios instance: the \<open>data\<close> of the response, or the rejection.
  \<open>pr_callback_url\<close> is \<open>new URL(base)\<close> with its search parameter \<open>hmac\<close> set, printed.
\<close>

record 'w processor_env =
  hc_get :: "string \<Rightarrow> ('w, jvalue) task"
  hc_post :: "string \<Rightarrow> jvalue \<Rightarrow> ('w, jvalue) task"
  pr_dates :: "'w \<Rightarrow> date_env"
  pr_secrets :: secret_env
  pr_callback_url :: "string option \<Rightarrow> string \<Rightarrow> string result"
  pr_uuid :: "('w, string) task"
  pr_iso_date :: "int \<Rightarrow> string"

record processor_settings =
  ps_zebedee_baseURL :: "string option"
  ps_zebedee_callbackBaseURL :: "string option"
  ps_lnbits_baseURL :: "string option"
  ps_lnbits_callbackBaseURL :: "string option"
  ps_lnurl_invoiceURL :: "string option"
  ps_nodeless_baseURL :: "string option"
  ps_nodeless_storeId :: "string"
  ps_opennode_baseURL :: "string option"
  ps_opennode_callbackBaseURL :: "string option"

text \<open>\<open>v.name\<close> written out in the source, which throws on undefined and null.\<close>

definition jget :: "string \<Rightarrow> jvalue \<Rightarrow> jvalue result" where
  "jget name v =
     (case v of
        JUndefined \<Rightarrow> Inl (type_error (''Cannot read properties of undefined (reading '' @ name @ '')''))
      | JNull \<Rightarrow> Inl (type_error (''Cannot read properties of null (reading '' @ name @ '')''))
      | _ \<Rightarrow> Inr (jprop name v))"

definition lift_result :: "'a result \<Rightarrow> ('w, 'a) task" where
  "lift_result r w = (r, w)"

definition optional_string :: "string option \<Rightarrow> jvalue" where
  "optional_string s = (case s of None \<Rightarrow> JUndefined | Some x \<Rightarrow> JString x)"

text \<open>\<open>Number(amountMsats / 1000n)\<close>, for amounts a double holds exactly.\<close>

definition msats_to_sats :: "int \<Rightarrow> int" where
  "msats_to_sats amount = bigint_div amount 1000"

subsection \<open>ZEBEDEE, Nodeless, OpenNode\<close>

definition zebedee_getInvoice :: "'w processor_env \<Rightarrow> string \<Rightarrow> ('w, invoice_object) task" where
  "zebedee_getInvoice pe invoiceId =
     await (hc_get pe (''/v0/charges/'' @ invoiceId)) (\<lambda>data.
     await (lift_result (jget ''data'' data)) (\<lambda>charge.
     await (reading (pr_dates pe)) (\<lambda>de. lift_result (fromZebedeeInvoice de charge))))"

definition zebedee_createInvoice ::
    "'w processor_env \<Rightarrow> processor_settings \<Rightarrow> invoice_request \<Rightarrow> ('w, invoice) task" where
  "zebedee_createInvoice pe ps request =
     await (hc_post pe ''/v0/charges'' (JObject [(''amount'', JString (int_to_string (rq_amount request))),
         (''description'', JString (rq_description request)), (''internalId'', JString (rq_requestId request)),
         (''callbackUrl'', optional_string (ps_zebedee_callbackBaseURL ps))])) (\<lambda>data.
     await (lift_result (jget ''data'' data)) (\<lambda>charge.
     await (reading (pr_dates pe)) (\<lambda>de.
     await (lift_result (fromZebedeeInvoice de charge)) (\<lambda>result. returning (snd result)))))"

definition nodeless_getInvoice ::
    "'w processor_env \<Rightarrow> processor_settings \<Rightarrow> string \<Rightarrow> ('w, invoice_object) task" where
  "nodeless_getInvoice pe ps invoiceId =
     await (hc_get pe (''/api/v1/store/'' @ ps_nodeless_storeId ps @ ''/invoice/'' @ invoiceId)) (\<lambda>data.
     await (lift_result (jget ''data'' data)) (\<lambda>invoice.
     await (reading (pr_dates pe)) (\<lambda>de. lift_result (fromNodelessInvoice de invoice))))"

definition nodeless_createInvoice ::
    "'w processor_env \<Rightarrow> processor_settings \<Rightarrow> invoice_request \<Rightarrow> ('w, invoice) task" where
  "nodeless_createInvoice pe ps request =
     await (reading (pr_dates pe)) (\<lambda>de0.
     await (hc_post pe (''/api/v1/store/'' @ ps_nodeless_storeId ps @ ''/invoice'')
        (JObject [(''amount'', JNumber (msats_to_sats (rq_amount request))), (''currency'', JString ''SATS''),
          (''metadata'', JObject [(''description'', JString (rq_description request)),
             (''requestId'', JString (rq_requestId request)), (''unit'', JString ''sats''),
             (''createdAt'', JString (pr_iso_date pe (de_now de0)))])])) (\<lambda>data.
     await (lift_result (jget ''data'' data)) (\<lambda>invoice.
     await (reading (pr_dates pe)) (\<lambda>de.
     await (lift_result (fromNodelessInvoice de invoice)) (\<lambda>result. returning (snd result))))))"

definition opennode_getInvoice :: "'w processor_env \<Rightarrow> string \<Rightarrow> ('w, invoice_object) task" where
  "opennode_getInvoice pe invoiceId =
     await (hc_get pe (''/v2/charge/'' @ invoiceId)) (\<lambda>data.
     await (lift_result (jget ''data'' data)) (\<lambda>charge.
     await (reading (pr_dates pe)) (\<lambda>de. lift_result (fromOpenNodeInvoice de charge))))"

definition opennode_createInvoice ::
    "'w processor_env \<Rightarrow> processor_settings \<Rightarrow> invoice_request \<Rightarrow> ('w, invoice) task" where
  "opennode_createInvoice pe ps request =
     await (hc_post pe ''/v1/charges'' (JObject [(''amount'', JNumber (msats_to_sats (rq_amount request))),
         (''description'', JString (rq_description request)), (''order_id'', JString (rq_requestId request)),
         (''callback_url'', optional_string (ps_opennode_callbackBaseURL ps)), (''ttl'', JNumber 10)])) (\<lambda>data.
     await (lift_result (jget ''data'' data)) (\<lambda>charge.
     await (reading (pr_dates pe)) (\<lambda>de.
     await (lift_result (fromOpenNodeInvoice de charge)) (\<lambda>result. returning (snd result)))))"

subsection \<open>LNbits\<close>

text \<open>\<open>BigInt(Math.floor(amount / 1000))\<close>.\<close>

definition lnbits_amount :: "jvalue \<Rightarrow> int result" where
  "lnbits_amount v =
     (case number_of v of
        None \<Rightarrow> Inl (Err ''RangeError'' ''The number NaN cannot be converted to a BigInt'')
      | Some n \<Rightarrow> Inr (n div 1000))"

definition seconds_date :: "jvalue \<Rightarrow> int option" where
  "seconds_date v = map_option (\<lambda>n. n * 1000) (number_of v)"

text \<open>The fields of the class \<open>LNbitsInvoice\<close> are keys of its objects whether they are set or not.\<close>

definition lnbits_keys :: "invoice_key list" where
  "lnbits_keys = [KId, KPubkey, KBolt11, KAmountRequested, KAmountPaid, KUnit, KStatus, KDescription,
     KConfirmedAt, KExpiresAt, KUpdatedAt, KCreatedAt]"

definition lnbits_invoice :: "jvalue \<Rightarrow> invoice result" where
  "lnbits_invoice data =
     (case jget ''details'' data of
        Inl x \<Rightarrow> Inl x
      | Inr details \<Rightarrow>
          (case jget ''payment_hash'' details of
             Inl x \<Rightarrow> Inl x
           | Inr hash \<Rightarrow>
               (case jget ''internalId'' (jprop ''extra'' details) of
                  Inl x \<Rightarrow> Inl x
                | Inr internalId \<Rightarrow>
                    (case lnbits_amount (jprop ''amount'' details) of
                       Inl x \<Rightarrow> Inl x
                     | Inr amount \<Rightarrow>
                         Inr (no_invoice\<lparr>iv_id := string_of hash, iv_pubkey := string_of internalId,
                           iv_bolt11 := string_of (jprop ''bolt11'' details),
                           iv_amountRequested := Some amount, iv_unit := Some SATS,
                           iv_status := Some (if truthy (jprop ''paid'' data) then COMPLETED else PENDING),
                           iv_description := string_of (jprop ''memo'' details),
                           iv_expiresAt := seconds_date (jprop ''expiry'' details),
                           iv_createdAt := seconds_date (jprop ''time'' details)\<rparr>)))))"

definition lnbits_getInvoice :: "'w processor_env \<Rightarrow> string \<Rightarrow> ('w, invoice_object) task" where
  "lnbits_getInvoice pe invoiceId =
     await (hc_get pe (''/api/v1/payments/'' @ invoiceId)) (\<lambda>data.
     await (lift_result (lnbits_invoice data)) (\<lambda>invoice.
     await (reading (pr_dates pe)) (\<lambda>de.
     returning (lnbits_keys, invoice\<lparr>
       iv_amountPaid := (if truthy (jprop ''paid'' data) then iv_amountRequested invoice else None),
       iv_confirmedAt := (if truthy (jprop ''paid'' data) then iv_createdAt invoice else None),
       iv_updatedAt := Some (de_now de)\<rparr>))))"

definition callback_key :: buffer where
  "callback_key = utf8 ''lnbits-callback-hmac-key''"

text \<open>The value of the parameter \<open>hmac\<close> of the callback address, valid for a day.\<close>

definition callback_hmac :: "secret_env \<Rightarrow> int \<Rightarrow> string result" where
  "callback_hmac se now =
     (let hmacExpiry = int_to_string (now + 1 * 24 * 60 * 60 * 1000) in
      case deriveFromSecret se callback_key of
        Inl x \<Rightarrow> Inl x
      | Inr secret \<Rightarrow> Inr (hmacExpiry @ '':'' @ fromBuffer (hmacSha256 se secret (utf8 hmacExpiry))))"

definition lnbits_createInvoice ::
    "'w processor_env \<Rightarrow> processor_settings \<Rightarrow> invoice_request \<Rightarrow> ('w, invoice) task" where
  "lnbits_createInvoice pe ps request =
     await (reading (pr_dates pe)) (\<lambda>de.
     await (lift_result (callback_hmac (pr_secrets pe) (de_now de))) (\<lambda>hmac.
     await (lift_result (pr_callback_url pe (ps_lnbits_callbackBaseURL ps) hmac)) (\<lambda>webhook.
     await (hc_post pe ''/api/v1/payments'' (JObject [(''amount'', JNumber (msats_to_sats (rq_amount request))),
         (''memo'', JString (rq_description request)),
         (''extra'', JObject [(''internalId'', JString (rq_requestId request))]), (''out'', JBool False),
         (''webhook'', JString webhook)])) (\<lambda>created.
     await (lift_result (jget ''payment_hash'' created)) (\<lambda>hash.
     await (hc_get pe (''/api/v1/payments/'' @ (case string_of hash of None \<Rightarrow> ''undefined'' | Some h \<Rightarrow> h))) (\<lambda>data.
     lift_result (lnbits_invoice data)))))))"

subsection \<open>LNURL, and no processor\<close>

definition lnurl_getInvoice :: "'w processor_env \<Rightarrow> invoice \<Rightarrow> ('w, invoice_object) task" where
  "lnurl_getInvoice pe invoice =
     await (hc_get pe (case iv_verifyURL invoice of None \<Rightarrow> ''undefined'' | Some url \<Rightarrow> url)) (\<lambda>data.
     await (lift_result (jget ''settled'' data)) (\<lambda>settled.
     await (reading (pr_dates pe)) (\<lambda>de.
     returning ([KId, KConfirmedAt, KStatus], no_invoice\<lparr>iv_id := iv_id invoice,
       iv_confirmedAt := (if truthy settled then Some (de_now de) else None),
       iv_status := Some (if truthy settled then COMPLETED else PENDING)\<rparr>))))"

definition lnurl_createInvoice ::
    "'w processor_env \<Rightarrow> processor_settings \<Rightarrow> invoice_request \<Rightarrow> ('w, invoice) task" where
  "lnurl_createInvoice pe ps request =
     await (hc_get pe ((case ps_lnurl_invoiceURL ps of None \<Rightarrow> ''undefined'' | Some url \<Rightarrow> url) @
         ''/callback?amount='' @ int_to_string (rq_amount request) @ ''&comment='' @ rq_description request)) (\<lambda>data.
     await (pr_uuid pe) (\<lambda>uuid.
     await (lift_result (jget ''pr'' data)) (\<lambda>pr.
     await (reading (pr_dates pe)) (\<lambda>de.
     returning (no_invoice\<lparr>iv_id := Some uuid, iv_pubkey := Some (rq_requestId request),
       iv_bolt11 := string_of pr, iv_amountRequested := Some (rq_amount request),
       iv_description := Some (rq_description request), iv_unit := Some MSATS, iv_status := Some PENDING,
       iv_createdAt := Some (de_now de), iv_verifyURL := string_of (jprop ''verify'' data)\<rparr>)))))"

definition null_getInvoice :: "'w processor_env \<Rightarrow> string option \<Rightarrow> ('w, invoice_object) task" where
  "null_getInvoice pe invoiceId =
     await (reading (pr_dates pe)) (\<lambda>de.
     returning ([KId, KPubkey, KBolt11, KDescription, KStatus, KUnit, KAmountRequested, KExpiresAt,
         KConfirmedAt, KCreatedAt, KUpdatedAt, KVerifyURL],
       no_invoice\<lparr>iv_id := invoiceId, iv_pubkey := Some [], iv_bolt11 := Some [], iv_description := Some [],
         iv_status := Some PENDING, iv_unit := Some MSATS, iv_amountRequested := Some 0,
         iv_expiresAt := Some (de_now de), iv_createdAt := Some (de_now de),
         iv_updatedAt := Some (de_now de), iv_verifyURL := Some []\<rparr>))"

definition null_createInvoice :: "'w processor_env \<Rightarrow> invoice_request \<Rightarrow> ('w, invoice) task" where
  "null_createInvoice pe request =
     await (reading (pr_dates pe)) (\<lambda>de.
     returning (no_invoice\<lparr>iv_description := Some [], iv_status := Some PENDING, iv_unit := Some MSATS,
       iv_amountRequested := Some 0, iv_id := Some [], iv_expiresAt := Some (de_now de),
       iv_bolt11 := Some [], iv_pubkey := Some [], iv_createdAt := Some (de_now de), iv_verifyURL := Some []\<rparr>))"

subsection \<open>createPaymentsProcessor\<close>

datatype processor = Lnurl | Zebedee | LNbits | Nodeless | OpenNode | NullProcessor

text \<open>The configuration of the axios instance; \<open>None\<close> for a base address that is not set.\<close>

record axios_config =
  ax_headers :: "(string \<times> string) list"
  ax_baseURL :: "string option"

definition json_content :: "string \<times> string" where
  "json_content = (''content-type'', ''application/json'')"

definition getZebedeeAxiosConfig :: "process_env \<Rightarrow> processor_settings \<Rightarrow> axios_config result" where
  "getZebedeeAxiosConfig env ps =
     (case truthy_env env ''ZEBEDEE_API_KEY'' of
        None \<Rightarrow> Inl (plain_error ''ZEBEDEE_API_KEY must be set.'')
      | Some key \<Rightarrow> Inr \<lparr>ax_headers = [json_content, (''apikey'', key)], ax_baseURL = ps_zebedee_baseURL ps\<rparr>)"

definition getLNbitsAxiosConfig :: "process_env \<Rightarrow> processor_settings \<Rightarrow> axios_config result" where
  "getLNbitsAxiosConfig env ps =
     (case truthy_env env ''LNBITS_API_KEY'' of
        None \<Rightarrow> Inl (plain_error ''LNBITS_API_KEY must be set to an invoice or admin key.'')
      | Some key \<Rightarrow> Inr \<lparr>ax_headers = [json_content, (''x-api-key'', key)], ax_baseURL = ps_lnbits_baseURL ps\<rparr>)"

definition getNodelessAxiosConfig :: "process_env \<Rightarrow> processor_settings \<Rightarrow> axios_config result" where
  "getNodelessAxiosConfig env ps =
     (case truthy_env env ''NODELESS_API_KEY'' of
        None \<Rightarrow> Inl (plain_error ''NODELESS_API_KEY must be set.'')
      | Some key \<Rightarrow>
          Inr \<lparr>ax_headers = [json_content, (''authorization'', ''Bearer '' @ key), (''accept'', ''application/json'')],
            ax_baseURL = ps_nodeless_baseURL ps\<rparr>)"

definition getOpenNodeAxiosConfig :: "process_env \<Rightarrow> processor_settings \<Rightarrow> axios_config result" where
  "getOpenNodeAxiosConfig env ps =
     (case truthy_env env ''OPENNODE_API_KEY'' of
        None \<Rightarrow> Inl (plain_error ''OPENNODE_API_KEY must be set.'')
      | Some key \<Rightarrow>
          Inr \<lparr>ax_headers = [json_content, (''authorization'', key)], ax_baseURL = ps_opennode_baseURL ps\<rparr>)"

text \<open>\<open>typeof url === 'undefined' || url.indexOf(placeholder) >= 0\<close>.\<close>

definition placeholder_host :: string where
  "placeholder_host = ''nostream.your-domain.com''"

definition callback_unset :: "string option \<Rightarrow> bool" where
  "callback_unset url =
     (case url of None \<Rightarrow> True | Some u \<Rightarrow> list_ex (\<lambda>t. starts_with t placeholder_host) (suffixes u))"

definition not_configured :: "string \<Rightarrow> exn" where
  "not_configured setting = plain_error (''Setting paymentsProcessor.'' @ setting)"

text \<open>A processor with the HTTP client it is given.\<close>

type_synonym configured_processor = "processor \<times> axios_config"

definition createZebedeePaymentsProcessor ::
    "process_env \<Rightarrow> processor_settings \<Rightarrow> relay_settings \<Rightarrow> configured_processor result" where
  "createZebedeePaymentsProcessor env ps st =
     (if callback_unset (ps_zebedee_callbackBaseURL ps)
      then Inl (not_configured ''zebedee.callbackBaseURL is not configured.'')
      else if (case st_zebedee_ipWhitelist st of None \<Rightarrow> True | Some ips \<Rightarrow> ips = [])
      then Inl (not_configured ''zebedee.ipWhitelist is empty.'')
      else map_sum id (Pair Zebedee) (getZebedeeAxiosConfig env ps))"

definition createLNbitsPaymentProcessor ::
    "process_env \<Rightarrow> processor_settings \<Rightarrow> configured_processor result" where
  "createLNbitsPaymentProcessor env ps =
     (if callback_unset (ps_lnbits_callbackBaseURL ps)
      then Inl (not_configured ''lnbits.callbackBaseURL is not configured.'')
      else map_sum id (Pair LNbits) (getLNbitsAxiosConfig env ps))"

definition createNodelessPaymentsProcessor ::
    "process_env \<Rightarrow> processor_settings \<Rightarrow> configured_processor result" where
  "createNodelessPaymentsProcessor env ps = map_sum id (Pair Nodeless) (getNodelessAxiosConfig env ps)"

definition createOpenNodePaymentsProcessor ::
    "process_env \<Rightarrow> processor_settings \<Rightarrow> configured_processor result" where
  "createOpenNodePaymentsProcessor env ps =
     (if callback_unset (ps_opennode_callbackBaseURL ps)
      then Inl (not_configured ''opennode.callbackBaseURL is not configured.'')
      else map_sum id (Pair OpenNode) (getOpenNodeAxiosConfig env ps))"

definition plain_client :: axios_config where
  "plain_client = \<lparr>ax_headers = [], ax_baseURL = None\<rparr>"

definition createLnurlPaymentsProcessor :: "processor_settings \<Rightarrow> configured_processor result" where
  "createLnurlPaymentsProcessor ps =
     (case ps_lnurl_invoiceURL ps of
        None \<Rightarrow> Inl (plain_error (''Unable to create payments processor: '' @
                  ''Setting paymentsProcessor.lnurl.invoiceURL is not configured.''))
      | Some _ \<Rightarrow> Inr (Lnurl, plain_client))"

definition createPaymentsProcessor ::
    "process_env \<Rightarrow> processor_settings \<Rightarrow> relay_settings \<Rightarrow> configured_processor result" where
  "createPaymentsProcessor env ps st =
     (case st_payments st of
        None \<Rightarrow> Inr (NullProcessor, plain_client)
      | Some p \<Rightarrow>
          if \<not> pay_enabled p then Inr (NullProcessor, plain_client)
          else if pay_processor p = ''lnurl'' then createLnurlPaymentsProcessor ps
          else if pay_processor p = ''zebedee'' then createZebedeePaymentsProcessor env ps st
          else if pay_processor p = ''lnbits'' then createLNbitsPaymentProcessor env ps
          else if pay_processor p = ''nodeless'' then createNodelessPaymentsProcessor env ps
          else if pay_processor p = ''opennode'' then createOpenNodePaymentsProcessor env ps
          else Inr (NullProcessor, plain_client))"

text \<open>
  The two methods of the processor. \<open>getInvoiceFromPaymentsProcessor\<close> passes an id, or the invoice
  when it has a verification address; a processor that expects the other prints it as JavaScript does.
\<close>

definition ref_text :: "invoice_ref \<Rightarrow> string" where
  "ref_text ref = (case ref of RefId (Some i) \<Rightarrow> i | RefId None \<Rightarrow> ''undefined'' | RefInvoice _ \<Rightarrow> ''[object Object]'')"

fun processor_getInvoice ::
    "processor \<Rightarrow> 'w processor_env \<Rightarrow> processor_settings \<Rightarrow> invoice_ref \<Rightarrow> ('w, invoice_object) task" where
  "processor_getInvoice Lnurl pe ps ref =
     lnurl_getInvoice pe (case ref of RefInvoice i \<Rightarrow> i | RefId _ \<Rightarrow> no_invoice)"
| "processor_getInvoice Zebedee pe ps ref = zebedee_getInvoice pe (ref_text ref)"
| "processor_getInvoice LNbits pe ps ref = lnbits_getInvoice pe (ref_text ref)"
| "processor_getInvoice Nodeless pe ps ref = nodeless_getInvoice pe ps (ref_text ref)"
| "processor_getInvoice OpenNode pe ps ref = opennode_getInvoice pe (ref_text ref)"
| "processor_getInvoice NullProcessor pe ps ref =
     null_getInvoice pe (case ref of RefId i \<Rightarrow> i | RefInvoice i \<Rightarrow> None)"

fun processor_createInvoice ::
    "processor \<Rightarrow> 'w processor_env \<Rightarrow> processor_settings \<Rightarrow> invoice_request \<Rightarrow> ('w, invoice) task" where
  "processor_createInvoice Lnurl pe ps rq = lnurl_createInvoice pe ps rq"
| "processor_createInvoice Zebedee pe ps rq = zebedee_createInvoice pe ps rq"
| "processor_createInvoice LNbits pe ps rq = lnbits_createInvoice pe ps rq"
| "processor_createInvoice Nodeless pe ps rq = nodeless_createInvoice pe ps rq"
| "processor_createInvoice OpenNode pe ps rq = opennode_createInvoice pe ps rq"
| "processor_createInvoice NullProcessor pe ps rq = null_createInvoice pe rq"

section \<open>Which processors start\<close>

fun processor_key :: "processor \<Rightarrow> string" where
  "processor_key Zebedee = ''ZEBEDEE_API_KEY''"
| "processor_key LNbits = ''LNBITS_API_KEY''"
| "processor_key Nodeless = ''NODELESS_API_KEY''"
| "processor_key OpenNode = ''OPENNODE_API_KEY''"
| "processor_key _ = []"

fun processor_header :: "processor \<Rightarrow> string \<Rightarrow> string \<times> string" where
  "processor_header Zebedee key = (''apikey'', key)"
| "processor_header LNbits key = (''x-api-key'', key)"
| "processor_header Nodeless key = (''authorization'', ''Bearer '' @ key)"
| "processor_header _ key = (''authorization'', key)"

fun processor_callback :: "processor \<Rightarrow> processor_settings \<Rightarrow> string option" where
  "processor_callback Zebedee ps = ps_zebedee_callbackBaseURL ps"
| "processor_callback LNbits ps = ps_lnbits_callbackBaseURL ps"
| "processor_callback OpenNode ps = ps_opennode_callbackBaseURL ps"
| "processor_callback _ ps = Some []"

lemmas processor_factories =
  createPaymentsProcessor_def createLnurlPaymentsProcessor_def createZebedeePaymentsProcessor_def
  createLNbitsPaymentProcessor_def createNodelessPaymentsProcessor_def createOpenNodePaymentsProcessor_def
  getZebedeeAxiosConfig_def getLNbitsAxiosConfig_def getNodelessAxiosConfig_def getOpenNodeAxiosConfig_def

text \<open>
  A processor other than LNURL starts only with its key in the environment, which it sends with every
  request, and with a callback address of its own where it has one.
\<close>

lemma processor_configured:
  assumes "createPaymentsProcessor env ps st = Inr (p, client)" and "p \<noteq> NullProcessor" and "p \<noteq> Lnurl"
  shows "(\<exists>key. map_of env (processor_key p) = Some key \<and> key \<noteq> [] \<and>
      processor_header p key \<in> set (ax_headers client)) \<and>
    \<not> callback_unset (processor_callback p ps)"
proof -
  have key: "truthy_env env x = Some key \<Longrightarrow> map_of env x = Some key \<and> key \<noteq> []" for x key
    by (auto simp: truthy_env_def split: option.splits if_splits)
  have own: "\<not> callback_unset (Some [])" by (simp add: callback_unset_def placeholder_host_def)
  show ?thesis
    using assms own
    by (auto simp: processor_factories plain_client_def json_content_def
        split: option.splits if_splits sum.splits dest!: key)
qed

text \<open>With no payments, or an unknown processor, nothing is required and nothing fails.\<close>

lemma null_processor:
  "(\<And>p. st_payments st = Some p \<Longrightarrow> \<not> pay_enabled p) \<Longrightarrow>
   createPaymentsProcessor env ps st = Inr (NullProcessor, plain_client)"
  by (auto simp: createPaymentsProcessor_def split: option.splits)

end
