(* ===== verification/Clients.thy ===== *)
theory Clients
  imports Cluster Payment_Processors
begin

text \<open>
  The connections a process opens, from \<open>src/database/client.ts\<close>, \<open>src/cache/client.ts\<close> and
  \<open>src/tor/client.ts\<close>: how they are configured from the environment, and that each is opened once. A
  database or cache client is known by its configuration; the Tor package and the files are
  parameters. The payload limit of \<open>src/factories/worker-factory.ts\<close> is here too.
\<close>

section \<open>Reading the environment\<close>

text \<open>\<open>Number(process.env.X)\<close>, and \<open>process.env.X ? Number(process.env.X) : n\<close>.\<close>

definition env_number :: "process_env \<Rightarrow> string \<Rightarrow> js_number" where
  "env_number env x = (case map_of env x of None \<Rightarrow> JNaN | Some s \<Rightarrow> js_Number s)"

definition env_number_or :: "process_env \<Rightarrow> string \<Rightarrow> nat \<Rightarrow> js_number" where
  "env_number_or env x n = (case truthy_env env x of None \<Rightarrow> JFraction False n 1 | Some s \<Rightarrow> js_Number s)"

text \<open>A variable in a template literal.\<close>

definition env_text :: "process_env \<Rightarrow> string \<Rightarrow> string" where
  "env_text env x = (case map_of env x of None \<Rightarrow> ''undefined'' | Some s \<Rightarrow> s)"

section \<open>The database clients\<close>

datatype db_connection =
    DbUri string
  | DbParameters (dp_host: "string option") (dp_port: js_number) (dp_user: "string option")
      (dp_password: "string option") (dp_database: "string option")

record db_config =
  dbc_tag :: string
  dbc_connection :: db_connection
  dbc_pool_min :: js_number
  dbc_pool_max :: js_number
  dbc_pool_idleTimeoutMillis :: nat
  dbc_pool_acquireTimeoutMillis :: js_number
  dbc_acquireConnectionTimeout :: "js_number option"

text \<open>The variables of a connection have the same names after a prefix.\<close>

definition db_parameters :: "process_env \<Rightarrow> string \<Rightarrow> db_connection" where
  "db_parameters env pre =
     DbParameters (map_of env (pre @ ''DB_HOST'')) (env_number env (pre @ ''DB_PORT''))
       (map_of env (pre @ ''DB_USER'')) (map_of env (pre @ ''DB_PASSWORD'')) (map_of env (pre @ ''DB_NAME''))"

definition getMasterConfig :: "process_env \<Rightarrow> db_config" where
  "getMasterConfig env =
     \<lparr>dbc_tag = ''master'',
      dbc_connection = (case truthy_env env ''DB_URI'' of Some uri \<Rightarrow> DbUri uri | None \<Rightarrow> db_parameters env []),
      dbc_pool_min = env_number_or env ''DB_MIN_POOL_SIZE'' 0,
      dbc_pool_max = env_number_or env ''DB_MAX_POOL_SIZE'' 3,
      dbc_pool_idleTimeoutMillis = 60000,
      dbc_pool_acquireTimeoutMillis = env_number_or env ''DB_ACQUIRE_CONNECTION_TIMEOUT'' 60000,
      dbc_acquireConnectionTimeout = Some (env_number_or env ''DB_ACQUIRE_CONNECTION_TIMEOUT'' 60000)\<rparr>"

definition getReadReplicaConfigByIndex :: "process_env \<Rightarrow> string \<Rightarrow> db_config" where
  "getReadReplicaConfigByIndex env index =
     (let pre = ''RR'' @ index @ ''_'' in
      \<lparr>dbc_tag = ''read-replica'',
       dbc_connection = db_parameters env pre,
       dbc_pool_min = env_number_or env (pre @ ''DB_MIN_POOL_SIZE'') 0,
       dbc_pool_max = env_number_or env (pre @ ''DB_MAX_POOL_SIZE'') 3,
       dbc_pool_idleTimeoutMillis = 60000,
       dbc_pool_acquireTimeoutMillis = env_number_or env (pre @ ''DB_ACQUIRE_CONNECTION_TIMEOUT'') 60000,
       dbc_acquireConnectionTimeout = None\<rparr>)"

text \<open>
  The remainder, printed. For numbers that are no integers it is not printed here (\<open>None\<close>): the
  variables are documented as an index and a count.
\<close>

definition js_remainder_text :: "js_number \<Rightarrow> js_number \<Rightarrow> string option" where
  "js_remainder_text a b =
     (if a = JNaN \<or> b = JNaN \<or> a = JInfinity then Some ''NaN''
      else case safe_integer a of
             None \<Rightarrow> None
           | Some i \<Rightarrow>
               if b = JInfinity then Some (int_to_string i)
               else (case safe_integer b of
                       None \<Rightarrow> None
                     | Some n \<Rightarrow> Some (if n = 0 then ''NaN'' else int_to_string (sgn i * (\<bar>i\<bar> mod \<bar>n\<bar>)))))"

definition readReplicaIndex :: "process_env \<Rightarrow> string option" where
  "readReplicaIndex env = js_remainder_text (env_number env ''WORKER_INDEX'') (env_number env ''READ_REPLICAS'')"

definition getReadReplicaConfig :: "process_env \<Rightarrow> db_config option" where
  "getReadReplicaConfig env = map_option (getReadReplicaConfigByIndex env) (readReplicaIndex env)"

text \<open>The clients of a process, by their configuration.\<close>

record db_clients =
  dbs_write :: "db_config option"
  dbs_read :: "db_config option"

definition no_clients :: db_clients where
  "no_clients = \<lparr>dbs_write = None, dbs_read = None\<rparr>"

definition getMasterDbClient :: "process_env \<Rightarrow> db_clients \<Rightarrow> db_config \<times> db_clients" where
  "getMasterDbClient env c =
     (case dbs_write c of
        Some config \<Rightarrow> (config, c)
      | None \<Rightarrow> (getMasterConfig env, c\<lparr>dbs_write := Some (getMasterConfig env)\<rparr>))"

definition getReadReplicaDbClient :: "process_env \<Rightarrow> db_clients \<Rightarrow> db_config option \<times> db_clients" where
  "getReadReplicaDbClient env c =
     (if map_of env ''READ_REPLICA_ENABLED'' \<noteq> Some ''true''
      then (case getMasterDbClient env c of (config, c') \<Rightarrow> (Some config, c'))
      else case dbs_read c of
             Some config \<Rightarrow> (Some config, c)
           | None \<Rightarrow> (getReadReplicaConfig env, c\<lparr>dbs_read := getReadReplicaConfig env\<rparr>))"

text \<open>\<open>releaseConnection\<close>: the time of the last line about a pool, and whether one is printed.\<close>

definition releaseConnection :: "string \<Rightarrow> bool \<Rightarrow> int \<Rightarrow> (string \<rightharpoonup> int) \<Rightarrow> bool \<times> (string \<rightharpoonup> int)" where
  "releaseConnection tag released now lastUpdate =
     (if \<not> released then (False, lastUpdate)
      else let last = (case lastUpdate tag of None \<Rightarrow> now | Some t \<Rightarrow> t) in
           if now - last \<ge> 60000 then (True, lastUpdate(tag \<mapsto> now)) else (False, lastUpdate(tag \<mapsto> last)))"

section \<open>The cache client\<close>

record cache_config =
  cc_url :: string
  cc_password :: "string option"

definition getCacheConfig :: "process_env \<Rightarrow> cache_config" where
  "getCacheConfig env =
     \<lparr>cc_url = (case truthy_env env ''REDIS_URI'' of
         Some uri \<Rightarrow> uri
       | None \<Rightarrow> ''redis://'' @ env_text env ''REDIS_USER'' @ '':'' @ env_text env ''REDIS_PASSWORD'' @ ''@'' @
           env_text env ''REDIS_HOST'' @ '':'' @ env_text env ''REDIS_PORT''),
      cc_password = map_of env ''REDIS_PASSWORD''\<rparr>"

definition getCacheClient :: "process_env \<Rightarrow> cache_config option \<Rightarrow> cache_config \<times> cache_config option" where
  "getCacheClient env instance_of =
     (case instance_of of Some config \<Rightarrow> (config, instance_of) | None \<Rightarrow> (getCacheConfig env, Some (getCacheConfig env)))"

text \<open>
  The connection of the Redis adapter: the promise \<open>connect()\<close> gave, replaced by a new one whenever the
  client reconnects; the new one is fulfilled when the client is ready, or rejected by the first error.
  The operations of the adapter await it.
\<close>

datatype promise = Pending | Fulfilled | Rejected

record redis_connection =
  rc_promise :: promise
  rc_initial :: bool

datatype redis_event = ConnectFulfilled | ConnectRejected | RedisReconnecting | RedisReady | RedisError

definition redis_connecting :: redis_connection where
  "redis_connecting = \<lparr>rc_promise = Pending, rc_initial = True\<rparr>"

definition settle :: "promise \<Rightarrow> redis_connection \<Rightarrow> redis_connection" where
  "settle p c = (if rc_promise c = Pending then c\<lparr>rc_promise := p\<rparr> else c)"

fun redis_listener :: "redis_event \<Rightarrow> redis_connection \<Rightarrow> redis_connection" where
  "redis_listener ConnectFulfilled c = (if rc_initial c then settle Fulfilled c else c)"
| "redis_listener ConnectRejected c = (if rc_initial c then settle Rejected c else c)"
| "redis_listener RedisReconnecting c = \<lparr>rc_promise = Pending, rc_initial = False\<rparr>"
| "redis_listener RedisReady c = (if rc_initial c then c else settle Fulfilled c)"
| "redis_listener RedisError c = (if rc_initial c then c else settle Rejected c)"

text \<open>An error while the client reconnects makes every operation of the adapter throw until the client
  reconnects again, even when the client becomes ready before.\<close>

lemma redis_error_sticks:
  assumes "RedisReconnecting \<notin> set events"
  shows "rc_promise (fold redis_listener events (redis_listener RedisError (redis_listener RedisReconnecting c))) = Rejected"
proof -
  have "rc_promise (fold redis_listener events d) = Rejected" if "rc_promise d = Rejected" for d
    using that assms
  proof (induction events arbitrary: d)
    case (Cons e es)
    have "rc_promise (redis_listener e d) = Rejected" using Cons.prems by (cases e) (auto simp: settle_def)
    with Cons show ?case by simp
  qed simp
  then show ?thesis by (simp add: settle_def)
qed

section \<open>The WebSocket server\<close>

text \<open>\<open>maxPayload\<close>: the deprecated setting is a string, used as it is.\<close>

definition maxPayload :: "relay_settings \<Rightarrow> string + int" where
  "maxPayload st =
     (case nw_max_payload_size (st_network st) of
        Some s \<Rightarrow> Inl s
      | None \<Rightarrow> Inr (case nw_maxPayloadSize (st_network st) of None \<Rightarrow> 131072 | Some n \<Rightarrow> n))"

section \<open>The Tor client\<close>

record tor_config =
  tc_host :: "string option"
  tc_port :: js_number
  tc_password :: "string option"

record hidden_service =
  hs_ServiceID :: string
  hs_PrivateKey :: "string option"

text \<open>The package, over a world: connecting and quitting, adding a service for a port, a host and a
  key, and printing what it answers. \<open>tl_homedir\<close> and \<open>tl_join\<close> are the functions of the runtime.\<close>

record 'w tor_library =
  tl_homedir :: string
  tl_join :: "string \<Rightarrow> string \<Rightarrow> string"
  tl_readFile :: "string \<Rightarrow> ('w, string) task"
  tl_writeFile :: "string \<Rightarrow> string \<Rightarrow> ('w, unit) task"
  tl_connect :: "tor_config \<Rightarrow> ('w, unit) task"
  tl_quit :: "tor_config \<Rightarrow> ('w, unit) task"
  tl_addOnion :: "tor_config \<Rightarrow> js_number \<Rightarrow> string option \<Rightarrow> string option \<Rightarrow> ('w, hidden_service) task"
  tl_stringify :: "hidden_service \<Rightarrow> string"

definition getPrivateKeyFile :: "'w tor_library \<Rightarrow> process_env \<Rightarrow> string" where
  "getPrivateKeyFile lib env =
     tl_join lib
       (case map_of env ''NOSTR_CONFIG_DIR'' of Some dir \<Rightarrow> dir | None \<Rightarrow> tl_join lib (tl_homedir lib) ''.nostr'')
       ''v3_onion_private_key''"

definition createTorConfig :: "process_env \<Rightarrow> tor_config" where
  "createTorConfig env =
     \<lparr>tc_host = map_of env ''TOR_HOST'', tc_port = env_number_or env ''TOR_CONTROL_PORT'' 9051,
      tc_password = map_of env ''TOR_PASSWORD''\<rparr>"

text \<open>The state is the world and the client, known by its configuration.\<close>

type_synonym 'w tor_state = "'w \<times> tor_config option"

definition on_world :: "('w, 'a) task \<Rightarrow> ('w tor_state, 'a) task" where
  "on_world m s = (case m (fst s) of (r, w) \<Rightarrow> (r, (w, snd s)))"

definition set_client :: "tor_config option \<Rightarrow> ('w tor_state, unit) task" where
  "set_client client s = (Inr (), (fst s, client))"

definition getTorClient :: "'w tor_library \<Rightarrow> process_env \<Rightarrow> ('w tor_state, tor_config option) task" where
  "getTorClient lib env s =
     (if snd s = None \<and> tc_host (createTorConfig env) \<noteq> None
      then await (set_client (Some (createTorConfig env))) (\<lambda>_.
           await (catching (on_world (tl_connect lib (createTorConfig env))) (\<lambda>_. set_client None)) (\<lambda>_.
           reading snd)) s
      else reading snd s)"

definition closeTorClient :: "'w tor_library \<Rightarrow> ('w tor_state, unit) task" where
  "closeTorClient lib s =
     (case snd s of
        None \<Rightarrow> returning () s
      | Some c \<Rightarrow> await (on_world (tl_quit lib c)) (\<lambda>_. set_client None) s)"

definition stored_onion_key :: "'w tor_library \<Rightarrow> process_env \<Rightarrow> ('w tor_state, string option) task" where
  "stored_onion_key lib env =
     catching (await (on_world (tl_readFile lib (getPrivateKeyFile lib env))) (\<lambda>data.
       returning (if data = [] then None else Some data))) (\<lambda>_. returning None)"

definition addOnion ::
    "'w tor_library \<Rightarrow> process_env \<Rightarrow> js_number \<Rightarrow> string option \<Rightarrow> ('w tor_state, string) task" where
  "addOnion lib env port host =
     await (stored_onion_key lib env) (\<lambda>privateKey.
     await (getTorClient lib env) (\<lambda>client.
     case client of
       None \<Rightarrow> throwing (plain_error ''not connect'')
     | Some c \<Rightarrow>
         await (on_world (tl_addOnion lib c port host privateKey)) (\<lambda>hiddenService.
         case hs_PrivateKey hiddenService of
           Some key \<Rightarrow>
             if key = [] then throwing (plain_error (tl_stringify lib hiddenService))
             else await (on_world (tl_writeFile lib (getPrivateKeyFile lib env) key))
                    (\<lambda>_. returning (hs_ServiceID hiddenService))
         | None \<Rightarrow> throwing (plain_error (tl_stringify lib hiddenService)))))"

section \<open>Lemmas\<close>

text \<open>The clients of the main database and of the cache are opened once.\<close>

interpretation main_client: kept_value dbs_write "\<lambda>_. True" "\<lambda>env c. map_prod Inr id (getMasterDbClient env c)"
  by unfold_locales (auto simp: getMasterDbClient_def split: option.splits)

interpretation cache_client: kept_value id "\<lambda>_. True" "\<lambda>env c. map_prod Inr id (getCacheClient env c)"
  by unfold_locales (auto simp: getCacheClient_def split: option.splits)

lemma getMasterDbClient_once:
  "getMasterDbClient env c = (config, c') \<Longrightarrow> getMasterDbClient env' c' = (config, c')"
  using main_client.asked_again [of env c config c' env'] by (simp add: map_prod_def split: prod.splits)

lemma getReadReplicaDbClient_once:
  "map_of env ''READ_REPLICA_ENABLED'' = Some ''true'' \<Longrightarrow> getReadReplicaDbClient env c = (Some config, c') \<Longrightarrow>
   getReadReplicaDbClient env c' = (Some config, c')"
  by (auto simp: getReadReplicaDbClient_def split: option.splits)

text \<open>Without a Tor host nothing is contacted, and the service is refused.\<close>

lemma addOnion_no_host:
  assumes "map_of env ''TOR_HOST'' = None"
  shows "fst (addOnion lib env port host (w, None)) = Inl (plain_error ''not connect'')"
proof -
  have "\<exists>k w'. stored_onion_key lib env (w, None) = (Inr k, (w', None))"
    by (auto simp: stored_onion_key_def catching_def await_def on_world_def split: prod.split sum.split)
  then obtain k w' where "stored_onion_key lib env (w, None) = (Inr k, (w', None))" by blast
  then show ?thesis
    using assms by (simp add: addOnion_def await_simps getTorClient_def createTorConfig_def)
qed

text \<open>A service that is announced has had its key written to the file it is read from.\<close>

lemma addOnion_key_saved:
  assumes "addOnion lib env port host s = (Inr service, s')"
  shows "\<exists>c privateKey w0 w1 w2 hs key client. tl_addOnion lib c port host privateKey w0 = (Inr hs, w1) \<and>
    hs_PrivateKey hs = Some key \<and> key \<noteq> [] \<and> service = hs_ServiceID hs \<and>
    tl_writeFile lib (getPrivateKeyFile lib env) key w1 = (Inr (), w2) \<and> s' = (w2, client)"
proof -
  have on: "on_world m s0 = (Inr a, s1) \<longleftrightarrow> m (fst s0) = (Inr a, fst s1) \<and> snd s1 = snd s0" for m s0 and a :: 'x and s1
    by (cases s1) (auto simp: on_world_def split: prod.splits)
  from assms obtain k sa c sb hs sc where st:
    "tl_addOnion lib c port host k (fst sb) = (Inr hs, fst sc)"
    "(case hs_PrivateKey hs of
        Some key \<Rightarrow> if key = [] then throwing (plain_error (tl_stringify lib hs))
          else await (on_world (tl_writeFile lib (getPrivateKeyFile lib env) key)) (\<lambda>_. returning (hs_ServiceID hs))
      | None \<Rightarrow> throwing (plain_error (tl_stringify lib hs))) sc = (Inr service, s')"
    by (auto simp: addOnion_def await_Inr on split: option.splits)
  from st(2) obtain key w where w: "hs_PrivateKey hs = Some key" "key \<noteq> []" "service = hs_ServiceID hs"
      "tl_writeFile lib (getPrivateKeyFile lib env) key (fst sc) = (Inr (), fst s')"
    by (auto simp: await_Inr on split: option.splits if_splits)
  have "s' = (fst s', snd s')" by simp
  with st(1) w show ?thesis by blast
qed

text \<open>Two lines about a pool are at least a minute apart.\<close>

fun release_log :: "(string \<times> bool \<times> int) list \<Rightarrow> (string \<rightharpoonup> int) \<Rightarrow> (string \<times> int) list" where
  "release_log [] lastUpdate = []"
| "release_log ((tag, released, now) # rs) lastUpdate =
     (case releaseConnection tag released now lastUpdate of
        (printed, lastUpdate') \<Rightarrow> (if printed then [(tag, now)] else []) @ release_log rs lastUpdate')"

lemma release_log_after:
  "(tag, t) \<in> set (release_log rs lu) \<Longrightarrow> lu tag = Some t0 \<Longrightarrow> t \<ge> t0 + 60000"
proof (induction rs lu arbitrary: t0 rule: release_log.induct)
  case (2 tag' released now rs lu)
  obtain printed lu' where r: "releaseConnection tag' released now lu = (printed, lu')" by force
  have "\<exists>t1. lu' tag = Some t1 \<and> t0 \<le> t1 \<and> (printed \<and> tag' = tag \<longrightarrow> now \<ge> t0 + 60000)"
    using r "2.prems"(2) by (auto simp: releaseConnection_def Let_def split: if_splits option.splits)
  then obtain t1 where t1: "lu' tag = Some t1" "t0 \<le> t1" "printed \<Longrightarrow> tag' = tag \<Longrightarrow> now \<ge> t0 + 60000" by blast
  from "2.prems"(1) r have "(printed \<and> tag = tag' \<and> t = now) \<or> (tag, t) \<in> set (release_log rs lu')"
    by (auto split: if_splits)
  then show ?case
  proof
    assume "(tag, t) \<in> set (release_log rs lu')"
    from "2.IH" [OF r [symmetric] this t1(1)] t1(2) show ?thesis by simp
  qed (use t1(3) in auto)
qed simp

lemma release_log_spaced:
  "sorted_wrt (\<lambda>(tag, t) (tag', t'). tag = tag' \<longrightarrow> t' \<ge> t + 60000) (release_log rs lu)"
proof (induction rs lu rule: release_log.induct)
  case (2 tag released now rs lu)
  obtain printed lu' where r: "releaseConnection tag released now lu = (printed, lu')" by force
  have "lu' tag = Some now" if printed
    using r that by (auto simp: releaseConnection_def Let_def split: if_splits)
  with "2.IH" [OF r [symmetric]] r show ?case by (auto dest: release_log_after)
qed simp

section \<open>The replica of a process\<close>

lemma process_env_names [simp]:
  "(map_of penv ++ map_of (client_env i)) (CHR ''R'' # x) = map_of penv (CHR ''R'' # x)"
  "(map_of penv ++ map_of maintenance_env) (CHR ''R'' # x) = map_of penv (CHR ''R'' # x)"
  "(map_of penv ++ map_of (mirroring_env j)) (CHR ''R'' # x) = map_of penv (CHR ''R'' # x)"
  by (simp_all add: map_add_def client_env_def maintenance_env_def mirroring_env_def)

lemma replica_config_cong:
  assumes "\<And>x. map_of env (CHR ''R'' # x) = map_of env' (CHR ''R'' # x)"
  shows "getReadReplicaConfigByIndex env index = getReadReplicaConfigByIndex env' index"
  by (simp add: getReadReplicaConfigByIndex_def db_parameters_def env_number_def env_number_or_def
      truthy_env_def assms)

lemma remainder_text:
  assumes "i < 2 ^ 53" and "r < 2 ^ 53" and "0 < r"
  shows "js_remainder_text (js_Number (nat_to_string i)) (js_Number (nat_to_string r)) = Some (nat_to_string (i mod r))"
proof -
  have "sgn (int i) * (\<bar>int i\<bar> mod \<bar>int r\<bar>) = int (i mod r)"
    by (cases "i = 0") (simp_all add: sgn_if zmod_int)
  moreover have "js_Number (nat_to_string k) \<noteq> JNaN" "js_Number (nat_to_string k) \<noteq> JInfinity" for k
    by (simp_all add: js_Number_nat_to_string)
  ultimately show ?thesis
    using assms by (simp add: js_remainder_text_def safe_integer_nat_to_string int_to_string_def)
qed

lemma replica_client:
  assumes "map_of env ''READ_REPLICA_ENABLED'' = Some ''true''" and "readReplicaIndex env = Some index"
    and "\<And>x. map_of env (CHR ''R'' # x) = map_of penv (CHR ''R'' # x)"
  shows "fst (getReadReplicaDbClient env no_clients) = Some (getReadReplicaConfigByIndex penv index)"
  using assms(1,2) replica_config_cong [OF assms(3)]
  by (simp add: getReadReplicaDbClient_def no_clients_def getReadReplicaConfig_def)

lemma client_replica:
  assumes "map_of penv ''READ_REPLICA_ENABLED'' = Some ''true''"
    and "map_of penv ''READ_REPLICAS'' = Some (nat_to_string r)" and "0 < r" and "r < 2 ^ 53" and "i < 2 ^ 53"
  shows "fst (getReadReplicaDbClient (client_env i @ penv) no_clients) =
    Some (getReadReplicaConfigByIndex penv (nat_to_string (i mod r)))"
proof (rule replica_client)
  have "env_number (client_env i @ penv) ''WORKER_INDEX'' = js_Number (nat_to_string i)"
    by (simp add: env_number_def client_env_def)
  then show "readReplicaIndex (client_env i @ penv) = Some (nat_to_string (i mod r))"
    using assms(2-5) remainder_text [of i r] by (simp add: readReplicaIndex_def env_number_def)
qed (use assms(1) in simp_all)

lemma other_replica:
  assumes "map_of penv ''READ_REPLICA_ENABLED'' = Some ''true''" and "map_of penv ''WORKER_INDEX'' = None"
    and "env = maintenance_env \<or> env = mirroring_env j"
  shows "fst (getReadReplicaDbClient (env @ penv) no_clients) = Some (getReadReplicaConfigByIndex penv ''NaN'')"
proof (rule replica_client)
  show "readReplicaIndex (env @ penv) = Some ''NaN''"
    using assms(2,3)
    by (auto simp: readReplicaIndex_def env_number_def js_remainder_text_def maintenance_env_def mirroring_env_def)
qed (use assms(1,3) in auto)

text \<open>
  C39. Read replicas: with \<open>READ_REPLICAS\<close> set to \<open>r\<close>, the client workers the primary process starts read
  from replicas \<open>0\<close> to \<open>r - 1\<close>, each in turn, so that every replica is read by some worker when there
  are as many workers; the maintenance worker and the mirroring workers, which have no
  \<open>WORKER_INDEX\<close>, connect with the variables of a replica called \<open>NaN\<close>. (Node gives a forked process its
  own variables before those of its parent.)
\<close>

theorem replica_of_process:
  assumes "map_of penv ''READ_REPLICA_ENABLED'' = Some ''true''"
    and "map_of penv ''READ_REPLICAS'' = Some (nat_to_string r)" and "0 < r" and "r < 2 ^ 53"
    and "map_of penv ''WORKER_INDEX'' = None" and "n \<le> 2 ^ 53"
  shows "(\<forall>env \<in> set (startup_envs n st). \<exists>index.
      fst (getReadReplicaDbClient (env @ penv) no_clients) = Some (getReadReplicaConfigByIndex penv index) \<and>
      (if map_of env ''WORKER_TYPE'' = Some ''worker'' then \<exists>k < r. index = nat_to_string k else index = ''NaN'')) \<and>
    (r \<le> n \<longrightarrow> (\<forall>k < r. \<exists>env \<in> set (startup_envs n st).
      fst (getReadReplicaDbClient (env @ penv) no_clients) =
        Some (getReadReplicaConfigByIndex penv (nat_to_string k))))"
proof (intro conjI ballI impI allI)
  fix env assume "env \<in> set (startup_envs n st)"
  then consider (client) i where "i < n" "env = client_env i" | (other) j where "env = maintenance_env \<or> env = mirroring_env j"
    by (auto simp: startup_envs_def split: option.splits)
  then show "\<exists>index. fst (getReadReplicaDbClient (env @ penv) no_clients) = Some (getReadReplicaConfigByIndex penv index) \<and>
      (if map_of env ''WORKER_TYPE'' = Some ''worker'' then \<exists>k < r. index = nat_to_string k else index = ''NaN'')"
  proof cases
    case client
    then have "\<exists>k < r. nat_to_string (i mod r) = nat_to_string k" using mod_less_divisor [OF assms(3)] by blast
    with client show ?thesis using client_replica [OF assms(1-4), of i] assms(6)
      by (intro exI [of _ "nat_to_string (i mod r)"]) (auto simp: client_env_def)
  next
    case other
    then show ?thesis using other_replica [OF assms(1,5) other]
      by (intro exI [of _ "''NaN''"]) (auto simp: maintenance_env_def mirroring_env_def)
  qed
next
  fix k assume k: "r \<le> n" "k < r"
  then have "client_env k \<in> set (startup_envs n st)" by (simp add: startup_envs_def)
  with client_replica [OF assms(1-4), of k] k assms(6)
  show "\<exists>env \<in> set (startup_envs n st). fst (getReadReplicaDbClient (env @ penv) no_clients) =
      Some (getReadReplicaConfigByIndex penv (nat_to_string k))"
    by auto
qed

definition replicated_env :: process_env where
  "replicated_env = [(''READ_REPLICA_ENABLED'', ''true''), (''READ_REPLICAS'', nat_to_string 2),
     (''RR0_DB_HOST'', ''a''), (''RR1_DB_HOST'', ''b'')]"

theorem replica_of_process_witness:
  "\<exists>env \<in> set (startup_envs 3 plain_settings).
     dp_host (dbc_connection (the (fst (getReadReplicaDbClient (env @ replicated_env) no_clients)))) = Some ''b''"
proof -
  have "\<exists>env \<in> set (startup_envs 3 plain_settings). fst (getReadReplicaDbClient (env @ replicated_env) no_clients) =
      Some (getReadReplicaConfigByIndex replicated_env (nat_to_string 1))"
    using replica_of_process [of replicated_env 2 3 plain_settings] by (simp add: replicated_env_def)
  moreover have "dp_host (dbc_connection (getReadReplicaConfigByIndex replicated_env (nat_to_string 1))) = Some ''b''"
    by code_simp
  ultimately show ?thesis by (metis option.sel)
qed

end
