(* ===== verification/Payment_Controllers.thy ===== *)
theory Payment_Controllers
  imports Payment_Processors Http_Access
begin

text \<open>
  The controllers of \<open>src/controllers/\<close>: the callbacks of the payment processors, the request for an
  admission invoice, the status of an invoice and the admission check. A controller is a task that
  answers with a response; an exception it throws is the server's internal error.
\<close>

section \<open>Replies\<close>

definition reply :: "nat \<Rightarrow> string \<Rightarrow> ('w, http_response) task" where
  "reply status body = returning \<lparr>hr_status = status, hr_body = body\<rparr>"

definition processor_name :: "relay_settings \<Rightarrow> string option" where
  "processor_name st = map_option pay_processor (st_payments st)"

section \<open>Callbacks\<close>

text \<open>The services of the callbacks: the payments service, dates and secrets.\<close>

record 'w callback_env =
  cb_payments :: "'w payments_env"
  cb_processor :: "'w processor_env"

definition undefined_status :: exn where
  "undefined_status = type_error ''Cannot read properties of undefined (reading 'status')''"

text \<open>Still unpaid: \<open>status !== COMPLETED && !confirmedAt\<close>.\<close>

definition unsettled :: "invoice \<Rightarrow> bool" where
  "unsettled invoice \<longleftrightarrow> iv_status invoice \<noteq> Some COMPLETED \<and> iv_confirmedAt invoice = None"

text \<open>The end of every callback: confirm one invoice, notify about another.\<close>

definition settle ::
    "'w payments_env \<Rightarrow> relay_settings \<Rightarrow> invoice \<Rightarrow> invoice \<Rightarrow> string \<Rightarrow> ('w, http_response) task" where
  "settle env st confirmed notified body =
     await (confirmInvoice env st confirmed) (\<lambda>_.
     await (sendInvoiceUpdateNotification env st notified) (\<lambda>_.
     reply 200 body))"

text \<open>The object literal with five properties that two of the callbacks confirm.\<close>

definition invoice_summary ::
    "string option \<Rightarrow> string option \<Rightarrow> invoice_status option \<Rightarrow> int option \<Rightarrow> int option \<Rightarrow> invoice" where
  "invoice_summary key pubkey status confirmedAt amountPaid = no_invoice\<lparr>iv_id := key, iv_pubkey := pubkey,
     iv_status := status, iv_confirmedAt := confirmedAt, iv_amountPaid := amountPaid\<rparr>"

definition zebedee_handleRequest ::
    "'w callback_env \<Rightarrow> relay_settings \<Rightarrow> http_request \<Rightarrow> jvalue \<Rightarrow> ('w, http_response) task" where
  "zebedee_handleRequest cb st request body =
     (let ipWhitelist = (case st_zebedee_ipWhitelist st of None \<Rightarrow> [] | Some l \<Rightarrow> l) in
      await (lift_result (getRemoteAddress request st)) (\<lambda>remoteAddress.
      if ipWhitelist \<noteq> [] \<and> remoteAddress \<notin> set ipWhitelist then reply 403 ''Forbidden''
      else if processor_name st \<noteq> Some ''zebedee'' then reply 403 ''Forbidden''
      else
        await (reading (pr_dates (cb_processor cb))) (\<lambda>de.
        await (lift_result (fromZebedeeInvoice de body)) (\<lambda>(_, invoice).
        await (updateInvoiceStatus (cb_payments cb) (iv_id invoice) (iv_status invoice)) (\<lambda>updated.
        case updated of
          None \<Rightarrow> throwing undefined_status
        | Some updatedInvoice \<Rightarrow>
            if unsettled updatedInvoice then reply 200 ''''
            else
              settle (cb_payments cb) st
                (invoice_summary (iv_id invoice) (iv_pubkey invoice) (iv_status updatedInvoice)
                   (iv_confirmedAt invoice) (iv_amountRequested invoice))
                (updatedInvoice\<lparr>iv_amountPaid := iv_amountRequested invoice\<rparr>) ''OK'')))))"

definition opennode_handleRequest ::
    "'w callback_env \<Rightarrow> relay_settings \<Rightarrow> jvalue \<Rightarrow> ('w, http_response) task" where
  "opennode_handleRequest cb st body =
     await (reading (pr_dates (cb_processor cb))) (\<lambda>de.
     await (lift_result (fromOpenNodeInvoice de body)) (\<lambda>(_, invoice).
     await (updateInvoiceStatus (cb_payments cb) (iv_id invoice) (iv_status invoice)) (\<lambda>updated.
     case updated of
       None \<Rightarrow> throwing undefined_status
     | Some updatedInvoice \<Rightarrow>
         if unsettled updatedInvoice then reply 200 ''''
         else
           settle (cb_payments cb) st
             (invoice_summary (iv_id invoice) (iv_pubkey invoice) (iv_status updatedInvoice)
                (iv_confirmedAt updatedInvoice) (iv_amountRequested updatedInvoice))
             (updatedInvoice\<lparr>iv_amountPaid := iv_amountRequested invoice\<rparr>) ''OK'')))"

text \<open>
  \<open>webhook_secret\<close> is \<open>process.env.NODELESS_WEBHOOK_SECRET\<close>, \<open>rawBody\<close> the bytes of the request and
  \<open>body\<close> their JSON value. An undefined secret makes \<open>createHmac\<close> throw.
\<close>

definition nodeless_body :: "'w processor_env \<Rightarrow> int \<Rightarrow> jvalue \<Rightarrow> jvalue" where
  "nodeless_body pe now body =
     JObject [(''id'', jprop ''uuid'' body), (''status'', jprop ''status'' body),
       (''satsAmount'', jprop ''amount'' body), (''metadata'', jprop ''metadata'' body),
       (''paidAt'', if jprop ''status'' body = JString ''paid'' then JString (pr_iso_date pe now) else JNull),
       (''createdAt'', if string_of (jprop ''createdAt'' body) \<noteq> None then jprop ''createdAt'' body
          else jpath [''metadata'', ''createdAt''] body)]"

definition nodeless_handleRequest ::
    "'w callback_env \<Rightarrow> relay_settings \<Rightarrow> string option \<Rightarrow> http_request \<Rightarrow> buffer \<Rightarrow> jvalue \<Rightarrow>
      ('w, http_response) task" where
  "nodeless_handleRequest cb st webhook_secret request rawBody body =
     (case webhook_secret of
        None \<Rightarrow> throwing (type_error ''The key argument must be of type string'')
      | Some secret \<Rightarrow>
          if Some (fromBuffer (hmacSha256 (pr_secrets (cb_processor cb)) (utf8 secret) rawBody)) \<noteq>
             map_of (hq_headers request) ''nodeless-signature''
          then reply 403 ''Forbidden''
          else if processor_name st \<noteq> Some ''nodeless'' then reply 403 ''Forbidden''
          else
            await (reading (pr_dates (cb_processor cb))) (\<lambda>de.
            await (lift_result (fromNodelessInvoice de (nodeless_body (cb_processor cb) (de_now de) body)))
              (\<lambda>(_, invoice).
            await (updateInvoiceStatus (cb_payments cb) (iv_id invoice) (iv_status invoice)) (\<lambda>updated.
            case updated of
              None \<Rightarrow> throwing undefined_status
            | Some updatedInvoice \<Rightarrow>
                if unsettled updatedInvoice then reply 200 ''''
                else
                  settle (cb_payments cb) st
                    (invoice\<lparr>iv_amountPaid := iv_amountRequested invoice\<rparr>)
                    (updatedInvoice\<lparr>iv_amountPaid := iv_amountRequested invoice\<rparr>) ''{\"status\":\"ok\"}''))))"

subsection \<open>LNbits\<close>

text \<open>\<open>/^[0-9]{1,20}:[0-9a-f]{64}$/\<close> and the two parts.\<close>

definition hmac_parts :: "string \<Rightarrow> (string \<times> string) option" where
  "hmac_parts s =
     (let expiry = takeWhile is_digit s; rest = dropWhile is_digit s in
      case rest of
        c # mac \<Rightarrow>
          if 1 \<le> length expiry \<and> length expiry \<le> 20 \<and> c = CHR '':'' \<and> is_lower_hex 64 mac
          then Some (expiry, mac) else None
      | [] \<Rightarrow> None)"

text \<open>\<open>parseInt\<close> reads at most twenty digits; rounding to a double does not change on which side of
  the clock the number lies.\<close>

definition hmac_valid :: "secret_env \<Rightarrow> int \<Rightarrow> jvalue \<Rightarrow> bool result" where
  "hmac_valid se now hmac =
     (case (case string_of hmac of None \<Rightarrow> None | Some s \<Rightarrow> hmac_parts s) of
        None \<Rightarrow> Inr False
      | Some (expiry, mac) \<Rightarrow>
          (case deriveFromSecret se callback_key of
             Inl x \<Rightarrow> Inl x
           | Inr secret \<Rightarrow>
               Inr (fromBuffer (hmacSha256 se secret (utf8 expiry)) = mac \<and> int (dec_value expiry) > now)))"

text \<open>\<open>hmac\<close> is \<open>request.query.hmac\<close>.\<close>

definition lnbits_handleRequest ::
    "'w callback_env \<Rightarrow> relay_settings \<Rightarrow> http_request \<Rightarrow> jvalue \<Rightarrow> jvalue \<Rightarrow> ('w, http_response) task" where
  "lnbits_handleRequest cb st request hmac body =
     await (lift_result (getRemoteAddress request st)) (\<lambda>_.
     if processor_name st \<noteq> Some ''lnbits'' then reply 403 ''Forbidden''
     else
       await (reading (pr_dates (cb_processor cb))) (\<lambda>de.
       await (lift_result (hmac_valid (pr_secrets (cb_processor cb)) (de_now de) hmac)) (\<lambda>validationPassed.
       if \<not> validationPassed then reply 403 ''Forbidden''
       else
         case string_of (jprop ''payment_hash'' body) of
           None \<Rightarrow> reply 400 ''Malformed body''
         | Some payment_hash \<Rightarrow>
             if length payment_hash \<noteq> 64 then reply 400 ''Malformed body''
             else
               await (getInvoiceFromPaymentsProcessor (cb_payments cb) (RefId (Some payment_hash))) (\<lambda>(_, invoice).
               await (findById (pe_dc (cb_payments cb)) MainClient payment_hash) (\<lambda>stored.
               case stored of
                 None \<Rightarrow> reply 404 ''No such invoice''
               | Some storedInvoice \<Rightarrow>
                   await (updateInvoice (cb_payments cb) invoice) (\<lambda>_.
                   if unsettled invoice then reply 200 ''''
                   else if iv_status storedInvoice = Some COMPLETED
                   then reply 409 ''Invoice is already marked paid''
                   else
                     settle (cb_payments cb) st (invoice\<lparr>iv_amountPaid := iv_amountRequested invoice\<rparr>)
                       (invoice\<lparr>iv_amountPaid := iv_amountRequested invoice\<rparr>) ''OK''))))))"

section \<open>The status of an invoice and the admission check\<close>

text \<open>The JSON body \<open>{ id, status }\<close>, and \<open>request.params.invoiceId\<close> as an option.\<close>

record status_reply =
  sr_status :: nat
  sr_id :: "string option"
  sr_text :: string

definition invoice_status_handleRequest ::
    "'w db_client \<Rightarrow> string option \<Rightarrow> ('w, status_reply) task" where
  "invoice_status_handleRequest dc invoiceId =
     (case invoiceId of
        None \<Rightarrow> returning \<lparr>sr_status = 400, sr_id = None, sr_text = ''invalid invoice''\<rparr>
      | Some key \<Rightarrow>
          if key = [] then returning \<lparr>sr_status = 400, sr_id = Some key, sr_text = ''invalid invoice''\<rparr>
          else
            catching
              (await (findById dc MainClient key) (\<lambda>invoice.
               returning (case invoice of
                 None \<Rightarrow> \<lparr>sr_status = 404, sr_id = Some key, sr_text = ''not found''\<rparr>
               | Some i \<Rightarrow> \<lparr>sr_status = 200, sr_id = iv_id i,
                   sr_text = (case iv_status i of None \<Rightarrow> ''null'' | Some s \<Rightarrow> status_name s)\<rparr>)))
              (\<lambda>_. returning \<lparr>sr_status = 500, sr_id = Some key, sr_text = ''error''\<rparr>))"

text \<open>\<open>user && user.isAdmitted && (!minBalance || user.balance >= minBalance)\<close>.\<close>

definition minimum_balance :: "relay_settings \<Rightarrow> int option" where
  "minimum_balance st =
     (case st_limits st of
        None \<Rightarrow> None
      | Some l \<Rightarrow>
          (case lm_event l of
             None \<Rightarrow> None
           | Some el \<Rightarrow> (case el_pubkey el of None \<Rightarrow> None | Some p \<Rightarrow> pl_minBalance p)))"

definition fully_admitted :: "relay_settings \<Rightarrow> user option \<Rightarrow> bool" where
  "fully_admitted st found =
     (case found of
        None \<Rightarrow> False
      | Some u \<Rightarrow> usr_isAdmitted u \<and>
          (case minimum_balance st of None \<Rightarrow> True | Some b \<Rightarrow> b = 0 \<or> usr_balance u \<ge> b))"

text \<open>The value is the body \<open>{ userAdmitted }\<close>, or \<open>None\<close> for the answer 429.\<close>

definition admission_check_handleRequest ::
    "'w db_client \<Rightarrow> 'w limiter \<Rightarrow> relay_settings \<Rightarrow> http_request \<Rightarrow> string \<Rightarrow> ('w, bool option) task" where
  "admission_check_handleRequest dc h st request pubkey =
     await (admission_isRateLimited h request st) (\<lambda>limited.
     if limited then returning None
     else await (findByPubkey dc MainClient pubkey) (\<lambda>found. returning (Some (fully_admitted st found))))"

section \<open>The request for an admission invoice\<close>

text \<open>\<open>fee.enabled && !fee.whitelists?.pubkeys?.includes(pubkey)\<close>, the sum of \<open>reduce\<close>.\<close>

definition charged :: "string \<Rightarrow> fee_schedule \<Rightarrow> bool" where
  "charged pubkey fee \<longleftrightarrow> fs_enabled fee \<and>
     \<not> whitelisted (case fs_whitelists fee of None \<Rightarrow> None | Some wl \<Rightarrow> fw_pubkeys wl) pubkey"

definition fee_sum :: "string \<Rightarrow> fee_schedule list \<Rightarrow> int" where
  "fee_sum pubkey fees = foldl (\<lambda>sum fee. if charged pubkey fee then fs_amount fee + sum else sum) 0 fees"

definition post_isApplicableFee :: "string \<Rightarrow> fee_schedule \<Rightarrow> bool" where
  "post_isApplicableFee pubkey fee \<longleftrightarrow> fs_enabled fee \<and>
     \<not> (case (case fs_whitelists fee of None \<Rightarrow> None | Some wl \<Rightarrow> fw_pubkeys wl) of
          None \<Rightarrow> False | Some ps \<Rightarrow> list_ex (starts_with pubkey) ps)"

text \<open>\<open>request.body.pubkey\<close>: hexadecimal, or an npub.\<close>

definition read_pubkey :: "bech32_package \<Rightarrow> jvalue \<Rightarrow> string + string" where
  "read_pubkey b32 raw =
     (case string_of raw of
        None \<Rightarrow> Inl ''Invalid pubkey: missing''
      | Some pubkeyRaw \<Rightarrow>
          if is_lower_hex 64 pubkeyRaw then Inr pubkeyRaw
          else if starts_with pubkeyRaw ''npub1'' then
            (case fromBech32 b32 pubkeyRaw of
               Inl _ \<Rightarrow> Inl ''Invalid pubkey: invalid npub''
             | Inr pubkey \<Rightarrow> Inr pubkey)
          else Inl ''Invalid pubkey: unknown format'')"

text \<open>\<open>currentSettings.payments?.feeSchedules.admission.filter(...)\<close>; the schedules are always given.\<close>

definition requested_fees :: "relay_settings \<Rightarrow> string \<Rightarrow> fee_schedule list" where
  "requested_fees st pubkey = filter (post_isApplicableFee pubkey) (admission_schedules st)"

definition post_invoice_handleRequest ::
    "'w payments_env \<Rightarrow> bech32_package \<Rightarrow> 'w limiter \<Rightarrow> (int \<Rightarrow> string) \<Rightarrow> string \<Rightarrow> relay_settings \<Rightarrow>
      http_request \<Rightarrow> jvalue \<Rightarrow> ('w, http_response) task" where
  "post_invoice_handleRequest env b32 h print_date page st request body =
     await (invoice_isRateLimited h request st) (\<lambda>limited.
     if limited then reply 429 ''Too many requests''
     else if (case body of JObject _ \<Rightarrow> False | _ \<Rightarrow> True) then reply 400 ''Invalid request''
     else if jprop ''tosAccepted'' body \<noteq> JString ''yes'' then reply 400 ''ToS agreement: not accepted''
     else if jprop ''feeSchedule'' body \<noteq> JString ''admission'' then reply 400 ''Invalid fee''
     else
       case read_pubkey b32 (jprop ''pubkey'' body) of
         Inl message \<Rightarrow> reply 400 message
       | Inr pubkey \<Rightarrow>
           if requested_fees st pubkey = [] then reply 400 ''No admission fee required''
           else
             await (findByPubkey (pe_dc env) MainClient pubkey) (\<lambda>found.
             if fully_admitted st found then reply 400 ''User is already admitted.''
             else
               let amount = fee_sum pubkey (requested_fees st pubkey) in
               await
                 (catching
                    (await (lift_result (toBech32 b32 ''npub'' pubkey)) (\<lambda>npub.
                     await (createInvoice env pubkey amount
                         (st_name st @ '' Admission Fee for '' @ npub)) (\<lambda>invoice. returning (Some invoice))))
                    (\<lambda>_. returning None))
                 (\<lambda>created.
                    case created of
                      None \<Rightarrow> reply 500 ''Unable to create invoice''
                    | Some invoice \<Rightarrow>
                        await (pe_relayPrivateKey env (st_relay_url st)) (\<lambda>relayPrivkey.
                        reply 200 (fill_template
                          [(''name'', st_name st), (''reference'', string_or_empty (iv_id invoice)),
                           (''relay_url'', st_relay_url st), (''pubkey'', pubkey),
                           (''relay_pubkey'', pe_publicKey env relayPrivkey),
                           (''expires_at'', case iv_expiresAt invoice of None \<Rightarrow> '''' | Some t \<Rightarrow> print_date t),
                           (''invoice'', string_or_empty (iv_bolt11 invoice)),
                           (''amount'', int_to_string (bigint_div amount 1000)),
                           (''processor'', string_or_empty (processor_name st))] page)))))"

section \<open>The fee that is requested and the fee that is required\<close>

lemma charged_applicable: "post_isApplicableFee pk fee \<Longrightarrow> charged pk fee"
  by (auto simp: post_isApplicableFee_def charged_def whitelisted_def list_ex_iff split: option.splits)

lemma payer_fee_applies_iff: "payer_fee_applies (Some pk) fee = Inr (post_isApplicableFee pk fee)"
  by (auto simp: payer_fee_applies_def post_isApplicableFee_def split: option.splits list.splits)

lemma admission_fee_loop_eq:
  "admission_fee_loop (Some pk) acc fees =
     Inr (acc + sum_list (map fs_amount (filter (post_isApplicableFee pk) fees)))"
  by (induction fees arbitrary: acc) (auto simp: payer_fee_applies_iff)

lemma fee_sum_eq:
  assumes "\<And>fee. fee \<in> set fees \<Longrightarrow> charged pk fee"
  shows "fee_sum pk fees = sum_list (map fs_amount fees)"
proof -
  have "foldl (\<lambda>sum fee. if charged pk fee then fs_amount fee + sum else sum) acc fees =
      acc + sum_list (map fs_amount fees)" for acc
    using assms by (induction fees arbitrary: acc) auto
  then show ?thesis by (simp add: fee_sum_def)
qed

lemma required_fee: "admissionFeeAmount st (Some pk) = Inr (fee_sum pk (requested_fees st pk))"
proof -
  have "fee_sum pk (requested_fees st pk) = sum_list (map fs_amount (requested_fees st pk))"
    by (rule fee_sum_eq) (simp add: requested_fees_def charged_applicable)
  then show ?thesis by (simp add: admissionFeeAmount_def admission_fee_loop_eq requested_fees_def)
qed

section \<open>The hmac of a callback\<close>

lemma colon_no_digit: "\<not> is_digit (CHR '':'')"
  by code_simp

lemma takeWhile_digits:
  "list_all is_digit ds \<Longrightarrow> takeWhile is_digit (ds @ CHR '':'' # m) = ds"
  "list_all is_digit ds \<Longrightarrow> dropWhile is_digit (ds @ CHR '':'' # m) = CHR '':'' # m"
  by (induction ds) (simp_all add: colon_no_digit)

lemma hmac_parts_split:
  assumes "list_all is_digit ds" "1 \<le> length ds" "length ds \<le> 20" "is_lower_hex 64 m"
  shows "hmac_parts (ds @ CHR '':'' # m) = Some (ds, m)"
  using assms by (simp add: hmac_parts_def takeWhile_digits)

lemma hmac_parts_Some:
  assumes "hmac_parts s = Some (ds, m)"
  shows "s = ds @ CHR '':'' # m" "list_all is_digit ds"
proof -
  obtain c where c: "dropWhile is_digit s = c # m" "c = CHR '':''" "ds = takeWhile is_digit s"
    using assms by (auto simp: hmac_parts_def Let_def split: list.splits if_splits)
  then show "s = ds @ CHR '':'' # m" using takeWhile_dropWhile_id [of is_digit s] by simp
  show "list_all is_digit ds" unfolding c by (auto simp: list_all_iff dest: set_takeWhileD)
qed

lemma nat_to_string_length: "n < 10 ^ Suc k \<Longrightarrow> length (nat_to_string n) \<le> Suc k"
proof (induction k arbitrary: n)
  case 0
  then show ?case by (subst nat_to_string.simps) simp
next
  case (Suc k)
  then have "n div 10 < 10 ^ Suc k" by (simp add: less_mult_imp_div_less mult.commute)
  from Suc.IH [OF this] show ?case by (subst nat_to_string.simps) simp
qed

lemma callback_hmac_valid:
  assumes "\<And>key data. length (se_hmac se key data) = 32" and "callback_hmac se t = Inr h"
    and "0 \<le> t" and "t + 86400000 < 10 ^ 20"
  shows "hmac_valid se now (JString h) = Inr (now < t + 86400000)"
proof -
  let ?e = "nat_to_string (nat (t + 86400000))"
  obtain secret where d: "deriveFromSecret se callback_key = Inr secret"
    using assms(2) by (auto simp: callback_hmac_def Let_def split: sum.splits)
  let ?m = "fromBuffer (hmacSha256 se secret (utf8 ?e))"
  have h: "h = ?e @ CHR '':'' # ?m"
    using assms(2,3) d by (simp add: callback_hmac_def Let_def int_to_string_def)
  have m: "is_lower_hex 64 ?m"
    using fromBuffer_lower_hex [of "hmacSha256 se secret (utf8 ?e)"] assms(1) by (simp add: hmacSha256_def)
  have "nat (t + 86400000) < 10 ^ Suc 19" using assms(4) by simp
  from nat_to_string_length [OF this] have "length ?e \<le> 20" by simp
  moreover have "1 \<le> length ?e" by (simp add: Suc_le_eq)
  ultimately have "hmac_parts h = Some (?e, ?m)"
    unfolding h by (intro hmac_parts_split nat_to_string_digits m) auto
  then show ?thesis using assms(3) d by (simp add: hmac_valid_def)
qed

section \<open>OpenNode\<close>

text \<open>An invoice of the table that is not confirmed.\<close>

definition unconfirmed :: "string \<Rightarrow> payments_db \<Rightarrow> bool" where
  "unconfirmed key d \<longleftrightarrow> (case row_of key d of None \<Rightarrow> False | Some r \<Rightarrow> ir_confirmed_at r = None)"

lemma find_map_merge:
  "List.find (\<lambda>r. ir_id r = key) (map (\<lambda>r. if ir_id r = k then merge_invoice_row st t r else r) rs) =
     map_option (\<lambda>r. if key = k then merge_invoice_row st t r else r) (List.find (\<lambda>r. ir_id r = key) rs)"
  by (induction rs) auto

lemma merged_confirmed [simp]: "ir_confirmed_at (merge_invoice_row st t r) = ir_confirmed_at r"
  by (simp add: merge_invoice_row_def)

lemma update_unconfirmed:
  "statement_outcome (UpdateInvoice (Some k) st t) d a d' \<Longrightarrow> unconfirmed key d \<Longrightarrow> unconfirmed key d'"
  by (auto simp: statement_outcome_def Let_def unconfirmed_def row_of_def find_map_merge split: option.splits)

lemma find_filter: "List.find p rs = (case filter p rs of [] \<Rightarrow> None | r # _ \<Rightarrow> Some r)"
  by (induction rs) auto

lemma update_answer:
  assumes "statement_outcome (UpdateInvoice (Some k) st t) d a d'"
  shows "(case map fromDBInvoice (invoice_rows a) of [] \<Rightarrow> None | i # _ \<Rightarrow> Some i) = map_option fromDBInvoice (row_of k d')"
  using assms by (auto simp: statement_outcome_def Let_def row_of_def find_filter split: list.splits)

context payments_backend begin

definition pending_confirmation :: "string \<Rightarrow> 'w \<Rightarrow> bool" where
  "pending_confirmation key w \<longleftrightarrow> saved w = None \<and> unconfirmed key (db w)"

text \<open>What the update of the status returns is the row, confirmed or not.\<close>

lemma update_status_triple:
  "triple (pending_confirmation key) (updateInvoiceStatus env k status)
     (\<lambda>u w. pending_confirmation key w \<and> (\<forall>i. u = Some i \<longrightarrow> k = Some key \<longrightarrow> iv_confirmedAt i = None))
     (\<lambda>_. pending_confirmation key)"
proof (rule tripleI)
  fix w u w' assume w: "pending_confirmation key w" and run: "updateInvoiceStatus env k status w = (Inr u, w')"
  obtain a where a: "dc_sql (pe_dc env) MainClient (UpdateInvoice k status (dc_now (pe_dc env) w)) w = (Inr a, w')"
      "u = (case map fromDBInvoice (invoice_rows a) of [] \<Rightarrow> None | i # _ \<Rightarrow> Some i)"
    using run by (auto simp: updateInvoiceStatus_def updateStatus_def await_Inr)
  have out: "saved w' = None" "statement_outcome (UpdateInvoice k status (dc_now (pe_dc env) w)) (db w) a (db w')"
    using sql_main [OF _ a(1)] w by (auto simp: pending_confirmation_def)
  obtain i where k: "k = Some i" using out(2) by (cases k) (auto simp: statement_outcome_def)
  have "unconfirmed key (db w')" using update_unconfirmed out(2) w k by (auto simp: pending_confirmation_def)
  moreover have "iv_confirmedAt x = None" if "u = Some x" "i = key" for x
    using that \<open>unconfirmed key (db w')\<close> update_answer [OF out(2) [unfolded k]] a(2)
    by (auto simp: unconfirmed_def fromDBInvoice_def split: option.splits)
  ultimately show "pending_confirmation key w' \<and> (\<forall>i. u = Some i \<longrightarrow> k = Some key \<longrightarrow> iv_confirmedAt i = None)"
    using out(1) k by (auto simp: pending_confirmation_def)
next
  fix w x w' assume w: "pending_confirmation key w" and run: "updateInvoiceStatus env k status w = (Inl x, w')"
  then show "pending_confirmation key w'"
    using sql_main [of w "UpdateInvoice k status (dc_now (pe_dc env) w)" "Inl x" w']
    by (auto simp: updateInvoiceStatus_def updateStatus_def await_Inl pending_confirmation_def)
qed

lemma confirm_other_unconfirmed:
  assumes "iv_confirmedAt invoice \<noteq> None \<Longrightarrow> iv_id invoice \<noteq> Some key"
  shows "keeps (pending_confirmation key) (confirmInvoice env st invoice)"
proof (rule keepsI)
  fix w q w' assume w: "pending_confirmation key w" and run: "confirmInvoice env st invoice w = (q, w')"
  have "row_of key d' = row_of key d" if "payment_effect st invoice d d'" for d d'
  proof -
    have "iv_confirmedAt invoice \<noteq> None" using that unfolding payment_effect_def by auto
    then show ?thesis using payment_effect_other [OF that] assms by blast
  qed
  then show "pending_confirmation key w'"
    using triple_run [OF confirm_triple [of "db w"] _ run] w
    by (cases q) (auto simp: pending_confirmation_def unconfirmed_def)
qed

lemma notification_unconfirmed:
  "keeps (pending_confirmation key) (sendInvoiceUpdateNotification env st invoice)"
  by (rule frames_keeps [OF notification_frames]) (auto simp: pending_confirmation_def)

lemma opennode_unconfirmed:
  assumes "cb_payments cb = env"
  shows "keeps (pending_confirmation key) (opennode_handleRequest cb st body)"
proof -
  let ?p = "pending_confirmation key"
  let ?settle = "\<lambda>invoice i. settle env st (invoice_summary (iv_id invoice) (iv_pubkey invoice) (iv_status i)
    (iv_confirmedAt i) (iv_amountRequested i)) (i\<lparr>iv_amountPaid := iv_amountRequested invoice\<rparr>) ''OK''"
  have settled: "triple (\<lambda>w. ?p w \<and> (\<forall>i. u = Some i \<longrightarrow> iv_id invoice = Some key \<longrightarrow> iv_confirmedAt i = None))
      (case u of None \<Rightarrow> throwing undefined_status
       | Some i \<Rightarrow> if unsettled i then reply 200 [] else ?settle invoice i) (\<lambda>_. ?p) (\<lambda>_. ?p)" for u invoice
  proof (cases u)
    case None
    then show ?thesis by (simp add: triple_def)
  next
    case (Some i)
    show ?thesis
    proof (cases "iv_id invoice = Some key \<longrightarrow> iv_confirmedAt i = None")
      case True
      have "keeps ?p (?settle invoice i)"
        unfolding settle_def reply_def
        by (intro keeps_await keeps_basic notification_unconfirmed confirm_other_unconfirmed)
           (use True in \<open>auto simp: invoice_summary_def no_invoice_def\<close>)
      then have "keeps ?p (if unsettled i then reply 200 [] else ?settle invoice i)"
        by (intro keeps_if) (simp_all add: reply_def keeps_basic)
      then show ?thesis unfolding keeps_def Some option.case by (rule triple_weaken) simp_all
    next
      case False
      then show ?thesis by (auto simp: Some triple_def)
    qed
  qed
  have lifted: "keeps ?p (lift_result r)" for r :: "'c result"
    by (simp add: keeps_def triple_def lift_result_def split: sum.splits)
  show ?thesis unfolding opennode_handleRequest_def assms split_def
    by (rule keeps_await, rule keeps_basic, rule keeps_await, rule lifted)
       (unfold keeps_def, rule triple_await [OF update_status_triple settled])
qed

end

section \<open>Properties\<close>

text \<open>
  C26. The OpenNode callback never confirms a payment: whatever the request says, an invoice that was
  not confirmed before the callback is not confirmed after it, because the confirmation date the
  handler passes on is the one of the stored row.
\<close>

theorem opennode_never_confirms:
  assumes "payments_backend env db saved" and "cb_payments cb = env" and "saved w = None"
    and "unconfirmed key (db w)"
  shows "unconfirmed key (db (snd (opennode_handleRequest cb st body w)))"
  using keeps_snd [OF payments_backend.opennode_unconfirmed [OF assms(1,2)], of key w] assms(3,4)
  by (simp add: payments_backend.pending_confirmation_def [OF assms(1)])

definition test_processor :: "pay_world processor_env" where
  "test_processor = \<lparr>hc_get = (\<lambda>url. throwing (plain_error ''404'')), hc_post = (\<lambda>url body. throwing (plain_error ''404'')),
     pr_dates = (\<lambda>w. \<lparr>de_parse = (\<lambda>s. 0), de_now = dw_now w\<rparr>),
     pr_secrets = \<lparr>se_secret = Some ''secret'', se_hmac = (\<lambda>k d. replicate 32 0)\<rparr>,
     pr_callback_url = (\<lambda>base hmac. Inr hmac), pr_uuid = returning ''u'', pr_iso_date = int_to_string\<rparr>"

definition test_callbacks :: "pay_world callback_env" where
  "test_callbacks = \<lparr>cb_payments = pay_env paid_answers, cb_processor = test_processor\<rparr>"

definition opennode_paid :: jvalue where
  "opennode_paid = JObject [(''id'', JString ''i1''), (''amount'', JNumber 5), (''status'', JString ''paid''),
     (''order_id'', JString ''ab'')]"

theorem opennode_never_confirms_witness:
  "fst (opennode_handleRequest test_callbacks pay_settings opennode_paid (open_world None)) = Inl not_started \<and>
   unconfirmed ''i1'' (dw_db (snd (opennode_handleRequest test_callbacks pay_settings opennode_paid (open_world None))))"
proof
  show "fst (opennode_handleRequest test_callbacks pay_settings opennode_paid (open_world None)) = Inl not_started"
    by code_simp
  have "dw_saved (open_world None) = None" "unconfirmed ''i1'' (dw_db (open_world None))" by code_simp+
  from opennode_never_confirms [OF pay.payments_backend_axioms _ this]
  show "unconfirmed ''i1'' (dw_db (snd (opennode_handleRequest test_callbacks pay_settings opennode_paid (open_world None))))"
    by (simp add: test_callbacks_def)
qed

text \<open>
  C27. The address the relay gives to LNbits is accepted when LNbits calls it, for a day: the parameter
  \<open>hmac\<close> that \<open>createInvoice\<close> prints at time \<open>t\<close> passes the check of the callback at time \<open>now\<close> exactly
  if \<open>now\<close> is before its expiry, and never makes it throw.
\<close>

theorem callback_hmac_accepted:
  assumes "\<And>key data. length (se_hmac se key data) = 32" and "callback_hmac se t = Inr h"
    and "0 \<le> t" and "t + 86400000 < 10 ^ 20"
  shows "hmac_valid se now (JString h) = Inr (now < t + 86400000)"
  by (rule callback_hmac_valid [OF assms])

theorem callback_hmac_accepted_witness:
  "hmac_valid (pr_secrets test_processor) 1700000000001
     (JString (''1700086400000:'' @ replicate 64 (CHR ''0''))) = Inr True"
proof -
  have "length (se_hmac (pr_secrets test_processor) k d) = 32" for k d
    by (simp add: test_processor_def)
  moreover have "callback_hmac (pr_secrets test_processor) 1700000000000 =
      Inr (''1700086400000:'' @ replicate 64 (CHR ''0''))"
    by code_simp
  ultimately show ?thesis
    using callback_hmac_accepted [of "pr_secrets test_processor" 1700000000000 _ 1700000000001] by simp
qed

text \<open>
  C28. The fee a user is asked for is the fee that admits: the amount of the admission invoice is what
  \<open>confirmInvoice\<close> requires, so paying it in millisatoshis admits. A processor that is asked for whole
  satoshis is asked for the amount rounded down, and paying that admits exactly when the fee is a
  multiple of 1000.
\<close>

theorem requested_fee_admits:
  assumes "amount = fee_sum pk (requested_fees st pk)" and "amount > 0" and "iv_pubkey invoice = Some pk"
  shows "fee_paid st (invoice\<lparr>iv_amountPaid := Some amount, iv_unit := Some MSATS\<rparr>) \<and>
    (fee_paid st (invoice\<lparr>iv_amountPaid := Some (msats_to_sats amount), iv_unit := Some SATS\<rparr>)
      \<longleftrightarrow> amount mod 1000 = 0)"
proof -
  have fee: "admissionFeeAmount st (iv_pubkey invoice) = Inr amount"
    using required_fee assms(1,3) by simp
  have "amount div 1000 * 1000 = amount - amount mod 1000" by (simp add: minus_mod_eq_div_mult)
  moreover have "0 \<le> amount mod 1000" by simp
  ultimately have "amount \<le> amount div 1000 * 1000 \<longleftrightarrow> amount mod 1000 = 0" by linarith
  then show ?thesis using assms(2) by (simp add: fee_paid_def fee msats_to_sats_def bigint_div_def)
qed

theorem requested_fee_admits_witness:
  "fee_paid pay_settings (paid_invoice\<lparr>iv_amountPaid := Some 1, iv_unit := Some SATS\<rparr>)"
proof -
  have "1000 = fee_sum ''ab'' (requested_fees pay_settings ''ab'')" "iv_pubkey paid_invoice = Some ''ab''"
    "msats_to_sats 1000 = 1"
    by code_simp+
  from requested_fee_admits [OF this(1) _ this(2)] this(3) show ?thesis by simp
qed

end
