(* ===== verification/Relay_Pages.thy ===== *)
theory Relay_Pages
  imports Payment_Controllers Subscription_Handler
begin

text \<open>
  What the relay says about itself over HTTP: the relay information document and the start page
  (\<open>root-request-handler.ts\<close>), the node information (\<open>nodeinfo-handler.ts\<close>), the health check, the terms
  and the invoice page, and \<open>withController\<close>, from \<open>src/handlers/request-handlers/\<close> and
  \<open>src/controllers/invoices/get-invoice-controller.ts\<close>. Files are read through a parameter; the
  \<open>URL\<close> class of the runtime is a parameter (\<open>url_class\<close>). The pages that are rendered once and
  kept are the state.
\<close>

section \<open>Parameters\<close>

record 'u url_class =
  ur_new :: "string \<Rightarrow> 'u result"
  ur_protocol :: "'u \<Rightarrow> string"
  ur_set_protocol :: "string \<Rightarrow> 'u \<Rightarrow> 'u"
  ur_set_pathname :: "string \<Rightarrow> 'u \<Rightarrow> 'u"
  ur_toString :: "'u \<Rightarrow> string"

text \<open>\<open>readFileSync\<close> of a file of the resources.\<close>

type_synonym 'w file_reader = "string \<Rightarrow> ('w, string) task"

section \<open>package.json\<close>

record package_file =
  pk_version :: string
  pk_supportedNips :: "nat list"
  pk_supportedNipExtensions :: "string list"
  pk_repository_url :: string
  pk_homepage :: string

definition packageJson :: package_file where
  "packageJson = \<lparr>pk_version = ''2.1.0'', pk_supportedNips = [1, 2, 4, 9, 11, 12, 15, 16, 20, 22, 28, 33, 40, 42],
     pk_supportedNipExtensions = [''11a''],
     pk_repository_url = ''git+https://github.com/cameri/nostream.git'',
     pk_homepage = ''https://github.com/cameri/nostream#readme''\<rparr>"

section \<open>The relay information document\<close>

record advertised_limits =
  dl_max_message_length :: "int option"
  dl_max_subscriptions :: "int option"
  dl_max_filters :: "int option"
  dl_max_limit :: "int option"
  dl_max_subid_length :: "int option"
  dl_min_prefix :: "int option"
  dl_max_event_tags :: int
  dl_max_content_length :: "int option"
  dl_min_pow_difficulty :: "int option"
  dl_auth_required :: bool
  dl_payment_required :: bool

record relay_document =
  rd_name :: string
  rd_description :: string
  rd_pubkey :: string
  rd_contact :: string
  rd_supported_nips :: "nat list"
  rd_supported_nip_extensions :: "string list"
  rd_software :: string
  rd_version :: string
  rd_limitation :: advertised_limits
  rd_payments_url :: string
  rd_fees :: "(string \<times> (int \<times> string) list) list"

definition payments_url :: "'u url_class \<Rightarrow> string \<Rightarrow> string result" where
  "payments_url ur relay_url =
     map_sum id
       (\<lambda>u. ur_toString ur (ur_set_pathname ur ''/invoices''
              (ur_set_protocol ur (if ur_protocol ur u = ''wss:'' then ''https:'' else ''http:'') u)))
       (ur_new ur relay_url)"

definition document_pubkey :: "bech32_package \<Rightarrow> string \<Rightarrow> string result" where
  "document_pubkey b32 rawPubkey = (if starts_with rawPubkey ''npub1'' then fromBech32 b32 rawPubkey else Inr rawPubkey)"

text \<open>\<open>Array.isArray(content) ? content[0].maxLength : content?.maxLength\<close>.\<close>

definition document_content_length :: "relay_settings \<Rightarrow> int option result" where
  "document_content_length st =
     (case el_content (event_limits_of st) of
        None \<Rightarrow> Inr None
      | Some (ContentLimit l) \<Rightarrow> Inr (cl_maxLength l)
      | Some (ContentLimitList []) \<Rightarrow> Inl (type_error ''Cannot read properties of undefined (reading 'maxLength')'')
      | Some (ContentLimitList (l # _)) \<Rightarrow> Inr (cl_maxLength l))"

text \<open>A property of \<open>settings.limits?.client?.subscription\<close>, or undefined.\<close>

definition subscription_limit :: "(client_subscription_limits \<Rightarrow> int option) \<Rightarrow> relay_settings \<Rightarrow> int option" where
  "subscription_limit field st = (case subscription_limits st of None \<Rightarrow> None | Some l \<Rightarrow> field l)"

definition limitation :: "relay_settings \<Rightarrow> int option \<Rightarrow> bool \<Rightarrow> advertised_limits" where
  "limitation st max_content payment_required =
     \<lparr>dl_max_message_length = nw_maxPayloadSize (st_network st),
      dl_max_subscriptions = subscription_limit cs_maxSubscriptions st,
      dl_max_filters = subscription_limit cs_maxFilterValues st,
      dl_max_limit = subscription_limit cs_maxLimit st,
      dl_max_subid_length = subscription_limit cs_maxSubscriptionIdLength st,
      dl_min_prefix = subscription_limit cs_minPrefixLength st,
      dl_max_event_tags = 2500,
      dl_max_content_length = max_content,
      dl_min_pow_difficulty = (case el_eventId (event_limits_of st) of None \<Rightarrow> None | Some d \<Rightarrow> d),
      dl_auth_required = False,
      dl_payment_required = payment_required\<rparr>"

definition advertised_fees :: "fee_schedule list \<Rightarrow> (int \<times> string) list" where
  "advertised_fees feeSchedules =
     foldl (\<lambda>fees fee. if fs_enabled fee then fees @ [(fs_amount fee, ''msats'')] else fees) [] feeSchedules"

definition document_fees :: "payments_settings \<Rightarrow> (string \<times> (int \<times> string) list) list" where
  "document_fees p =
     (case pay_admission p of None \<Rightarrow> [] | Some fs \<Rightarrow> [(''admission'', advertised_fees fs)]) @
     (case pay_publication p of None \<Rightarrow> [] | Some fs \<Rightarrow> [(''publication'', advertised_fees fs)])"

definition relayInformationDocument ::
    "'u url_class \<Rightarrow> bech32_package \<Rightarrow> relay_settings \<Rightarrow> relay_document result" where
  "relayInformationDocument ur b32 st =
     (case payments_url ur (st_relay_url st) of
        Inl x \<Rightarrow> Inl x
      | Inr url \<Rightarrow>
          (case document_pubkey b32 (st_pubkey st) of
             Inl x \<Rightarrow> Inl x
           | Inr pubkey \<Rightarrow>
               (case document_content_length st of
                  Inl x \<Rightarrow> Inl x
                | Inr max_content \<Rightarrow>
                    (case st_payments st of
                       None \<Rightarrow> Inl (type_error ''Cannot read properties of undefined (reading 'feeSchedules')'')
                     | Some p \<Rightarrow>
                         Inr \<lparr>rd_name = st_name st, rd_description = st_description st, rd_pubkey = pubkey,
                              rd_contact = st_contact st, rd_supported_nips = pk_supportedNips packageJson,
                              rd_supported_nip_extensions = pk_supportedNipExtensions packageJson,
                              rd_software = pk_repository_url packageJson, rd_version = pk_version packageJson,
                              rd_limitation = limitation st max_content (pay_enabled p), rd_payments_url = url,
                              rd_fees = document_fees p\<rparr>))))"

section \<open>The handlers\<close>

datatype page_response =
    Document relay_document
  | Redirect nat string
  | Html nat string
  | PlainText nat string
  | NoBody nat
  | NodeinfoLinks "(string \<times> string) list"
  | Nodeinfo string package_file

text \<open>\<open>path(['payments','feeSchedules','admission','0','enabled'])(settings)\<close>.\<close>

definition first_admission_fee :: "relay_settings \<Rightarrow> fee_schedule option" where
  "first_admission_fee st =
     (case st_payments st of
        None \<Rightarrow> None
      | Some p \<Rightarrow> (case pay_admission p of None \<Rightarrow> None | Some fs \<Rightarrow> js_nth fs 0))"

definition admissionFeeEnabled :: "relay_settings \<Rightarrow> bool" where
  "admissionFeeEnabled st = (case first_admission_fee st of None \<Rightarrow> False | Some fee \<Rightarrow> fs_enabled fee)"

definition rootRequestHandler ::
    "'u url_class \<Rightarrow> bech32_package \<Rightarrow> 'w file_reader \<Rightarrow> relay_settings \<Rightarrow> string option \<Rightarrow> ('w, page_response) task" where
  "rootRequestHandler ur b32 read_file st accept =
     (if accept = Some ''application/nostr+json'' then
        (case relayInformationDocument ur b32 st of Inl x \<Rightarrow> throwing x | Inr d \<Rightarrow> returning (Document d))
      else if admissionFeeEnabled st then returning (Redirect 301 ''/invoices'')
      else if st_requireAdmission st then
        await (read_file ''resources/index.html'') (\<lambda>html.
        returning (Html 200
          (fill_template [(''name'', st_name st), (''description'', st_description st),
             (''relay_url'', st_relay_url st)] html)))
      else returning (PlainText 200 ''Please use a Nostr client to connect.''))"

definition nodeinfoHandler :: "string \<Rightarrow> page_response" where
  "nodeinfoHandler hostname =
     NodeinfoLinks
       [(''http://nodeinfo.diaspora.software/ns/schema/2.0'', ''https://'' @ hostname @ ''/nodeinfo/2.0''),
        (''http://nodeinfo.diaspora.software/ns/schema/2.1'', ''https://'' @ hostname @ ''/nodeinfo/2.1'')]"

definition nodeinfo21Handler :: page_response where
  "nodeinfo21Handler = Nodeinfo ''2.1'' packageJson"

definition getHealthRequestHandler :: page_response where
  "getHealthRequestHandler = PlainText 200 ''OK''"

text \<open>The pages that are kept. \<open>if (!pageCache)\<close> renders an empty page again.\<close>

definition cached_page :: "string option \<Rightarrow> ('w, string) task \<Rightarrow> ('w, string \<times> string option) task" where
  "cached_page cache render =
     (case (case cache of None \<Rightarrow> None | Some page \<Rightarrow> if page = [] then None else Some page) of
        Some page \<Rightarrow> returning (page, cache)
      | None \<Rightarrow> await render (\<lambda>page. returning (page, Some page)))"

definition getTermsRequestHandler ::
    "'w file_reader \<Rightarrow> relay_settings \<Rightarrow> string option \<Rightarrow> ('w, page_response \<times> string option) task" where
  "getTermsRequestHandler read_file st cache =
     await (cached_page cache
       (await (read_file ''./resources/terms.html'') (\<lambda>html. returning (fill_template [(''name'', st_name st)] html))))
     (\<lambda>(page, cache'). returning (Html 200 page, cache'))"

definition invoice_page :: "'w file_reader \<Rightarrow> relay_settings \<Rightarrow> payments_settings \<Rightarrow> fee_schedule \<Rightarrow> ('w, string) task" where
  "invoice_page read_file st p fee =
     await (read_file ''./resources/index.html'') (\<lambda>html.
     returning (fill_template
       [(''name'', st_name st), (''processor'', pay_processor p),
        (''amount'', int_to_string (bigint_div (fs_amount fee) 1000))] html))"

definition get_invoice_handleRequest ::
    "'w file_reader \<Rightarrow> relay_settings \<Rightarrow> string option \<Rightarrow> ('w, page_response \<times> string option) task" where
  "get_invoice_handleRequest read_file st cache =
     (case st_payments st of
        None \<Rightarrow> returning (NoBody 404, cache)
      | Some p \<Rightarrow>
          if \<not> pay_enabled p then returning (NoBody 404, cache)
          else
            (case first_admission_fee st of
               None \<Rightarrow> returning (NoBody 404, cache)
             | Some fee \<Rightarrow>
                 if \<not> fs_enabled fee then returning (NoBody 404, cache)
                 else await (cached_page cache (invoice_page read_file st p fee))
                        (\<lambda>(page, cache'). returning (Html 200 page, cache'))))"

text \<open>The controller is created anew for every request.\<close>

definition withController :: "'c result \<Rightarrow> ('c \<Rightarrow> ('w, http_response) task) \<Rightarrow> ('w, http_response) task" where
  "withController controller handleRequest =
     catching (await (lift_result controller) handleRequest) (\<lambda>_. reply 500 ''Error handling request'')"

text \<open>The content security policy of every page (\<open>web-app-factory.ts\<close>).\<close>

definition content_security_policy :: "'u url_class \<Rightarrow> relay_settings \<Rightarrow> (string \<times> string list) list result" where
  "content_security_policy ur st =
     (case ur_new ur (st_relay_url st) of
        Inl x \<Rightarrow> Inl x
      | Inr relayUrl \<Rightarrow>
          (case ur_new ur (ur_toString ur relayUrl) of
             Inl x \<Rightarrow> Inl x
           | Inr copy \<Rightarrow>
               let webRelayUrl = ur_set_protocol ur (if ur_protocol ur relayUrl = ''wss:'' then ''https:'' else '':'') copy;
                   self = CHR 0x27 # ''self'' @ [CHR 0x27]; inline = CHR 0x27 # ''unsafe-inline'' @ [CHR 0x27] in
               Inr [(''img-src'', [self, ''data:'', ''https://cdn.zebedee.io/an/nostr/'']),
                    (''connect-src'', [self, st_relay_url st, ur_toString ur webRelayUrl]),
                    (''default-src'', [self]),
                    (''script-src-attr'', [inline]),
                    (''script-src'', [self, inline, ''https://cdn.jsdelivr.net/npm/'', ''https://unpkg.com/'',
                       ''https://cdnjs.cloudflare.com/ajax/libs/'']),
                    (''style-src'', [self, ''https://cdn.jsdelivr.net/npm/'']),
                    (''font-src'', [self, ''https://cdn.jsdelivr.net/npm/''])]))"

section \<open>What the document promises\<close>

lemma relayInformationDocument_Inr:
  assumes "relayInformationDocument ur b32 st = Inr d"
  obtains max_content p where "document_content_length st = Inr max_content" "st_payments st = Some p"
    "rd_limitation d = limitation st max_content (pay_enabled p)" "rd_fees d = document_fees p"
  using assms by (auto simp: relayInformationDocument_def split: sum.splits option.splits)

text \<open>A limit of zero or below, or none, limits nothing.\<close>

definition within :: "int option \<Rightarrow> nat \<Rightarrow> bool" where
  "within limit n \<longleftrightarrow> \<not> positive_and limit (\<lambda>m. int n > m)"

lemma within_zero: "within l n \<longleftrightarrow> \<not> (limit_or_zero l > 0 \<and> int n > limit_or_zero l)"
  by (simp add: within_def positive_and_def limit_or_zero_def split: option.split)

lemma canSubscribe_new:
  assumes "subscription_limits st = Some l" and "map_of subs sid = None"
  shows "canSubscribe st subs sid fs = Inr None \<longleftrightarrow>
    within (cs_maxSubscriptions l) (length subs + 1) \<and> within (cs_maxFilters l) (length fs) \<and>
    (case cs_maxSubscriptionIdLength l of None \<Rightarrow> True | Some m \<Rightarrow> int (length sid) \<le> m)"
  using assms
  by (auto simp: canSubscribe_def Let_def has_filters_def within_zero maxSubscriptions_def maxFilters_def
      split: option.splits)

text \<open>The content limit the document names is the first one that can apply.\<close>

definition first_content_limit :: "event_limits \<Rightarrow> content_limits option" where
  "first_content_limit limits =
     (case el_content limits of
        None \<Rightarrow> None | Some (ContentLimit l) \<Rightarrow> Some l | Some (ContentLimitList ls) \<Rightarrow> js_nth ls 0)"

definition limit_covers :: "content_limits \<Rightarrow> nostr_event \<Rightarrow> bool" where
  "limit_covers l e \<longleftrightarrow> (case cl_kinds l of None \<Rightarrow> True | Some ks \<Rightarrow> some_kind e ks)"

lemma document_content_length_first:
  "document_content_length st = Inr m \<Longrightarrow>
   m = (case first_content_limit (event_limits_of st) of None \<Rightarrow> None | Some l \<Rightarrow> cl_maxLength l)"
  by (auto simp: document_content_length_def first_content_limit_def
      split: option.splits content_setting.splits list.splits)

lemma content_check_first:
  assumes "content_check e limits = None" and "first_content_limit limits = Some l" and "limit_covers l e"
  shows "within (cl_maxLength l) (length (ev_content e))"
proof -
  have "\<not> content_too_long e l"
    using assms(1,2)
    by (auto simp: content_check_None first_content_limit_def js_nth_Some_iff simp del: content_check_def
        split: option.splits content_setting.splits dest: nth_mem)
  with assms(3) show ?thesis
    by (auto simp: content_too_long_def limit_covers_def within_def positive_and_def split: option.splits)
qed

lemma pow_check_None:
  "pow_check e limits = None \<Longrightarrow>
   \<not> positive_and (case el_eventId limits of None \<Rightarrow> None | Some m \<Rightarrow> m) (\<lambda>m. int (getEventProofOfWork (ev_id e)) < m)"
  by (auto simp: pow_check_def Let_def split: if_splits)

section \<open>Pages are rendered once\<close>

text \<open>The state is the world and the page kept; what is asked with is how the page would be rendered now.\<close>

definition ask_page :: "('w, string) task \<Rightarrow> ('w \<times> string option, string) task" where
  "ask_page render s =
     (case cached_page (snd s) render (fst s) of
        (Inr (page, cache), w) \<Rightarrow> (Inr page, (w, cache))
      | (Inl x, w) \<Rightarrow> (Inl x, (w, snd s)))"

definition kept_page :: "'w \<times> string option \<Rightarrow> string option" where
  "kept_page s = (case snd s of None \<Rightarrow> None | Some page \<Rightarrow> if page = [] then None else Some page)"

definition renders_text :: "('w, string) task \<Rightarrow> bool" where
  "renders_text render \<longleftrightarrow> (\<forall>w page w'. render w = (Inr page, w') \<longrightarrow> page \<noteq> [])"

lemma renders_textD: "renders_text render \<Longrightarrow> render w = (Inr [], w') \<Longrightarrow> False"
  by (auto simp: renders_text_def)

interpretation pages: kept_value kept_page renders_text ask_page
proof
  show "kept_page s' = Some page"
    if "renders_text render" "ask_page render s = (Inr page, s')" for render :: "('w, string) task" and s page s'
    using that
    by (cases "render (fst s)")
       (auto simp: ask_page_def cached_page_def kept_page_def await_def
          split: option.splits if_splits sum.splits dest: renders_textD)
  show "ask_page render s = (Inr page, s)" if "kept_page s = Some page" for render :: "('w, string) task" and s page
    using that
    by (auto simp: ask_page_def cached_page_def kept_page_def prod_eq_iff split: option.splits if_splits)
qed

lemma cached_page_kept:
  "page \<noteq> [] \<Longrightarrow> cached_page (Some page) render w = (Inr (page, Some page), w)"
  by (simp add: cached_page_def)

section \<open>Properties\<close>


text \<open>An address is what its class made of it; the limits are those of the subscription tests, with a
  limit on the content.\<close>

definition plain_urls :: "(string \<times> string) url_class" where
  "plain_urls = \<lparr>ur_new = (\<lambda>s. Inr (takeWhile (\<lambda>c. c \<noteq> CHR ''/'') s, dropWhile (\<lambda>c. c \<noteq> CHR ''/'') s)),
     ur_protocol = fst, ur_set_protocol = (\<lambda>p u. (p, snd u)),
     ur_set_pathname = (\<lambda>p u. (fst u, snd u @ p)), ur_toString = (\<lambda>u. fst u @ snd u)\<rparr>"

definition no_bech32 :: bech32_package where
  "no_bech32 = \<lparr>b32_decode = (\<lambda>s. Inr (''npub'', [])), b32_encode = (\<lambda>p ws. Inr p), b32_toWords = (\<lambda>b. []),
     b32_fromWords = (\<lambda>ws. Inr (replicate 32 0))\<rparr>"

definition advertising_settings :: relay_settings where
  "advertising_settings = limits_settings\<lparr>
     st_payments := Some \<lparr>pay_enabled = True, pay_processor = ''zebedee'',
       pay_admission = Some [\<lparr>fs_enabled = True, fs_amount = 21000, fs_whitelists = None\<rparr>],
       pay_publication = None\<rparr>,
     st_limits := map_option (lm_event_update (\<lambda>_. Some (empty_event_limits\<lparr>
       el_content := Some (ContentLimit \<lparr>cl_kinds = None, cl_maxLength = Some 100\<rparr>)\<rparr>))) (st_limits limits_settings)\<rparr>"


text \<open>
  The invoice page: the start page sends a visitor to it as soon as the first admission fee is
  enabled, even while payments are not, and then it does not exist. While both are enabled it exists,
  and within a process it stays what it was when it was first asked for, whatever the settings say
  later.
\<close>

theorem invoice_page_kept:
  assumes "admissionFeeEnabled st" and "accept \<noteq> Some ''application/nostr+json''"
  shows "rootRequestHandler ur b32 files st accept v = (Inr (Redirect 301 ''/invoices''), v) \<and>
    (\<not> payments_enabled st \<longrightarrow> get_invoice_handleRequest read_file st cache w = (Inr (NoBody 404, cache), w)) \<and>
    (\<forall>page cache' w' st' read_file' w''.
       get_invoice_handleRequest read_file st cache w = (Inr (Html 200 page, cache'), w') \<and> page \<noteq> [] \<and>
       admissionFeeEnabled st' \<and> payments_enabled st' \<longrightarrow>
       get_invoice_handleRequest read_file' st' cache' w'' = (Inr (Html 200 page, cache'), w''))"
proof (intro conjI impI allI)
  show "rootRequestHandler ur b32 files st accept v = (Inr (Redirect 301 ''/invoices''), v)"
    using assms by (simp add: rootRequestHandler_def)
  show "get_invoice_handleRequest read_file st cache w = (Inr (NoBody 404, cache), w)" if "\<not> payments_enabled st"
    using that by (auto simp: get_invoice_handleRequest_def payments_enabled_def split: option.splits)
next
  fix page cache' w' st' read_file' w''
  assume "get_invoice_handleRequest read_file st cache w = (Inr (Html 200 page, cache'), w') \<and> page \<noteq> [] \<and>
    admissionFeeEnabled st' \<and> payments_enabled st'"
  then have run: "get_invoice_handleRequest read_file st cache w = (Inr (Html 200 page, cache'), w')" "page \<noteq> []"
    and en: "admissionFeeEnabled st'" "payments_enabled st'" by simp_all
  obtain p fee where "cached_page cache (invoice_page read_file st p fee) w = (Inr (page, cache'), w')"
    using run(1) by (auto simp: get_invoice_handleRequest_def await_Inr split: option.splits if_splits)
  then have "cache' = Some page"
    using run(2) by (auto simp: cached_page_def await_Inr split: option.splits if_splits)
  then show "get_invoice_handleRequest read_file' st' cache' w'' = (Inr (Html 200 page, cache'), w'')"
    using en run(2)
    by (auto simp: get_invoice_handleRequest_def admissionFeeEnabled_def payments_enabled_def await_def
        cached_page_kept split: option.splits)
qed

text \<open>A page that names the amount; the fee is raised later.\<close>

definition amount_file :: "unit file_reader" where
  "amount_file path = returning ''Pay {{amount}} sats to {{name}}''"

definition raised_settings :: relay_settings where
  "raised_settings = advertising_settings\<lparr>
     st_payments := map_option (pay_admission_update
       (\<lambda>_. Some [\<lparr>fs_enabled = True, fs_amount = 42000, fs_whitelists = None\<rparr>])) (st_payments advertising_settings)\<rparr>"

theorem invoice_page_kept_witness:
  "get_invoice_handleRequest amount_file raised_settings (Some ''Pay 21 sats to relay'') () =
     (Inr (Html 200 ''Pay 21 sats to relay'', Some ''Pay 21 sats to relay''), ())"
proof -
  have run: "get_invoice_handleRequest amount_file advertising_settings None () =
      (Inr (Html 200 ''Pay 21 sats to relay'', Some ''Pay 21 sats to relay''), ())" by code_simp
  have en: "admissionFeeEnabled advertising_settings" "admissionFeeEnabled raised_settings"
      "payments_enabled raised_settings" by code_simp+
  have plain: "None \<noteq> Some ''application/nostr+json''" by simp
  note kept = invoice_page_kept [OF en(1) plain, of plain_urls no_bech32 amount_file "()" amount_file None "()",
      THEN conjunct2, THEN conjunct2, rule_format]
  show ?thesis by (rule kept) (use run en in simp_all)
qed

end
