(* ===== verification/Startup.thy ===== *)
theory Startup
  imports Clients Relay_Pages
begin

text \<open>
  \<open>App.run\<close> of \<open>src/app/app.ts\<close> as a whole: what the primary process prints, when it gives up, the workers it
  forks, in order, and the hidden service it announces. A line is printed centred, and centring a line
  that is too long throws.
\<close>

section \<open>Printing\<close>

text \<open>\<open>' '.repeat(start)\<close> with \<open>start = (width - input.length) >> 1\<close>; \<open>console.log\<close> puts a space between its
  arguments.\<close>

definition logCentered :: "string \<Rightarrow> nat \<Rightarrow> string result" where
  "logCentered input width =
     (let start = (int width - int (length input)) div 2 in
      if start < 0 then Inl (Err ''RangeError'' (''Invalid count value: '' @ int_to_string start))
      else Inr (replicate (nat start) (CHR '' '') @ '' '' @ input))"

definition banner_width :: nat where
  "banner_width = 74"

text \<open>A number in a template literal; \<open>None\<close> for one that is no integer, whose digits are not modelled.\<close>

definition number_text :: "js_number \<Rightarrow> string option" where
  "number_text n =
     (case n of JNaN \<Rightarrow> Some ''NaN'' | JInfinity \<Rightarrow> None | JFraction _ _ _ \<Rightarrow> map_option int_to_string (safe_integer n))"

definition array_text :: "nat list \<Rightarrow> string" where
  "array_text ns = join '','' (map nat_to_string ns)"

section \<open>App.run\<close>

datatype startup_step = Say string | Fork process_env | Quit nat

datatype startup_effect = Printed string | Forked process_env

datatype startup_end = Running | Exited nat | Threw exn

fun perform :: "startup_step list \<Rightarrow> startup_effect list \<times> startup_end" where
  "perform [] = ([], Running)"
| "perform (Say s # steps) =
     (case logCentered s banner_width of
        Inl x \<Rightarrow> ([], Threw x)
      | Inr line \<Rightarrow> (case perform steps of (effs, res) \<Rightarrow> (Printed line # effs, res)))"
| "perform (Fork env # steps) = (case perform steps of (effs, res) \<Rightarrow> (Forked env # effs, res))"
| "perform (Quit n # steps) = ([], Exited n)"

definition banner :: "relay_settings \<Rightarrow> startup_step list" where
  "banner st =
     [Say (''v'' @ pk_version packageJson), Say (''NIPs implemented: '' @ array_text (pk_supportedNips packageJson)),
      Say (''Pay-to-relay '' @ (if payments_enabled st then ''enabled'' else ''disabled''))] @
     (if payments_enabled st then [Say (''Payments provider: '' @ (case processor_name st of None \<Rightarrow> ''undefined'' | Some p \<Rightarrow> p))]
      else [])"

text \<open>The printed number of workers.\<close>

definition worker_count_text :: "process_env \<Rightarrow> relay_settings \<Rightarrow> nat \<Rightarrow> string option" where
  "worker_count_text env st cpus =
     (case truthy_env env ''WORKER_COUNT'' of
        Some s \<Rightarrow> number_text (js_Number s)
      | None \<Rightarrow> map_option nat_to_string (worker_count env st cpus))"

definition mirror_steps :: "relay_settings \<Rightarrow> startup_step list" where
  "mirror_steps st =
     (case st_mirrors st of
        None \<Rightarrow> []
      | Some mirrors \<Rightarrow>
          if mirrors = [] then []
          else map (\<lambda>i. Fork (mirroring_env i)) [0..<length mirrors] @
            [Say (nat_to_string (length mirrors) @ '' static-mirroring worker started'')])"

text \<open>\<open>None\<close>: the loop that forks the workers never ends, or its bound is printed and no integer.\<close>

definition app_steps :: "process_env \<Rightarrow> relay_settings \<Rightarrow> nat \<Rightarrow> startup_step list option" where
  "app_steps env st cpus =
     (if payments_enabled st \<and> secret_missing env then Some (banner st @ [Quit 1])
      else
        case (worker_count env st cpus, worker_count_text env st cpus) of
          (Some n, Some started_text) \<Rightarrow>
            Some (banner st @ map (\<lambda>i. Fork (client_env i)) [0..<n] @
              [Say (started_text @ '' client workers started''), Fork maintenance_env, Say ''1 maintenance worker started''] @
              mirror_steps st)
        | _ \<Rightarrow> None)"

text \<open>The hidden service: its port, the host it leads to, and what is printed when it is there or refused.\<close>

definition torHiddenServicePort :: "process_env \<Rightarrow> js_number" where
  "torHiddenServicePort env = env_number_or env ''HIDDEN_SERVICE_PORT'' 80"

definition hidden_service_host :: "process_env \<Rightarrow> string \<Rightarrow> string option" where
  "hidden_service_host env hostname =
     map_option (\<lambda>port. hostname @ '':'' @ port) (number_text (env_number_or env ''RELAY_PORT'' 8008))"

definition announce_onion :: "string result \<Rightarrow> string \<Rightarrow> string result" where
  "announce_onion service port_text =
     (case service of
        Inl _ \<Rightarrow> logCentered ''Tor hidden service: disabled'' banner_width
      | Inr name \<Rightarrow> logCentered (''Tor hidden service: '' @ name @ '':'' @ port_text) banner_width)"

section \<open>Lemmas\<close>

lemma logCentered_fits: "length s \<le> width \<Longrightarrow> \<exists>line. logCentered s width = Inr line"
  by (simp add: logCentered_def)

lemma logCentered_throws: "length s > width \<Longrightarrow> \<exists>m. logCentered s width = Inl (Err ''RangeError'' m)"
  by (simp add: logCentered_def Let_def)

definition forked :: "startup_effect list \<Rightarrow> process_env list" where
  "forked effs = concat (map (\<lambda>e. case e of Forked env \<Rightarrow> [env] | Printed _ \<Rightarrow> []) effs)"

lemma forked_simps [simp]:
  "forked [] = []" "forked (Printed l # effs) = forked effs" "forked (Forked env # effs) = env # forked effs"
  "forked (xs @ ys) = forked xs @ forked ys"
  by (simp_all add: forked_def)

text \<open>What the steps fork when none of their lines is too long.\<close>

definition step_fits :: "startup_step \<Rightarrow> bool" where
  "step_fits s = (case s of Say l \<Rightarrow> length l \<le> banner_width | Fork _ \<Rightarrow> True | Quit _ \<Rightarrow> False)"

definition step_envs :: "startup_step list \<Rightarrow> process_env list" where
  "step_envs steps = concat (map (\<lambda>s. case s of Fork env \<Rightarrow> [env] | _ \<Rightarrow> []) steps)"

lemma step_envs_simps [simp]:
  "step_envs [] = []" "step_envs (Say l # steps) = step_envs steps" "step_envs (Fork env # steps) = env # step_envs steps"
  "step_envs (xs @ ys) = step_envs xs @ step_envs ys" "step_envs (map (\<lambda>i. Fork (f i)) is) = map f is"
  by (simp_all add: step_envs_def comp_def)

lemma perform_fits:
  "list_all step_fits steps \<Longrightarrow>
   snd (perform (steps @ rest)) = snd (perform rest) \<and>
   forked (fst (perform (steps @ rest))) = step_envs steps @ forked (fst (perform rest))"
proof (induction steps)
  case (Cons s steps)
  then show ?case
  proof (cases s)
    case (Say l)
    then obtain line where "logCentered l banner_width = Inr line"
      using Cons.prems logCentered_fits by (force simp: step_fits_def)
    then show ?thesis using Cons Say by (simp add: split_def)
  qed (simp_all add: split_def step_fits_def)
qed simp

lemma banner_fits: "length (case processor_name st of None \<Rightarrow> ''undefined'' | Some p \<Rightarrow> p) \<le> 55 \<Longrightarrow> list_all step_fits (banner st)"
proof -
  assume p: "length (case processor_name st of None \<Rightarrow> ''undefined'' | Some p \<Rightarrow> p) \<le> 55"
  have "length (array_text (pk_supportedNips packageJson)) = 37" by code_simp
  then show ?thesis using p
    by (auto simp: banner_def step_fits_def banner_width_def packageJson_def)
qed

lemma banner_says: "s \<in> set (banner st) \<Longrightarrow> \<exists>l. s = Say l"
  by (auto simp: banner_def)

lemma banner_envs [simp]: "step_envs (banner st) = []"
  by (simp add: banner_def)

lemma perform_all: "list_all step_fits steps \<Longrightarrow> snd (perform steps) = Running \<and> forked (fst (perform steps)) = step_envs steps"
  using perform_fits [of steps "[]"] by simp

lemma mirror_envs: "step_envs (mirror_steps st) = (case st_mirrors st of None \<Rightarrow> [] | Some mirrors \<Rightarrow> map mirroring_env [0..<length mirrors])"
  by (simp add: mirror_steps_def split: option.split)

lemma app_steps_quit: "Quit n \<in> set steps \<Longrightarrow> app_steps env st cpus = Some steps \<Longrightarrow> payments_enabled st \<and> secret_missing env"
  by (auto simp: app_steps_def banner_def mirror_steps_def split: if_splits option.splits)

text \<open>A hidden service has a name of 56 characters, too long for the line that announces it.\<close>

lemma onion_announcement_throws:
  "56 \<le> length name \<Longrightarrow> \<exists>m. announce_onion (Inr name) port_text = Inl (Err ''RangeError'' m)"
  unfolding announce_onion_def by simp (rule logCentered_throws, simp add: banner_width_def)

section \<open>Properties\<close>



end
