(* ===== verification/Relay_Keys.thy ===== *)
theory Relay_Keys
  imports Payment_Processors
begin

text \<open>
  The keys of the relay and what it does with them, from \<open>src/utils/event.ts\<close>: the private key, read from
  the environment or derived from the secret and kept in \<open>privateKeyCache\<close>, the public keys kept in
  \<open>publicKeyCache\<close>, and the encryption of direct messages. The caches are the state
  (\<open>key_caches\<close>); the curve, the cipher and the random source are parameters (\<open>key_crypto\<close>). A private
  key is no name that every JavaScript object has (\<open>toString\<close> and the like).
\<close>

section \<open>The caches\<close>

record key_caches =
  kc_private :: "string option"
  kc_public :: "string \<rightharpoonup> string"

definition no_keys :: key_caches where
  "no_keys = \<lparr>kc_private = None, kc_public = Map.empty\<rparr>"

text \<open>\<open>kx_getPublicKey\<close> and \<open>kx_getSharedSecret\<close> are the functions of secp256k1 with a compressed
  result, \<open>kx_aes_cbc\<close> is the whole output of the cipher for a key, an initialisation vector and a text.\<close>

record key_crypto =
  kx_getPublicKey :: "string \<Rightarrow> buffer result"
  kx_getSharedSecret :: "string \<Rightarrow> string \<Rightarrow> buffer result"
  kx_aes_cbc :: "buffer \<Rightarrow> buffer \<Rightarrow> buffer \<Rightarrow> buffer result"

definition store_private :: "string \<Rightarrow> (key_caches, string) task" where
  "store_private key c = (Inr key, c\<lparr>kc_private := Some key\<rparr>)"

definition getRelayPrivateKey :: "secret_env \<Rightarrow> process_env \<Rightarrow> string \<Rightarrow> (key_caches, string) task" where
  "getRelayPrivateKey se env secret c =
     (case (case kc_private c of None \<Rightarrow> None | Some k \<Rightarrow> if k = [] then None else Some k) of
        Some k \<Rightarrow> (Inr k, c)
      | None \<Rightarrow>
          (case truthy_env env ''RELAY_PRIVATE_KEY'' of
             Some k \<Rightarrow> store_private k c
           | None \<Rightarrow>
               (case deriveFromSecret se (utf8 secret) of
                  Inl x \<Rightarrow> (Inl x, c)
                | Inr key \<Rightarrow> store_private (fromBuffer key) c)))"

definition getPublicKey :: "key_crypto \<Rightarrow> string \<Rightarrow> (key_caches, string) task" where
  "getPublicKey kx privkey c =
     (case kc_public c privkey of
        Some k \<Rightarrow> (Inr k, c)
      | None \<Rightarrow>
          (case kx_getPublicKey kx privkey of
             Inl x \<Rightarrow> (Inl x, c)
           | Inr point \<Rightarrow>
               (Inr (fromBuffer (drop 1 point)), c\<lparr>kc_public := (kc_public c)(privkey \<mapsto> fromBuffer (drop 1 point))\<rparr>)))"

section \<open>Direct messages\<close>

definition base64_char :: "nat \<Rightarrow> char" where
  "base64_char n =
     (if n < 26 then char_of (65 + n) else if n < 52 then char_of (71 + n)
      else if n < 62 then char_of (n - 4) else if n = 62 then CHR ''+'' else CHR ''/'')"

fun base64 :: "nat list \<Rightarrow> string" where
  "base64 [] = []"
| "base64 [a] = [base64_char (a div 4), base64_char (a mod 4 * 16), CHR ''='', CHR ''='']"
| "base64 [a, b] =
     [base64_char (a div 4), base64_char (a mod 4 * 16 + b div 16), base64_char (b mod 16 * 4), CHR ''='']"
| "base64 (a # b # c # bytes) =
     base64_char (a div 4) # base64_char (a mod 4 * 16 + b div 16) #
     base64_char (b mod 16 * 4 + c div 64) # base64_char (c mod 64) # base64 bytes"

definition encryptKind4Event ::
    "key_crypto \<Rightarrow> buffer \<Rightarrow> string \<Rightarrow> string \<Rightarrow> nostr_event \<Rightarrow> nostr_event result" where
  "encryptKind4Event kx iv senderPrivkey receiverPubkey e =
     (case kx_getSharedSecret kx senderPrivkey (''02'' @ receiverPubkey) of
        Inl x \<Rightarrow> Inl x
      | Inr secret \<Rightarrow>
          map_sum id (\<lambda>cipher. e\<lparr>ev_content := base64 (map unat cipher) @ ''?iv='' @ base64 (map unat iv)\<rparr>)
            (kx_aes_cbc kx (drop 1 secret) iv (utf8 (ev_content e))))"

section \<open>The caches, over any number of calls\<close>

lemma getRelayPrivateKey_Inr:
  assumes "getRelayPrivateKey se env secret c = (Inr k, c')" and "\<And>key data. se_hmac se key data \<noteq> []"
  shows "kc_private c' = Some k \<and> k \<noteq> [] \<and> kc_public c' = kc_public c"
proof -
  have hex: "fromBuffer b \<noteq> []" if "b \<noteq> []" for b using that by (cases b) simp_all
  show ?thesis
    using assms hex
    by (auto simp: getRelayPrivateKey_def store_private_def truthy_env_def deriveFromSecret_def hmacSha256_def
        split: option.splits sum.splits if_splits)
qed

text \<open>What the function is asked with: the secrets, the environment and the address. The digest of an HMAC
  is never empty.\<close>

type_synonym key_question = "secret_env \<times> process_env \<times> string"

definition digests :: "secret_env \<Rightarrow> bool" where
  "digests se \<longleftrightarrow> (\<forall>key data. se_hmac se key data \<noteq> [])"

definition kept_private :: "key_caches \<Rightarrow> string option" where
  "kept_private c = (case kc_private c of None \<Rightarrow> None | Some k \<Rightarrow> if k = [] then None else Some k)"

interpretation private_key: kept_value kept_private "\<lambda>(se, env, secret). digests se"
    "\<lambda>(se, env, secret). getRelayPrivateKey se env secret"
proof
  show "kept_private c' = Some k"
    if "case q of (se, env, secret) \<Rightarrow> digests se" "(case q of (se, env, secret) \<Rightarrow> getRelayPrivateKey se env secret) c = (Inr k, c')"
    for q :: key_question and c k c'
    using that getRelayPrivateKey_Inr [of "fst q" "fst (snd q)" "snd (snd q)" c k c']
    by (cases q) (simp add: kept_private_def digests_def)
  show "(case q of (se, env, secret) \<Rightarrow> getRelayPrivateKey se env secret) c = (Inr k, c)"
    if "kept_private c = Some k" for q :: key_question and c k
    using that by (cases q) (simp add: getRelayPrivateKey_def kept_private_def split: option.splits if_splits)
qed

lemma getRelayPrivateKey_kept:
  "kc_private c = Some k \<Longrightarrow> k \<noteq> [] \<Longrightarrow> getRelayPrivateKey se env secret c = (Inr k, c)"
  by (simp add: getRelayPrivateKey_def)

lemma getRelayPrivateKey_failed:
  "getRelayPrivateKey se env secret c = (Inl x, c') \<Longrightarrow> c' = c"
  by (auto simp: getRelayPrivateKey_def store_private_def split: option.splits sum.splits if_splits)

text \<open>What a process asks of the two functions.\<close>

datatype key_request = PrivateKeyFor string | PublicKeyOf string

fun ask_key :: "secret_env \<Rightarrow> key_crypto \<Rightarrow> process_env \<Rightarrow> key_request \<Rightarrow> (key_caches, string) task" where
  "ask_key se kx env (PrivateKeyFor secret) = getRelayPrivateKey se env secret"
| "ask_key se kx env (PublicKeyOf privkey) = getPublicKey kx privkey"

fun ask_keys :: "secret_env \<Rightarrow> key_crypto \<Rightarrow> process_env \<Rightarrow> key_request list \<Rightarrow> key_caches \<Rightarrow> key_caches" where
  "ask_keys se kx env [] c = c"
| "ask_keys se kx env (r # rs) c = ask_keys se kx env rs (snd (ask_key se kx env r c))"

definition public_keys_ok :: "key_crypto \<Rightarrow> key_caches \<Rightarrow> bool" where
  "public_keys_ok kx c \<longleftrightarrow>
     (\<forall>privkey k. kc_public c privkey = Some k \<longrightarrow>
        (\<exists>point. kx_getPublicKey kx privkey = Inr point \<and> k = fromBuffer (drop 1 point)))"

lemma getPublicKey_value:
  "public_keys_ok kx c \<Longrightarrow>
   fst (getPublicKey kx privkey c) = map_sum id (\<lambda>point. fromBuffer (drop 1 point)) (kx_getPublicKey kx privkey)"
  by (cases "kc_public c privkey"; cases "kx_getPublicKey kx privkey")
     (fastforce simp: public_keys_ok_def getPublicKey_def)+

lemma getPublicKey_ok:
  "public_keys_ok kx c \<Longrightarrow> public_keys_ok kx (snd (getPublicKey kx privkey c))"
  by (auto simp: public_keys_ok_def getPublicKey_def split: option.splits sum.splits if_splits)

lemma getPublicKey_private [simp]: "kc_private (snd (getPublicKey kx privkey c)) = kc_private c"
  by (simp add: getPublicKey_def split: option.splits sum.splits)

lemma getRelayPrivateKey_public [simp]: "kc_public (snd (getRelayPrivateKey se env secret c)) = kc_public c"
  by (simp add: getRelayPrivateKey_def store_private_def split: option.splits sum.splits if_splits)

lemma ask_key_ok: "public_keys_ok kx c \<Longrightarrow> public_keys_ok kx (snd (ask_key se kx env r c))"
proof (cases r)
  case (PrivateKeyFor s)
  assume "public_keys_ok kx c"
  with PrivateKeyFor show ?thesis by (simp add: public_keys_ok_def)
qed (simp add: getPublicKey_ok)

lemma ask_key_private:
  "kc_private c = Some k \<Longrightarrow> k \<noteq> [] \<Longrightarrow> kc_private (snd (ask_key se kx env r c)) = Some k"
  by (cases r) (simp_all add: getRelayPrivateKey_kept)

lemma ask_keys_ok: "public_keys_ok kx c \<Longrightarrow> public_keys_ok kx (ask_keys se kx env rs c)"
  by (induction rs arbitrary: c) (simp_all add: ask_key_ok)

lemma ask_keys_private:
  "kc_private c = Some k \<Longrightarrow> k \<noteq> [] \<Longrightarrow> kc_private (ask_keys se kx env rs c) = Some k"
  by (induction rs arbitrary: c) (simp_all add: ask_key_private)

text \<open>
  A process has one key: once the private key has been given out, whatever is asked afterwards and for
  whatever address, it is given out again, and its public key is always the one the curve has for it.
\<close>

lemma relay_key_fixed:
  assumes "\<And>key data. se_hmac se key data \<noteq> []" and "public_keys_ok kx c"
    and "getRelayPrivateKey se env secret c = (Inr k, c1)"
  shows "fst (getRelayPrivateKey se env secret' (ask_keys se kx env rs c1)) = Inr k"
    and "fst (getPublicKey kx k (ask_keys se kx env rs c1)) =
      map_sum id (\<lambda>point. fromBuffer (drop 1 point)) (kx_getPublicKey kx k)"
proof -
  from getRelayPrivateKey_Inr [OF assms(3,1)]
  have c1: "kc_private c1 = Some k" "k \<noteq> []" "public_keys_ok kx c1"
    using assms(2) by (simp_all add: public_keys_ok_def)
  show "fst (getRelayPrivateKey se env secret' (ask_keys se kx env rs c1)) = Inr k"
    using ask_keys_private [OF c1(1,2)] c1(2) by (simp add: getRelayPrivateKey_kept)
  show "fst (getPublicKey kx k (ask_keys se kx env rs c1)) =
      map_sum id (\<lambda>point. fromBuffer (drop 1 point)) (kx_getPublicKey kx k)"
    by (rule getPublicKey_value [OF ask_keys_ok [OF c1(3)]])
qed

text \<open>Processes with the same secret, and no key of their own, agree on the key of an address.\<close>

lemma relay_key_shared:
  "truthy_env env ''RELAY_PRIVATE_KEY'' = truthy_env env' ''RELAY_PRIVATE_KEY'' \<Longrightarrow>
   fst (getRelayPrivateKey se env secret no_keys) = fst (getRelayPrivateKey se env' secret no_keys)"
  by (simp add: getRelayPrivateKey_def no_keys_def store_private_def split: option.splits sum.splits)

section \<open>Reading an encrypted message\<close>

definition base64_value :: "char \<Rightarrow> nat" where
  "base64_value c =
     (let n = char_code c in
      if 65 \<le> n \<and> n \<le> 90 then n - 65 else if 97 \<le> n \<and> n \<le> 122 then n - 71
      else if is_digit c then n + 4 else if c = CHR ''+'' then 62 else 63)"

fun unbase64 :: "string \<Rightarrow> nat list" where
  "unbase64 (p # q # r # s # t) =
     (base64_value p * 4 + base64_value q div 16) #
     (if r = CHR ''='' then []
      else (base64_value q mod 16 * 16 + base64_value r div 4) #
        (if s = CHR ''='' then [] else (base64_value r mod 4 * 64 + base64_value s) # unbase64 t))"
| "unbase64 _ = []"

lemma base64_char_table:
  "list_all (\<lambda>n. base64_value (base64_char n) = n \<and> base64_char n \<noteq> CHR ''='' \<and> base64_char n \<noteq> CHR ''?'') [0..<64]"
  by code_simp

lemma base64_char [simp]:
  assumes "n < 64"
  shows "base64_value (base64_char n) = n" "base64_char n \<noteq> CHR ''=''" "base64_char n \<noteq> CHR ''?''"
  using base64_char_table assms by (auto simp: list_all_iff)

lemma sextets [simp]:
  assumes "a < 256" "b < (256::nat)"
  shows "a div 4 < 64" "a mod 4 * 16 + b div 16 < 64" "a mod 4 * 16 < 64"
    "a mod 16 * 4 + b div 64 < 64" "a mod 16 * 4 < 64" "a mod 64 < 64"
    "a div 4 * 4 + (a mod 4 * 16 + b div 16) div 16 = a" "a div 4 * 4 + a mod 4 * 16 div 16 = a"
    "(a mod 4 * 16 + b div 16) mod 16 = b div 16" "b div 16 * 16 + b mod 16 = b"
    "(b mod 16 * 4 + a div 64) div 4 = b mod 16" "b mod 16 * 4 div 4 = b mod 16"
    "(b mod 16 * 4 + a div 64) mod 4 = a div 64" "a div 64 * 64 + a mod 64 = a"
proof -
  have small: "a div 64 < 4" "b div 64 < 4" "b div 16 < 16" using assms by simp_all
  show "a div 4 < 64" "a mod 4 * 16 < 64" "a mod 16 * 4 < 64" "a mod 64 < 64"
    using assms by (simp_all add: less_mult_imp_div_less)
  show "a mod 4 * 16 + b div 16 < 64" "a mod 16 * 4 + b div 64 < 64"
    using small mod_less_divisor [of 4 a] mod_less_divisor [of 16 a] by linarith+
  show "a div 4 * 4 + (a mod 4 * 16 + b div 16) div 16 = a" "(a mod 4 * 16 + b div 16) mod 16 = b div 16"
    "(b mod 16 * 4 + a div 64) div 4 = b mod 16" "(b mod 16 * 4 + a div 64) mod 4 = a div 64"
    using small by simp_all
  show "a div 4 * 4 + a mod 4 * 16 div 16 = a" "b div 16 * 16 + b mod 16 = b" "b mod 16 * 4 div 4 = b mod 16"
    "a div 64 * 64 + a mod 64 = a"
    by simp_all
qed

lemma unbase64_base64: "\<forall>n \<in> set ns. n < 256 \<Longrightarrow> unbase64 (base64 ns) = ns"
  by (induction ns rule: base64.induct) auto

lemma base64_no_question: "\<forall>n \<in> set ns. n < 256 \<Longrightarrow> CHR ''?'' \<notin> set (base64 ns)"
  by (induction ns rule: base64.induct) (auto dest: base64_char(3) [OF sextets(1)] simp: eq_commute [of "CHR ''?''"])

lemma unat_bytes: "\<forall>n \<in> set (map unat (bytes :: buffer)). n < 256"
proof -
  have "unat w < 256" for w :: "8 word" using unsigned_less [of w] by simp
  then show ?thesis by simp
qed

lemma map_sum_Inr_iff: "map_sum f g x = Inr z \<longleftrightarrow> (\<exists>y. x = Inr y \<and> z = g y)"
  by (cases x) auto

text \<open>
  An encrypted message can be read: cut at the question mark, both halves decode to the ciphertext and
  the initialisation vector.
\<close>

lemma encrypted_content_reads_back:
  assumes "encryptKind4Event kx iv sk pk e = Inr e'"
  shows "\<exists>key cipher. kx_getSharedSecret kx sk (''02'' @ pk) = Inr key \<and>
    kx_aes_cbc kx (drop 1 key) iv (utf8 (ev_content e)) = Inr cipher \<and>
    unbase64 (takeWhile (\<lambda>c. c \<noteq> CHR ''?'') (ev_content e')) = map unat cipher \<and>
    unbase64 (drop 4 (dropWhile (\<lambda>c. c \<noteq> CHR ''?'') (ev_content e'))) = map unat iv \<and>
    e' = e\<lparr>ev_content := ev_content e'\<rparr>"
proof -
  obtain key cipher where k: "kx_getSharedSecret kx sk (''02'' @ pk) = Inr key"
      "kx_aes_cbc kx (drop 1 key) iv (utf8 (ev_content e)) = Inr cipher"
      "e' = e\<lparr>ev_content := base64 (map unat cipher) @ ''?iv='' @ base64 (map unat iv)\<rparr>"
    using assms by (auto simp: encryptKind4Event_def map_sum_Inr_iff split: sum.splits)
  let ?a = "base64 (map unat cipher)"
  have q: "\<forall>c \<in> set ?a. c \<noteq> CHR ''?''" using base64_no_question [OF unat_bytes] by blast
  have "takeWhile (\<lambda>c. c \<noteq> CHR ''?'') (?a @ ''?iv='' @ t) = ?a"
       "dropWhile (\<lambda>c. c \<noteq> CHR ''?'') (?a @ ''?iv='' @ t) = ''?iv='' @ t" for t
    using q by (simp_all add: takeWhile_append2 dropWhile_append2)
  with k show ?thesis by (simp add: unbase64_base64 [OF unat_bytes, simplified])
qed

end
