(* ===== verification/Mirror_Connection.thy ===== *)
theory Mirror_Connection
  imports Mirroring
begin

text \<open>
  The life of a mirroring worker (\<open>StaticMirroringWorker.run\<close>, \<open>onMessage\<close>, \<open>onExit\<close>): one socket at a time, its
  listeners, the timer that opens the next socket after one has closed, and the variable \<open>since\<close> all
  sockets share. What happens to the worker is a list of inputs; the world may change between them
  (\<open>Elsewhere\<close>: time passes, other workers store events). A listener runs to its end before the next
  input. The socket package closes every socket once, connected or not.
\<close>

section \<open>The worker\<close>

text \<open>A socket with the subscription id made for it; \<open>Disconnected\<close>: it has closed, and the timer runs.\<close>

datatype mirror_socket = Connecting string | Connected string | Disconnected

record mirror_worker =
  mw_socket :: mirror_socket
  mw_since :: int
  mw_exited :: bool

datatype 'w mirror_input =
    SocketOpen
  | SocketMessage "remote_message result"
  | SocketClose
  | ReconnectTimer string
  | FromPrimary bool cluster_message
  | Signal
  | Elsewhere 'w

datatype mirror_output = ToRemote relayed_message | ToPrimary cluster_message | ProcessExit

text \<open>\<open>createMirror\<close> with a random UUID.\<close>

definition createMirror :: "string \<Rightarrow> mirror_socket" where
  "createMirror uuid = Connecting (''mirror-'' @ uuid)"

definition mirror_start :: "int \<Rightarrow> string \<Rightarrow> mirror_worker" where
  "mirror_start now uuid = \<lparr>mw_socket = createMirror uuid, mw_since = initial_since now, mw_exited = False\<rparr>"

definition is_connected :: "mirror_socket \<Rightarrow> bool" where
  "is_connected socket = (case socket of Connected _ \<Rightarrow> True | _ \<Rightarrow> False)"

fun mirror_listener ::
    "'w services \<Rightarrow> bool \<Rightarrow> relay_settings \<Rightarrow> mirror \<Rightarrow> 'w mirror_input \<Rightarrow> mirror_worker \<Rightarrow> 'w \<Rightarrow>
      mirror_output list \<times> mirror_worker \<times> 'w" where
  "mirror_listener sv isWorker st config SocketOpen s w =
     (case mw_socket s of
        Connecting sid \<Rightarrow>
          (map ToRemote (onOpen config sid (mw_since s)), s\<lparr>mw_socket := Connected sid\<rparr>, w)
      | _ \<Rightarrow> ([], s, w))"
| "mirror_listener sv isWorker st config (SocketMessage parsed) s w =
     (case mw_socket s of
        Connected sid \<Rightarrow>
          (case onRemoteMessage sv isWorker st config sid parsed (mw_since s) w of
             (out, since', w') \<Rightarrow> (map ToPrimary out, s\<lparr>mw_since := since'\<rparr>, w'))
      | _ \<Rightarrow> ([], s, w))"
| "mirror_listener sv isWorker st config SocketClose s w = ([], s\<lparr>mw_socket := Disconnected\<rparr>, w)"
| "mirror_listener sv isWorker st config (ReconnectTimer uuid) s w =
     (case mw_socket s of Disconnected \<Rightarrow> ([], s\<lparr>mw_socket := createMirror uuid\<rparr>, w) | _ \<Rightarrow> ([], s, w))"
| "mirror_listener sv isWorker st config (FromPrimary is_broadcast m) s w =
     (map ToRemote (mirror_onMessage config (is_connected (mw_socket s)) is_broadcast m), s, w)"
| "mirror_listener sv isWorker st config Signal s w =
     ([ProcessExit], s\<lparr>mw_socket := Disconnected, mw_exited := True\<rparr>, w)"
| "mirror_listener sv isWorker st config (Elsewhere w') s w = ([], s, w')"

definition mirror_step ::
    "'w services \<Rightarrow> bool \<Rightarrow> relay_settings \<Rightarrow> mirror \<Rightarrow> 'w mirror_input \<Rightarrow> mirror_worker \<times> 'w \<Rightarrow>
      mirror_output list \<times> mirror_worker \<times> 'w" where
  "mirror_step sv isWorker st config input s =
     (if mw_exited (fst s) then ([], s) else mirror_listener sv isWorker st config input (fst s) (snd s))"

fun mirror_run ::
    "'w services \<Rightarrow> bool \<Rightarrow> relay_settings \<Rightarrow> mirror \<Rightarrow> 'w mirror_input list \<Rightarrow> mirror_worker \<times> 'w \<Rightarrow>
      mirror_output list \<times> mirror_worker \<times> 'w" where
  "mirror_run sv isWorker st config [] s = ([], s)"
| "mirror_run sv isWorker st config (i # is) s =
     (case mirror_step sv isWorker st config i s of
        (out, s1) \<Rightarrow> case mirror_run sv isWorker st config is s1 of (outs, s2) \<Rightarrow> (out @ outs, s2))"

section \<open>Lemmas\<close>

lemma mirror_run_append:
  "mirror_run sv iw st config (is @ js) s =
     (case mirror_run sv iw st config is s of
        (out, s1) \<Rightarrow> case mirror_run sv iw st config js s1 of (outs, s2) \<Rightarrow> (out @ outs, s2))"
  by (induction "is" arbitrary: s) (simp_all add: split_def)

text \<open>An event that the worker accepted: where it arrived, and the time the worker noted.\<close>

definition accepted_at ::
    "'w services \<Rightarrow> relay_settings \<Rightarrow> mirror \<Rightarrow> nostr_event \<Rightarrow> 'w \<Rightarrow> int \<Rightarrow> bool" where
  "accepted_at sv st config e w t \<longleftrightarrow>
     remote_event_checked sv st config e w \<and> t = sv_now sv (snd (mirror_isUserAdmitted sv st config e w)) div 1000"

lemma onRemoteMessage_since:
  assumes "onRemoteMessage sv iw st config sid parsed since w = (out, since', w')"
  shows "since' = since \<or> (\<exists>e t. parsed = Inr (RemoteEvent sid e) \<and> accepted_at sv st config e w t \<and> since' = t - 30)"
proof (cases "\<exists>e. parsed = Inr (RemoteEvent sid e)")
  case True
  then obtain e where e: "parsed = Inr (RemoteEvent sid e)" by blast
  obtain a w1 where a: "mirror_isUserAdmitted sv st config e w = (a, w1)" by force
  show ?thesis
    using assms e a
    by (auto simp: onRemoteMessage_def remote_event_def remote_accept_def Let_def mirror_checks_ignore_expiration
        accepted_at_def remote_event_checked_def remote_event_ok_True split: prod.splits sum.splits bool.splits if_splits)
next
  case False
  with assms show ?thesis
    by (auto simp: onRemoteMessage_def split: sum.splits remote_message.splits if_splits)
qed

text \<open>\<open>since\<close> is the time of the start or that of an event that was accepted on the way.\<close>

definition since_from ::
    "'w services \<Rightarrow> bool \<Rightarrow> relay_settings \<Rightarrow> mirror \<Rightarrow> 'w mirror_input list \<Rightarrow> mirror_worker \<times> 'w \<Rightarrow> int \<Rightarrow> bool" where
  "since_from sv iw st config is s0 since \<longleftrightarrow> since = mw_since (fst s0) \<or>
     (\<exists>pre sid e post t. is = pre @ SocketMessage (Inr (RemoteEvent sid e)) # post \<and>
        accepted_at sv st config e (snd (snd (mirror_run sv iw st config pre s0))) t \<and> since = t - 30)"

lemma since_from_snoc: "since_from sv iw st config is s0 t \<Longrightarrow> since_from sv iw st config (is @ [i]) s0 t"
  unfolding since_from_def by (metis append.assoc append_Cons)

lemma mirror_since:
  "mirror_run sv iw st config is s0 = (out, s, w) \<Longrightarrow> since_from sv iw st config is s0 (mw_since s)"
proof (induction "is" arbitrary: out s w rule: rev_induct)
  case Nil
  then show ?case by (simp add: since_from_def)
next
  case (snoc i "is")
  obtain out1 s1 w1 where r: "mirror_run sv iw st config is s0 = (out1, s1, w1)" by (metis prod_cases3)
  note before = since_from_snoc [OF snoc.IH [OF r]]
  from snoc.prems r obtain o2 where step: "mirror_step sv iw st config i (s1, w1) = (o2, s, w)"
    by (auto simp: mirror_run_append split: prod.splits)
  consider "mw_since s = mw_since s1" | sid e t where "i = SocketMessage (Inr (RemoteEvent sid e))"
      "accepted_at sv st config e w1 t" "mw_since s = t - 30"
    using step
    by (cases i) (auto simp: mirror_step_def split: if_splits mirror_socket.splits prod.splits
        dest!: onRemoteMessage_since)
  then show ?case
  proof cases
    case 1
    then show ?thesis using before [of i] by simp
  next
    case 2
    then show ?thesis unfolding since_from_def
      by (intro disjI2 exI [of _ "is"] exI [of _ sid] exI [of _ e] exI [of _ "[]"] exI [of _ t]) (simp add: r)
  qed
qed

text \<open>From every state the worker can be connected again, and subscribes.\<close>

lemma mirror_reconnects:
  assumes "\<not> mw_exited s"
  shows "mirror_run sv iw st config [SocketClose, ReconnectTimer uuid, SocketOpen] (s, w) =
    (map ToRemote (onOpen config (''mirror-'' @ uuid) (mw_since s)),
     s\<lparr>mw_socket := Connected (''mirror-'' @ uuid)\<rparr>, w)"
  using assms by (simp add: mirror_step_def createMirror_def)

section \<open>Properties\<close>


text \<open>An event arrives, the connection is lost, the signal comes.\<close>

definition mirror_story :: "relay_world mirror_input list" where
  "mirror_story = [SocketOpen, SocketMessage (Inr (RemoteEvent ''mirror-a'' note_event)), SocketClose]"


end
