(* ===== verification/Stream_Pipeline.thy ===== *)
theory Stream_Pipeline
  imports Subscription_Handler
begin

text \<open>
  The stream transforms of \<open>src/utils/stream.ts\<close> and the pipeline \<open>fetchAndSend\<close> builds of them. A stage
  turns a chunk into chunks for the next stage and outputs, and may have an output at its end; every
  chunk goes through all the stages before the next one, and the ends are reached only when the source
  ends without an error. \<open>Subscription_Handler\<close> uses list functions instead; the lemma at the end says
  that this is the same.
\<close>

type_synonym ('a, 'b, 'o) stage = "('a \<Rightarrow> 'b list \<times> 'o list) \<times> 'o list"

definition streamMap :: "('a \<Rightarrow> 'b) \<Rightarrow> ('a, 'b, 'o) stage" where
  "streamMap fn = ((\<lambda>chunk. ([fn chunk], [])), [])"

definition streamEach :: "('a \<Rightarrow> 'o) \<Rightarrow> ('a, 'b, 'o) stage" where
  "streamEach writeFn = ((\<lambda>chunk. ([], [writeFn chunk])), [])"

definition streamFilter :: "('a \<Rightarrow> bool) \<Rightarrow> ('a, 'a, 'o) stage" where
  "streamFilter predicate = ((\<lambda>chunk. if predicate chunk then ([chunk], []) else ([], [])), [])"

definition streamEnd :: "'o \<Rightarrow> ('a, 'a, 'o) stage" where
  "streamEnd finalFn = ((\<lambda>chunk. ([chunk], [])), [finalFn])"

definition piped :: "('a, 'b, 'o) stage \<Rightarrow> ('b, 'c, 'o) stage \<Rightarrow> ('a, 'c, 'o) stage" where
  "piped s t =
     ((\<lambda>chunk. case fst s chunk of
         (chunks, outputs) \<Rightarrow> (concat (map (fst \<circ> fst t) chunks), outputs @ concat (map (snd \<circ> fst t) chunks))),
      snd s @ snd t)"

text \<open>What a pipeline puts out for a source of chunks that ends, or fails.\<close>

definition pipeline :: "('a, 'b, 'o) stage \<Rightarrow> 'a list \<times> exn option \<Rightarrow> 'o list" where
  "pipeline s source =
     concat (map (snd \<circ> fst s) (fst source)) @ (if snd source = None then snd s else [])"

definition subscription_pipeline ::
    "string \<Rightarrow> subscription_filter list \<Rightarrow> (event_row, nostr_event, adapter_action) stage" where
  "subscription_pipeline subscriptionId filters =
     piped (streamFilter (\<lambda>r. deleted_at r = None))
       (piped (streamMap toNostrEvent)
         (piped (streamFilter (isClientSubscribedToEvent filters))
           (piped (streamEach (\<lambda>e. EmitMessage (createOutgoingEventMessage subscriptionId e)))
             (streamEnd (EmitMessage (createEndOfStoredEventsNoticeMessage subscriptionId))))))"

lemmas stages = streamMap_def streamEach_def streamFilter_def streamEnd_def piped_def

lemma subscription_pipeline_outputs:
  "pipeline (subscription_pipeline sid filters) (rows, err) =
     map (\<lambda>e. EmitMessage (createOutgoingEventMessage sid e)) (stream_events filters rows) @
     (if err = None then [EmitMessage (createEndOfStoredEventsNoticeMessage sid)] else [])"
proof -
  let ?s = "subscription_pipeline sid filters"
  have chunk: "snd (fst ?s r) = (if deleted_at r = None \<and> isClientSubscribedToEvent filters (toNostrEvent r)
      then [EmitMessage (createOutgoingEventMessage sid (toNostrEvent r))] else [])" for r
    by (simp add: subscription_pipeline_def stages)
  have "concat (map (\<lambda>r. snd (fst ?s r)) rows) =
      map (\<lambda>e. EmitMessage (createOutgoingEventMessage sid e)) (stream_events filters rows)"
    by (induction rows) (simp_all add: chunk stream_events_def)
  moreover have "snd ?s = [EmitMessage (createEndOfStoredEventsNoticeMessage sid)]"
    by (simp add: subscription_pipeline_def stages)
  ultimately show ?thesis by (simp add: pipeline_def comp_def)
qed

text \<open>The handler sends exactly what its pipeline puts out.\<close>

lemma fetchAndSend_pipeline:
  assumes "findByFilters filters = Inr query"
  shows "fetchAndSend fetch sid filters w =
    (case fetch query w of
       (source, w') \<Rightarrow> (pipeline (subscription_pipeline sid filters) source,
         (case snd source of None \<Rightarrow> Inr () | Some x \<Rightarrow> Inl x), w'))"
  by (auto simp: fetchAndSend_def assms Let_def subscription_pipeline_outputs split: prod.split option.split)

end
