(* ===== verification/Add_Users.thy ===== *)
theory Add_Users
  imports Payments_Service
begin

text \<open>
  \<open>scripts/add-users.ts\<close>: the operator admits a user by hand. \<open>argv2\<close> is the argument of the script,
  \<open>destroy\<close> closes the pool; the result is the exit code.
\<close>

definition add_user_main ::
    "'w db_client \<Rightarrow> ('w, unit) task \<Rightarrow> string option \<Rightarrow> ('w, nat) task" where
  "add_user_main dc destroy argv2 =
     (case argv2 of
        None \<Rightarrow> returning 1
      | Some pubkey \<Rightarrow>
          if pubkey = [] \<or> length pubkey \<noteq> 64 then returning 1
          else
            catching
              (await (reading (dc_now dc)) (\<lambda>now.
               await (user_upsert dc MainClient pubkey (Some True) (Some now)) (\<lambda>_.
               await destroy (\<lambda>_. returning 0))))
              (\<lambda>_. returning 1))"

text \<open>What the script does to the table of users.\<close>

lemma upsert_user_admits:
  assumes "ui_is_admitted i = Some True"
  shows "\<exists>u \<in> set (upsert_user i us). ur_pubkey u = ui_pubkey i"
    and "u \<in> set (upsert_user i us) \<Longrightarrow> ur_pubkey u = ui_pubkey i \<Longrightarrow> ur_is_admitted u"
    and "ur_pubkey u \<noteq> ui_pubkey i \<Longrightarrow> u \<in> set (upsert_user i us) \<longleftrightarrow> u \<in> set us"
proof -
  have merged: "ur_pubkey (merge_user_row i v) = ur_pubkey v" "ur_is_admitted (merge_user_row i v)"
      "ur_is_admitted (new_user_row i)" "ur_pubkey (new_user_row i) = ui_pubkey i" for v
    using assms by (simp_all add: merge_user_row_def new_user_row_def)
  have "ui_pubkey i \<in> ur_pubkey ` set (upsert_user i us)"
    using upsert_user_keys [of i us] by (auto simp: set_map [symmetric] simp del: set_map split: if_splits)
  then show "\<exists>u \<in> set (upsert_user i us). ur_pubkey u = ui_pubkey i" by force
  show "u \<in> set (upsert_user i us) \<Longrightarrow> ur_pubkey u = ui_pubkey i \<Longrightarrow> ur_is_admitted u"
    using merged by (auto simp: upsert_user_def list_ex_iff split: if_splits)
  show "ur_pubkey u \<noteq> ui_pubkey i \<Longrightarrow> u \<in> set (upsert_user i us) \<longleftrightarrow> u \<in> set us"
    using merged by (auto simp: upsert_user_def split: if_splits)
qed

context payments_database
begin

lemma add_user_upserts:
  assumes "frames (\<lambda>w. (db w, saved w)) destroy" and "saved w = None"
    and "add_user_main dc destroy argv2 w = (Inr 0, w')"
  obtains pubkey now date where "argv2 = Some pubkey" "length pubkey = 64"
    "db w' = (db w)\<lparr>pd_users := upsert_user \<lparr>ui_pubkey = toBuffer pubkey, ui_is_admitted = Some True,
       ui_tos_accepted_at = Some now, ui_updated_at = date, ui_created_at = date\<rparr> (pd_users (db w))\<rparr>"
proof -
  obtain pubkey where a: "argv2 = Some pubkey" "length pubkey = 64"
    using assms(3) by (auto simp: add_user_main_def split: option.splits if_splits)
  let ?row = "\<lparr>ui_pubkey = toBuffer pubkey, ui_is_admitted = Some True,
       ui_tos_accepted_at = Some (dc_now dc w), ui_updated_at = dc_now dc w, ui_created_at = dc_now dc w\<rparr>"
  have "\<exists>answer w1. dc_sql dc MainClient (UpsertUser ?row) w = (Inr answer, w1) \<and> destroy w1 = (Inr (), w')"
    using assms(3) a
    by (auto simp: add_user_main_def catching_def user_upsert_def await_Inr await_def
        split: prod.splits sum.splits if_splits)
  then obtain answer w1 where run: "dc_sql dc MainClient (UpsertUser ?row) w = (Inr answer, w1)" "destroy w1 = (Inr (), w')"
    by blast
  have "db w1 = (db w)\<lparr>pd_users := upsert_user ?row (pd_users (db w))\<rparr>"
    using sql_main [OF assms(2) run(1)] by (auto simp: statement_outcome_def)
  moreover have "db w' = db w1" using framesD [OF assms(1) run(2)] by simp
  ultimately show ?thesis using that [OF a] by simp
qed

end

section \<open>Properties\<close>

text \<open>
  C40. Admitting by hand: when the script exits with 0, the user of its argument is in the table and
  admitted, no other user has changed, nobody's balance has, and no invoice has. The argument is only
  measured: the key that is admitted is what \<open>Buffer.from\<close> reads of it.
\<close>

theorem script_admits:
  assumes "payments_database dc db saved" and "frames (\<lambda>w. (db w, saved w)) destroy" and "saved w = None"
    and "add_user_main dc destroy argv2 w = (Inr 0, w')"
  shows "\<exists>pubkey. argv2 = Some pubkey \<and>
    (\<exists>u \<in> set (pd_users (db w')). ur_pubkey u = toBuffer pubkey) \<and>
    (\<forall>u \<in> set (pd_users (db w')). ur_pubkey u = toBuffer pubkey \<longrightarrow> ur_is_admitted u) \<and>
    (\<forall>u. ur_pubkey u \<noteq> toBuffer pubkey \<longrightarrow> u \<in> set (pd_users (db w')) \<longleftrightarrow> u \<in> set (pd_users (db w))) \<and>
    (\<forall>u \<in> set (pd_users (db w')).
       (\<exists>v \<in> set (pd_users (db w)). ur_pubkey u = ur_pubkey v \<and> ur_balance u = ur_balance v) \<or>
       (toBuffer pubkey \<notin> ur_pubkey ` set (pd_users (db w)) \<and> ur_pubkey u = toBuffer pubkey \<and> ur_balance u = 0)) \<and>
    pd_invoices (db w') = pd_invoices (db w)"
proof -
  obtain pubkey now date where up: "argv2 = Some pubkey"
    "db w' = (db w)\<lparr>pd_users := upsert_user \<lparr>ui_pubkey = toBuffer pubkey, ui_is_admitted = Some True,
       ui_tos_accepted_at = Some now, ui_updated_at = date, ui_created_at = date\<rparr> (pd_users (db w))\<rparr>"
    by (rule payments_database.add_user_upserts [OF assms]) blast
  let ?i = "\<lparr>ui_pubkey = toBuffer pubkey, ui_is_admitted = Some True,
       ui_tos_accepted_at = Some now, ui_updated_at = date, ui_created_at = date\<rparr>"
  have i: "ui_is_admitted ?i = Some True" by simp
  show ?thesis
    using upsert_user_admits [OF i] upsert_user_balances [of _ ?i "pd_users (db w)"] up
    by (intro exI [of _ pubkey]) (auto simp: up(2))
qed

theorem script_admits_witness:
  "\<exists>u \<in> set (pd_users (dw_db (snd (add_user_main table_client (returning ()) (Some (replicate 64 (CHR ''a'')))
     (open_world None))))). ur_pubkey u = toBuffer (replicate 64 (CHR ''a''))"
proof -
  let ?run = "add_user_main table_client (returning ()) (Some (replicate 64 (CHR ''a''))) (open_world None)"
  have code: "fst ?run = Inr 0" by code_simp
  then have run: "?run = (Inr 0, snd ?run)" by (simp add: prod_eq_iff)
  have saved: "dw_saved (open_world None) = None" by code_simp
  have closes: "frames (\<lambda>w. (dw_db w, dw_saved w)) (returning () :: (pay_world, unit) task)"
    by (simp add: frames_def)
  from script_admits [OF tables.payments_database_axioms closes saved run] show ?thesis by auto
qed

end
