(* ===== verification/Spec2Isabelle.thy ===== *)
theory Spec2Isabelle
  imports Cluster Runes Message_Schemas Settings_Files Startup Relay_Keys Mirror_Connection Stream_Pipeline Add_Users
begin

text \<open>
  A verification library for nostream, a Nostr relay written in TypeScript (paths below are relative to
  \<open>src/\<close> of the repository).

  \<^bold>\<open>The program.\<close> A primary process (\<open>app/app.ts\<close>) forks client workers, one maintenance worker and one
  worker for each mirrored relay. A client worker accepts WebSocket connections; each connection has an
  adapter that reads messages, validates them (\<open>schemas/\<close>), limits their rate, asks for authentication,
  and runs a handler: events are checked and given to a strategy that stores, replaces, deletes or only
  relays them (\<open>handlers/\<close>, \<open>repositories/event-repository.ts\<close>); subscriptions are answered from the
  database and then get the events that are stored later. A stored event is broadcast to the connections
  of its worker and, through the primary process, to those of the other workers and to the mirrored
  relays. Users pay for admission: controllers create invoices with a payment processor, and callbacks or
  the maintenance worker confirm them in a transaction.

  \<^bold>\<open>Theories.\<close> In the order of import:
  \<^item> \<open>Prelude\<close>: exceptions as values, asynchronous code as functions on a world (\<open>task\<close>, \<open>await\<close>,
    \<open>catching\<close>) with rules for their pre- and postconditions (\<open>triple\<close>, \<open>keeps\<close>, \<open>frames\<close>), and the
    pieces of the JavaScript library used everywhere. Locale \<open>kept_value\<close>: module variables that are filled
    once.
  \<^item> \<open>Nostr_Types\<close>: events, filters, messages, settings (\<open>@types/\<close>, \<open>constants/base.ts\<close>,
    \<open>utils/messages.ts\<close>). \<open>Buffers\<close>: hexadecimal strings and proof of work. \<open>Js_Number\<close>: \<open>Number(s)\<close>.
  \<^item> \<open>Event_Utils\<close>, \<open>Canonical_Json\<close>: \<open>utils/event.ts\<close>, with \<open>JSON.stringify\<close> of the canonical form.
  \<^item> \<open>Event_Repository\<close>, \<open>Event_Queries\<close>: the table of events with its unique indexes, the statements
    of \<open>event-repository.ts\<close> and the conditions \<open>findByFilters\<close> builds. Locales \<open>events_database\<close> and
    \<open>event_store\<close>: what the strategies rely on.
  \<^item> \<open>Rate_Limiter\<close>: the sliding window over a cache (\<open>utils/sliding-window-rate-limiter.ts\<close>,
    \<open>adapters/redis-adapter.ts\<close>).
  \<^item> \<open>Event_Strategies\<close>, \<open>Event_Handler\<close>, \<open>Subscription_Handler\<close>: \<open>handlers/\<close>; the locale
    \<open>relay_services\<close> is what the handlers rely on. \<open>Stream_Pipeline\<close>: \<open>utils/stream.ts\<close>.
  \<^item> \<open>WebSocket_Adapter\<close>: \<open>adapters/web-socket-adapter.ts\<close>; the life of a connection is a step relation
    in which other steps happen between the dispatch of a message and the end of its handler.
  \<^item> \<open>Message_Schemas\<close>: \<open>schemas/\<close>, and what it means for the connections.
  \<^item> \<open>Mirroring\<close>, \<open>Mirror_Connection\<close>: \<open>app/static-mirroring-worker.ts\<close>, its checks and the life of its
    connections.
  \<^item> \<open>Http_Access\<close>: remote addresses and rate limits of requests.
  \<^item> \<open>Cluster\<close>: \<open>app/app.ts\<close>, \<open>app/worker.ts\<close>, \<open>index.ts\<close>, \<open>adapters/web-socket-server-adapter.ts\<close>; the
    processes and their channels are a step relation. \<open>Startup\<close>: \<open>App.run\<close> from its banner to its workers.
  \<^item> \<open>Clients\<close>: \<open>database/client.ts\<close>, \<open>cache/client.ts\<close>, \<open>tor/client.ts\<close> and the connection of
    \<open>adapters/redis-adapter.ts\<close>.
  \<^item> \<open>Payments_Store\<close>, \<open>Payments_Service\<close>: the tables of users and invoices, the stored function
    \<open>confirm_invoice\<close>, transactions, \<open>services/payments-service.ts\<close>, \<open>app/maintenance-worker.ts\<close>.
    Locales \<open>payments_database\<close> and \<open>payments_backend\<close>.
  \<^item> \<open>Payment_Processors\<close>, \<open>Payment_Controllers\<close>: \<open>payments-processors/\<close>, their factories, and
    \<open>controllers/\<close>. \<open>Relay_Keys\<close>: the relay's keys, from \<open>utils/event.ts\<close>. \<open>Add_Users\<close>:
    \<open>scripts/add-users.ts\<close>.
  \<^item> \<open>Relay_Pages\<close>: the pages and the information document of \<open>handlers/request-handlers/\<close>.
  \<^item> \<open>Settings_Files\<close>: \<open>utils/settings.ts\<close>. \<open>Runes\<close>: \<open>utils/runes/\<close>.

  \<^bold>\<open>What is shown.\<close> The properties carry ids (C1, C2, ...) in the text before them. They say: that
  nothing is stored or relayed before all checks passed, from a client or from a mirrored relay, and
  that both apply the same rules; that every message is answered as the protocol demands; that the
  table of events keeps its indexes, that of replaceable events the newest stays and that deleted ones
  stay deleted; that queries select what the filters describe, and where they do not; that rate limits
  bound what gets through; that authentication cannot be bypassed and subscription limits hold at every
  moment; that validated messages are well-formed; that broadcasts reach every other worker and every
  subscription exactly once; that balances are the sums of confirmed invoices, that confirmations are all
  or nothing and nobody is admitted without paying; that runes and other encodings read back; which limits
  that are advertised are enforced; that a mirroring worker comes back after losing its connection; which
  workers start and which database they read from. Each
  locale is interpreted on the model's own tables, caches and services in the theory that provides them.

  \<^bold>\<open>Conventions.\<close> A \<open>result\<close> is an exception or a value. Strings are lists of characters, one per UTF-16
  code unit below 256. Integers of JavaScript are \<open>int\<close> where the code keeps them in the safe range;
  where it reads them from strings the rounding to doubles is modelled (\<open>Js_Number\<close>); bytes are
  \<open>8 word\<close>. Loops are structural recursion, except those of the rune decoders, which are partial
  functions proved to return. There is no fuel.

  \<^bold>\<open>Parameters.\<close> Code outside the repository is an argument: SHA-256, HMAC, AES and secp256k1, PostgreSQL
  (the statements it is sent have the semantics of \<open>Event_Repository\<close> and \<open>Payments_Store\<close>, and any of
  them may fail), Redis, Tor, the HTTP interfaces of payment processors, bech32, Joi, \<open>JSON.parse\<close>, the
  \<open>URL\<close> class, the file system. Where a property needs their documented behaviour it is a hypothesis, and the witness
  instantiates it.

  \<^bold>\<open>Not modelled.\<close> Logging; routes and dependency wiring; the migrations other than the final form of the
  tables and of \<open>confirm_invoice\<close>, which are SQL; the watchers of the settings files and listening for
  HTTP connections; timers (the steps they trigger are modelled); numbers that are no integers where
  they are printed (\<open>Clients\<close>, \<open>Startup\<close>).
\<close>

section \<open>From one worker to the subscribers of another\<close>


text \<open>The run of \<open>Cluster\<close> and a connection that has subscribed to everything.\<close>

definition subscriber :: "relay_world connection" where
  "subscriber = do_finish test_env limits_settings
     (do_dispatch test_env limits_settings ''req a'' (new_connection ''::1'' fresh_world))"


end
